theory Spec2Isabelle
  imports Main "HOL-Library.Word" "HOL-Library.Stream"
begin

unbundle bit_operations_syntax

section \<open>OpenPGM transport (pgm/transport.c): basic types\<close>

text \<open>
  The embedding follows \<^verbatim>\<open>pgm/transport.c\<close>. GLib's \<^verbatim>\<open>guint\<close>, \<^verbatim>\<open>guint32\<close> are 32-bit
  words, \<^verbatim>\<open>guint8\<close> is an 8-bit word, C \<^verbatim>\<open>int\<close> values that only carry a status or a
  flag word are \<open>int\<close>.
\<close>

type_synonym guint = "32 word"
type_synonym guint32 = "32 word"
type_synonym guint8 = "8 word"

text \<open>
  Modelled from the spec: \<^verbatim>\<open>pgm_time_t\<close> and the comparison macros of \<^verbatim>\<open>pgm/timer.h\<close>
  are not part of the sources. The spec has all timers as monotonic microseconds, and
  "now \<ge> expiry" for the comparisons the code writes as \<^verbatim>\<open>pgm_time_after_eq\<close>.
\<close>

type_synonym pgm_time_t = nat

definition pgm_time_after_eq :: "pgm_time_t \<Rightarrow> pgm_time_t \<Rightarrow> bool" where
  "pgm_time_after_eq a b = (b \<le> a)"

definition pgm_time_after :: "pgm_time_t \<Rightarrow> pgm_time_t \<Rightarrow> bool" where
  "pgm_time_after a b = (b < a)"

definition EINVAL :: int where
  "EINVAL = 22"

section \<open>pgm_set_nonblocking\<close>

text \<open>
  The two ends of a pipe are set non-blocking through \<^verbatim>\<open>fcntl\<close>. The operating system is
  a parameter: a state \<open>'k\<close> and a function that answers one \<^verbatim>\<open>fcntl\<close> call and gives
  the next state. The model returns the C return value, the calls made in order, and the
  final state of the operating system.
\<close>

datatype fcntl_call = F_GETFL int | F_SETFL int int

text \<open>\<^verbatim>\<open>O_NONBLOCK\<close> of the Linux header \<^verbatim>\<open>fcntl.h\<close> (octal 04000).\<close>

definition O_NONBLOCK :: int where
  "O_NONBLOCK = 2048"

definition pgm_set_nonblocking ::
  "('k \<Rightarrow> fcntl_call \<Rightarrow> int \<times> 'k) \<Rightarrow> 'k \<Rightarrow> int \<times> int \<Rightarrow> int \<times> fcntl_call list \<times> 'k" where
  "pgm_set_nonblocking fcntl k filedes =
     (let fd0 = fst filedes; fd1 = snd filedes;
          c1 = F_GETFL fd1;
          (fd_flags, k1) = fcntl k c1
      in if fd_flags < 0 then (fd_flags, [c1], k1)
         else
           let c2 = F_SETFL fd1 (fd_flags OR O_NONBLOCK);
               (retval2, k2) = fcntl k1 c2
           in if retval2 < 0 then (fd_flags, [c1, c2], k2)
              else
                let c3 = F_GETFL fd0;
                    (ignored, k3) = fcntl k2 c3
                in if fd_flags < 0 then (fd_flags, [c1, c2, c3], k3)
                   else
                     let c4 = F_SETFL fd0 (fd_flags OR O_NONBLOCK);
                         (retval4, k4) = fcntl k3 c4
                     in if retval4 < 0 then (fd_flags, [c1, c2, c3, c4], k4)
                        else (retval4, [c1, c2, c3, c4], k4))"

text \<open>A pipe whose read end is descriptor 3 (flags \<^verbatim>\<open>O_RDONLY\<close>, 0) and whose write end is
  descriptor 4 (flags \<^verbatim>\<open>O_WRONLY\<close>, 1): the status flags are kept per descriptor,
  \<^verbatim>\<open>F_GETFL\<close> reads them and \<^verbatim>\<open>F_SETFL\<close> stores its argument.\<close>

definition pipe_fcntl :: "(int \<Rightarrow> nat) \<Rightarrow> fcntl_call \<Rightarrow> int \<times> (int \<Rightarrow> nat)" where
  "pipe_fcntl k c =
     (case c of F_GETFL fd \<Rightarrow> (int (k fd), k)
              | F_SETFL fd v \<Rightarrow> (0, k(fd := nat v)))"

definition pipe_flags0 :: "int \<Rightarrow> nat" where
  "pipe_flags0 = (\<lambda>fd. if fd = 3 then 0 else 1)"

section \<open>Addresses, packets and the socket layer\<close>

text \<open>
  A socket address as the code looks at it: the family (\<open>sa_family\<close>; 0 while nothing
  has been stored), the four bytes that \<^verbatim>\<open>((struct sockaddr_in*)p)->sin_addr.s_addr\<close> reads,
  and the remaining bytes.
\<close>

record sockaddr =
  sa_family :: nat
  s_addr :: guint32
  sa_data :: nat

definition AF_INET :: nat where
  "AF_INET = 2"

definition AF_INET6 :: nat where
  "AF_INET6 = 10"

definition INADDR_ANY :: guint32 where
  "INADDR_ANY = 0"

text \<open>
  Modelled from the spec: \<^verbatim>\<open>pgm_sockaddr_cmp\<close> is not part of the sources. The spec has the
  two NLA checks of a NAK as equality of addresses; the result is 0 when they are equal.
\<close>

definition pgm_sockaddr_cmp :: "sockaddr \<Rightarrow> sockaddr \<Rightarrow> int" where
  "pgm_sockaddr_cmp a b = (if a = b then 0 else 1)"

datatype pgm_type_e =
  PGM_SPM | PGM_POLL | PGM_POLR | PGM_ODATA | PGM_RDATA | PGM_NAK | PGM_NNAK | PGM_NCF | PGM_SPMR

text \<open>
  Modelled from the spec: the option bits of the PGM header (\<^verbatim>\<open>pgm/packet.h\<close> is not part
  of the sources; the spec lists the values).
\<close>

definition PGM_OPT_PARITY :: guint8 where
  "PGM_OPT_PARITY = 0x80"

definition PGM_OPT_VAR_PKTLEN :: guint8 where
  "PGM_OPT_VAR_PKTLEN = 0x40"

definition PGM_OPT_NETWORK :: guint8 where
  "PGM_OPT_NETWORK = 0x02"

definition PGM_OPT_PRESENT :: guint8 where
  "PGM_OPT_PRESENT = 0x01"

text \<open>
  What a send function writes into a packet: the ports and type of the header, the option
  bits, and the body. Of an SPM or a data packet the body keeps the sequence number; of a
  NAK or NCF the sequence number, the two NLAs and the entries of an \<^verbatim>\<open>OPT_NAK_LIST\<close>.
  The GSI, the window's trail and lead, the payload and the checksum are not modelled.
\<close>

datatype pgm_body =
  Spm_body guint32
  | Data_body guint32
  | Nak_body guint32 sockaddr sockaddr "guint32 list"
  | No_body

record pgm_packet =
  pgm_sport :: "16 word"
  pgm_dport :: "16 word"
  pgm_type :: pgm_type_e
  pgm_options :: guint8
  pgm_body :: pgm_body

datatype pgm_sock = SEND_SOCK | SEND_WITH_ROUTER_ALERT_SOCK

datatype pgm_pipe = RDATA_PIPE | TIMER_PIPE | WAITING_PIPE

text \<open>
  The calls a transport makes on its descriptors and on its transmit window, in order:
  a datagram handed to \<^verbatim>\<open>pgm_sendto\<close> (the descriptor it goes to, whether it is rate
  limited, the packet, the destination), one byte written to a pipe, a sequence number
  pushed on the retransmit queue of the transmit window (with the parity flag).
\<close>

datatype io_event =
  Sendto pgm_sock bool pgm_packet sockaddr
  | Write_pipe pgm_pipe
  | Txw_retransmit_push guint32 bool

text \<open>
  What a call returns: \<open>All_written\<close> when it is the length the call was asked to write
  (the length of the datagram for \<^verbatim>\<open>sendto\<close>, 1 for \<^verbatim>\<open>write\<close>), \<open>Returned n\<close> when
  it is another number \<open>n\<close> (fewer bytes, or -1 for an error).
\<close>

datatype io_ret = All_written | Returned int

text \<open>
  The operating system is a parameter \<open>os\<close> of every function that sends or writes: given
  the calls so far, the last one being the call just made, it gives what that call returns.
\<close>

type_synonym os_t = "io_event list \<Rightarrow> io_ret"

section \<open>The transport\<close>

text \<open>
  The counters of \<^verbatim>\<open>cumulative_stats\<close> that the model keeps. The counter
  \<^verbatim>\<open>PGM_PC_SOURCE_BYTES_SENT\<close>, which the send functions advance by the length of the
  datagram in the wire format, is not kept.
\<close>

datatype pgm_pc =
  PGM_PC_SOURCE_SELECTIVE_NAKS_RECEIVED
  | PGM_PC_SOURCE_PARITY_NAKS_RECEIVED
  | PGM_PC_SOURCE_MALFORMED_NAKS
  | PGM_PC_SOURCE_PACKETS_DISCARDED
  | PGM_PC_SOURCE_DATA_BYTES_SENT
  | PGM_PC_SOURCE_DATA_MSGS_SENT
  | PGM_PC_SOURCE_SELECTIVE_MSGS_RETRANSMITTED
  | PGM_PC_RECEIVER_MALFORMED_SPMS
  | PGM_PC_RECEIVER_PACKETS_DISCARDED
  | PGM_PC_RECEIVER_DUP_SPMS
  | PGM_PC_RECEIVER_SELECTIVE_NAK_PACKETS_SENT
  | PGM_PC_RECEIVER_SELECTIVE_NAKS_SENT
  | PGM_PC_RECEIVER_PARITY_NAK_PACKETS_SENT
  | PGM_PC_RECEIVER_PARITY_NAKS_SENT
  | PGM_PC_RECEIVER_NAKS_FAILED_NCF_RETRIES_EXCEEDED
  | PGM_PC_RECEIVER_NAKS_FAILED_DATA_RETRIES_EXCEEDED

text \<open>
  The fields of \<^verbatim>\<open>pgm_transport_t\<close> that the modelled functions read or write.
  \<open>send_smr_interface\<close> and \<open>send_smr_multiaddr\<close> are \<^verbatim>\<open>send_smr.smr_interface\<close> and
  \<^verbatim>\<open>send_smr.smr_multiaddr\<close>; \<open>tsi_sport\<close> is \<^verbatim>\<open>tsi.sport\<close>. \<open>grand\<close> is the field \<^verbatim>\<open>rand_\<close>, the
  random number generator, as the sequence of raw numbers it will give.
  \<open>spm_heartbeat_interval\<close> is the allocated array. \<open>peers_waiting\<close> lists the peers
  (by TSI) whose receive window is linked for flushing, the most recently linked first;
  \<open>peers_last_waiting\<close> is a pointer to the head of that list as it was at the last prod
  (\<open>None\<close> for \<^verbatim>\<open>NULL\<close>).
  \<open>spm_packet\<close> is the recyclable SPM that \<^verbatim>\<open>pgm_transport_bind\<close> builds.
  Three fields are not fields of the C structure. \<open>wire\<close> is the history of calls on the
  transport's descriptors, the oldest first. \<open>pgm_time_now\<close> is the global variable of
  that name, and \<open>clock\<close> the values that the coming calls of \<^verbatim>\<open>pgm_time_update_now\<close>
  will read. The counters that count bytes are left out.
\<close>

record pgm_transport_t =
  is_bound :: bool
  can_send :: bool
  can_recv :: bool
  is_passive :: bool
  use_proactive_parity :: bool
  use_ondemand_parity :: bool
  use_varpkt_len :: bool
  rs_n :: guint
  rs_k :: guint
  tg_sqn_shift :: guint
  tsi_sport :: "16 word"
  dport :: "16 word"
  send_smr_interface :: sockaddr
  send_smr_multiaddr :: sockaddr
  spm_ambient_interval :: guint
  spm_heartbeat_interval :: "guint list"
  spm_heartbeat_state :: guint
  peer_expiry :: guint
  spmr_expiry :: guint
  nak_bo_ivl :: guint
  nak_rpt_ivl :: guint
  nak_rdata_ivl :: guint
  nak_data_retries :: guint
  nak_ncf_retries :: guint
  next_poll :: pgm_time_t
  next_ambient_spm :: pgm_time_t
  next_heartbeat_spm :: pgm_time_t
  spm_sqn :: guint32
  spm_packet :: pgm_packet
  max_tsdu :: nat
  grand :: "nat stream"
  peers_waiting :: "nat list"
  peers_last_waiting :: "nat option"
  cumulative_stats :: "pgm_pc \<Rightarrow> guint32"
  wire :: "io_event list"
  pgm_time_now :: pgm_time_t
  clock :: "pgm_time_t stream"

definition stat_inc :: "(pgm_pc \<Rightarrow> guint32) \<Rightarrow> pgm_pc \<Rightarrow> (pgm_pc \<Rightarrow> guint32)" where
  "stat_inc st c = st(c := st c + 1)"

definition stat_add :: "(pgm_pc \<Rightarrow> guint32) \<Rightarrow> pgm_pc \<Rightarrow> guint32 \<Rightarrow> (pgm_pc \<Rightarrow> guint32)" where
  "stat_add st c n = st(c := st c + n)"

subsection \<open>pgm_power2_log2\<close>

definition pgm_power2_log2 :: "guint \<Rightarrow> guint" where
  "pgm_power2_log2 v =
     fold (\<lambda>ib r. r OR push_bit (fst ib) (of_bool (v AND snd ib \<noteq> 0)))
       [(4, 0xFFFF0000), (3, 0xFF00FF00), (2, 0xF0F0F0F0), (1, 0xCCCCCCCC)]
       (of_bool (v AND 0xAAAAAAAA \<noteq> 0))"

subsection \<open>Setters\<close>

text \<open>
  A setter takes the transport pointer, \<open>None\<close> for \<^verbatim>\<open>NULL\<close>, and returns the C return
  value with the transport as it is afterwards. \<^verbatim>\<open>g_return_val_if_fail (c, v)\<close> returns
  \<open>v\<close> when \<open>c\<close> is false.
\<close>

definition pgm_transport_set_ambient_spm ::
  "pgm_transport_t option \<Rightarrow> guint \<Rightarrow> int \<times> pgm_transport_t option" where
  "pgm_transport_set_ambient_spm tp interval =
     (case tp of
        None \<Rightarrow> (- EINVAL, None)
      | Some t \<Rightarrow>
          if is_bound t then (- EINVAL, Some t)
          else if \<not> 0 < unat interval then (- EINVAL, Some t)
          else (0, Some (t\<lparr>spm_ambient_interval := interval\<rparr>)))"

definition pgm_transport_set_peer_expiry ::
  "pgm_transport_t option \<Rightarrow> guint \<Rightarrow> int \<times> pgm_transport_t option" where
  "pgm_transport_set_peer_expiry tp expiry =
     (case tp of
        None \<Rightarrow> (- EINVAL, None)
      | Some t \<Rightarrow>
          if is_bound t then (- EINVAL, Some t)
          else if \<not> 0 < unat expiry then (- EINVAL, Some t)
          else if \<not> unat (2 * spm_ambient_interval t) \<le> unat expiry then (- EINVAL, Some t)
          else (0, Some (t\<lparr>peer_expiry := expiry\<rparr>)))"

definition pgm_transport_set_spmr_expiry ::
  "pgm_transport_t option \<Rightarrow> guint \<Rightarrow> int \<times> pgm_transport_t option" where
  "pgm_transport_set_spmr_expiry tp expiry =
     (case tp of
        None \<Rightarrow> (- EINVAL, None)
      | Some t \<Rightarrow>
          if is_bound t then (- EINVAL, Some t)
          else if \<not> 0 < unat expiry then (- EINVAL, Some t)
          else if \<not> unat expiry < unat (spm_ambient_interval t) then (- EINVAL, Some t)
          else (0, Some (t\<lparr>spmr_expiry := expiry\<rparr>)))"

definition pgm_transport_set_nak_bo_ivl ::
  "pgm_transport_t option \<Rightarrow> guint \<Rightarrow> int \<times> pgm_transport_t option" where
  "pgm_transport_set_nak_bo_ivl tp usec =
     (case tp of
        None \<Rightarrow> (- EINVAL, None)
      | Some t \<Rightarrow>
          if is_bound t then (- EINVAL, Some t)
          else (0, Some (t\<lparr>nak_bo_ivl := usec\<rparr>)))"

definition pgm_transport_set_nak_rpt_ivl ::
  "pgm_transport_t option \<Rightarrow> guint \<Rightarrow> int \<times> pgm_transport_t option" where
  "pgm_transport_set_nak_rpt_ivl tp usec =
     (case tp of
        None \<Rightarrow> (- EINVAL, None)
      | Some t \<Rightarrow>
          if is_bound t then (- EINVAL, Some t)
          else (0, Some (t\<lparr>nak_rpt_ivl := usec\<rparr>)))"

definition pgm_transport_set_nak_rdata_ivl ::
  "pgm_transport_t option \<Rightarrow> guint \<Rightarrow> int \<times> pgm_transport_t option" where
  "pgm_transport_set_nak_rdata_ivl tp usec =
     (case tp of
        None \<Rightarrow> (- EINVAL, None)
      | Some t \<Rightarrow>
          if is_bound t then (- EINVAL, Some t)
          else (0, Some (t\<lparr>nak_rdata_ivl := usec\<rparr>)))"

definition pgm_transport_set_nak_data_retries ::
  "pgm_transport_t option \<Rightarrow> guint \<Rightarrow> int \<times> pgm_transport_t option" where
  "pgm_transport_set_nak_data_retries tp cnt =
     (case tp of
        None \<Rightarrow> (- EINVAL, None)
      | Some t \<Rightarrow>
          if is_bound t then (- EINVAL, Some t)
          else (0, Some (t\<lparr>nak_data_retries := cnt\<rparr>)))"

definition pgm_transport_set_nak_ncf_retries ::
  "pgm_transport_t option \<Rightarrow> guint \<Rightarrow> int \<times> pgm_transport_t option" where
  "pgm_transport_set_nak_ncf_retries tp cnt =
     (case tp of
        None \<Rightarrow> (- EINVAL, None)
      | Some t \<Rightarrow>
          if is_bound t then (- EINVAL, Some t)
          else (0, Some (t\<lparr>nak_ncf_retries := cnt\<rparr>)))"

text \<open>
  \<^verbatim>\<open>pgm_transport_set_fec\<close>. The test \<^verbatim>\<open>default_k > 223 && (default_h * 223.0) / default_k < 1.0\<close>
  stands after \<^verbatim>\<open>default_k <= 128\<close> has been required; its quotient of two small
  integers is below 1 exactly when \<open>h * 223 < k\<close>.
\<close>

definition pgm_transport_set_fec ::
  "pgm_transport_t option \<Rightarrow> bool \<Rightarrow> bool \<Rightarrow> bool \<Rightarrow> guint \<Rightarrow> guint
     \<Rightarrow> int \<times> pgm_transport_t option" where
  "pgm_transport_set_fec tp proactive ondemand varpkt default_n default_k =
     (case tp of
        None \<Rightarrow> (- EINVAL, None)
      | Some t \<Rightarrow>
          if default_k AND (default_k - 1) \<noteq> 0 then (- EINVAL, Some t)
          else if \<not> (2 \<le> unat default_k \<and> unat default_k \<le> 128) then (- EINVAL, Some t)
          else if \<not> (unat (default_k + 1) \<le> unat default_n \<and> unat default_n \<le> 255)
            then (- EINVAL, Some t)
          else if 223 < unat default_k \<and> unat (default_n - default_k) * 223 < unat default_k
            then (- EINVAL, Some t)
          else (0, Some (t\<lparr>use_proactive_parity := proactive,
                             use_ondemand_parity := ondemand,
                             use_varpkt_len := varpkt,
                             rs_n := default_n,
                             rs_k := default_k,
                             tg_sqn_shift := pgm_power2_log2 default_k\<rparr>)))"

definition pgm_transport_set_send_only ::
  "pgm_transport_t option \<Rightarrow> int \<times> pgm_transport_t option" where
  "pgm_transport_set_send_only tp =
     (case tp of
        None \<Rightarrow> (- EINVAL, None)
      | Some t \<Rightarrow> (0, Some (t\<lparr>can_recv := False\<rparr>)))"

definition pgm_transport_set_recv_only ::
  "pgm_transport_t option \<Rightarrow> bool \<Rightarrow> int \<times> pgm_transport_t option" where
  "pgm_transport_set_recv_only tp passive =
     (case tp of
        None \<Rightarrow> (- EINVAL, None)
      | Some t \<Rightarrow> (0, Some (t\<lparr>can_send := False, is_passive := passive\<rparr>)))"

subsection \<open>nak_rb_ivl\<close>

text \<open>
  \<^verbatim>\<open>g_rand_int_range (rand, begin, end)\<close> is GLib's: it returns a number of the range
  \<open>[begin, end - 1]\<close>, and \<open>begin\<close> when its check \<^verbatim>\<open>end > begin\<close> fails. \<open>raw\<close> is the
  number the generator gives for this call. The arguments are \<^verbatim>\<open>gint32\<close>.
\<close>

definition g_rand_int_range :: "nat \<Rightarrow> int \<Rightarrow> int \<Rightarrow> int" where
  "g_rand_int_range raw begin end' =
     (if end' > begin then begin + int raw mod (end' - begin) else begin)"

text \<open>
  \<^verbatim>\<open>nak_rb_ivl\<close> passes the \<^verbatim>\<open>guint\<close> \<open>nak_bo_ivl\<close> as the \<^verbatim>\<open>gint32\<close> end of the range
  and returns the \<^verbatim>\<open>gint32\<close> result as a \<^verbatim>\<open>guint32\<close>. The generator advances.
\<close>

definition nak_rb_ivl :: "pgm_transport_t \<Rightarrow> guint32 \<times> pgm_transport_t" where
  "nak_rb_ivl t =
     (word_of_int (g_rand_int_range (shd (grand t)) 1 (sint (nak_bo_ivl t))),
      t\<lparr>grand := stl (grand t)\<rparr>)"

text \<open>
  The expression \<^verbatim>\<open>now + nak_rb_ivl(transport)\<close> by which \<^verbatim>\<open>on_odata\<close>,
  \<^verbatim>\<open>on_rdata\<close>, \<^verbatim>\<open>on_spm\<close>, \<^verbatim>\<open>nak_rpt_state\<close> and \<^verbatim>\<open>nak_rdata_state\<close> compute the
  \<open>nak_rb_expiry\<close> of an entry that enters the back-off state at \<open>now\<close>.
\<close>

definition nak_rb_expiry_at :: "pgm_time_t \<Rightarrow> pgm_transport_t \<Rightarrow> pgm_time_t \<times> pgm_transport_t" where
  "nak_rb_expiry_at now t = (now + unat (fst (nak_rb_ivl t)), snd (nak_rb_ivl t))"

section \<open>Receive window and peer\<close>

datatype pgm_pkt_state_e =
  PGM_PKT_BACK_OFF_STATE
  | PGM_PKT_WAIT_NCF_STATE
  | PGM_PKT_WAIT_DATA_STATE
  | PGM_PKT_HAVE_DATA_STATE
  | PGM_PKT_LOST_DATA_STATE
  | PGM_PKT_COMMIT_DATA_STATE

text \<open>
  An entry of the receive window, with the fields the NAK engine reads and writes. The
  three counters are 8-bit (the setters' comment: statistics are limited to
  \<^verbatim>\<open>guint8\<close>, 255 retries).
\<close>

record pgm_rxw_packet_t =
  sequence_number :: guint32
  t0 :: pgm_time_t
  nak_rb_expiry :: pgm_time_t
  nak_rpt_expiry :: pgm_time_t
  nak_rdata_expiry :: pgm_time_t
  state :: pgm_pkt_state_e
  nak_transmit_count :: guint8
  ncf_retry_count :: guint8
  data_retry_count :: guint8

text \<open>
  The receive window. Each of the three queues is a \<^verbatim>\<open>GQueue\<close>, written here from
  its tail: the first element of the list is \<^verbatim>\<open>queue->tail\<close> (the oldest entry),
  \<^verbatim>\<open>list->prev\<close> is the rest of the list, and \<^verbatim>\<open>g_queue_push_head_link\<close> appends at
  the end. \<open>off_queue\<close> holds the entries of the window that are linked on none of the
  three queues. \<open>waiting_link_data\<close> says whether \<^verbatim>\<open>waiting_link.data\<close> is set, which is
  the case while the window is linked on the transport's \<open>peers_waiting\<close>.
\<close>

record pgm_rxw_t =
  backoff_queue :: "pgm_rxw_packet_t list"
  wait_ncf_queue :: "pgm_rxw_packet_t list"
  wait_data_queue :: "pgm_rxw_packet_t list"
  off_queue :: "pgm_rxw_packet_t list"
  lead :: guint32
  lost_count :: guint32
  waiting_link_data :: bool

definition g_queue_push_head_link :: "'a list \<Rightarrow> 'a \<Rightarrow> 'a list" where
  "g_queue_push_head_link q x = q @ [x]"

text \<open>
  Modelled from the spec: \<^verbatim>\<open>pgm_rxw_pkt_state_unlink\<close> is part of \<^verbatim>\<open>pgm/rxw.c\<close>, which
  is not among the sources. By the spec an entry is a member of at most one of the three
  queues, the one its state names, and \<open>pkt_state_unlink(pkt)\<close> takes it off that queue.
\<close>

definition pgm_rxw_pkt_state_unlink :: "pgm_rxw_t \<Rightarrow> pgm_rxw_packet_t \<Rightarrow> pgm_rxw_t" where
  "pgm_rxw_pkt_state_unlink r rp =
     (case state rp of
        PGM_PKT_BACK_OFF_STATE \<Rightarrow> r\<lparr>backoff_queue := remove1 rp (backoff_queue r)\<rparr>
      | PGM_PKT_WAIT_NCF_STATE \<Rightarrow> r\<lparr>wait_ncf_queue := remove1 rp (wait_ncf_queue r)\<rparr>
      | PGM_PKT_WAIT_DATA_STATE \<Rightarrow> r\<lparr>wait_data_queue := remove1 rp (wait_data_queue r)\<rparr>
      | PGM_PKT_HAVE_DATA_STATE \<Rightarrow> r\<lparr>off_queue := remove1 rp (off_queue r)\<rparr>
      | PGM_PKT_LOST_DATA_STATE \<Rightarrow> r\<lparr>off_queue := remove1 rp (off_queue r)\<rparr>
      | PGM_PKT_COMMIT_DATA_STATE \<Rightarrow> r\<lparr>off_queue := remove1 rp (off_queue r)\<rparr>)"

text \<open>
  Modelled from the spec: \<^verbatim>\<open>pgm_rxw_mark_lost\<close> is part of \<^verbatim>\<open>pgm/rxw.c\<close>, which is not
  among the sources. By the spec \<open>mark_lost(sqn)\<close> puts the entry of that sequence number
  in the state LOST, out of the three queues. The callers pass
  \<^verbatim>\<open>rp->sequence_number\<close>, which names the entry \<open>rp\<close> itself; the model takes \<open>rp\<close>.
\<close>

definition pgm_rxw_mark_lost :: "pgm_rxw_t \<Rightarrow> pgm_rxw_packet_t \<Rightarrow> pgm_rxw_t" where
  "pgm_rxw_mark_lost r rp =
     (let r1 = pgm_rxw_pkt_state_unlink r rp
      in r1\<lparr>off_queue := off_queue r1 @ [rp\<lparr>state := PGM_PKT_LOST_DATA_STATE\<rparr>],
             lost_count := lost_count r1 + 1\<rparr>)"

text \<open>
  The fields of \<^verbatim>\<open>pgm_peer_t\<close> that the modelled functions read or write. Fields whose
  name a field of the transport has carry the prefix \<open>peer_\<close>; \<open>peer_sport\<close> is
  \<^verbatim>\<open>tsi.sport\<close> and \<open>tsi\<close> stands for the whole TSI.
\<close>

record pgm_peer_t =
  tsi :: nat
  peer_sport :: "16 word"
  nla :: sockaddr
  group_nla :: sockaddr
  local_nla :: sockaddr
  peer_spm_sqn :: guint32
  expiry :: pgm_time_t
  peer_spmr_expiry :: pgm_time_t
  peer_use_proactive_parity :: bool
  peer_use_ondemand_parity :: bool
  peer_rs_k :: guint
  peer_tg_sqn_shift :: guint
  max_fail_time :: guint32
  min_fail_time :: guint32
  peer_cumulative_stats :: "pgm_pc \<Rightarrow> guint32"
  rxw :: pgm_rxw_t

section \<open>Sending\<close>

text \<open>
  \<^verbatim>\<open>pgm_sendto\<close> takes the router-alert descriptor when \<open>use_router_alert\<close> is set and
  the plain one otherwise. Whether the rate limiter lets the datagram pass, whether the
  first \<^verbatim>\<open>sendto\<close> is retried after \<^verbatim>\<open>poll\<close>, and the count returned are the answer
  of \<open>os\<close>: the result is what \<^verbatim>\<open>pgm_sendto\<close> returns.
\<close>

definition pgm_sendto ::
  "os_t \<Rightarrow> pgm_transport_t \<Rightarrow> bool \<Rightarrow> bool \<Rightarrow> pgm_packet \<Rightarrow> sockaddr \<Rightarrow> io_ret \<times> pgm_transport_t" where
  "pgm_sendto os t use_rate_limit use_router_alert buf to =
     (let sock = (if use_router_alert then SEND_WITH_ROUTER_ALERT_SOCK else SEND_SOCK);
          w = wire t @ [Sendto sock use_rate_limit buf to]
      in (os w, t\<lparr>wire := w\<rparr>))"

text \<open>\<^verbatim>\<open>write (pipe[1], &one, 1)\<close>: the result is what \<^verbatim>\<open>write\<close> returns.\<close>

definition write_pipe :: "os_t \<Rightarrow> pgm_transport_t \<Rightarrow> pgm_pipe \<Rightarrow> io_ret \<times> pgm_transport_t" where
  "write_pipe os t p =
     (let w = wire t @ [Write_pipe p] in (os w, t\<lparr>wire := w\<rparr>))"

definition pgm_time_update_now :: "pgm_transport_t \<Rightarrow> pgm_time_t \<times> pgm_transport_t" where
  "pgm_time_update_now t =
     (shd (clock t), t\<lparr>pgm_time_now := shd (clock t), clock := stl (clock t)\<rparr>)"

definition send_spm_unlocked :: "os_t \<Rightarrow> pgm_transport_t \<Rightarrow> int \<times> pgm_transport_t" where
  "send_spm_unlocked os t =
     (let header = (spm_packet t)\<lparr>pgm_body := Spm_body (spm_sqn t)\<rparr>;
          t1 = t\<lparr>spm_sqn := spm_sqn t + 1, spm_packet := header\<rparr>;
          (sent, t2) = pgm_sendto os t1 True True header (send_smr_multiaddr t1)
      in if sent \<noteq> All_written then (- 1, t2) else (0, t2))"

definition send_spm :: "os_t \<Rightarrow> pgm_transport_t \<Rightarrow> int \<times> pgm_transport_t" where
  "send_spm os t = send_spm_unlocked os t"

text \<open>
  \<^verbatim>\<open>send_spmr\<close> sends the request twice on the plain descriptor, to the group and to the
  peer's \<open>local_nla\<close> (the two calls that set the hop limit of the socket are not
  modelled), and clears the peer's \<open>spmr_expiry\<close>.
\<close>

definition send_spmr ::
  "os_t \<Rightarrow> pgm_transport_t \<times> pgm_peer_t \<Rightarrow> int \<times> pgm_transport_t \<times> pgm_peer_t" where
  "send_spmr os tp =
     (let t = fst tp; peer = snd tp;
          header = \<lparr>pgm_sport = dport t, pgm_dport = peer_sport peer, pgm_type = PGM_SPMR,
                    pgm_options = 0, pgm_body = No_body\<rparr>;
          (sent1, t1) = pgm_sendto os t False False header (send_smr_multiaddr t);
          (sent2, t2) = pgm_sendto os t1 False False header (local_nla peer);
          peer1 = peer\<lparr>peer_spmr_expiry := 0\<rparr>
      in if \<not> (sent1 = All_written \<and> sent2 = All_written) then (- 1, t2, peer1) else (0, t2, peer1))"

definition send_nak ::
  "os_t \<Rightarrow> pgm_transport_t \<times> pgm_peer_t \<Rightarrow> guint32 \<Rightarrow> int \<times> pgm_transport_t \<times> pgm_peer_t" where
  "send_nak os tp sqn =
     (let t = fst tp; peer = snd tp;
          header = \<lparr>pgm_sport = dport t, pgm_dport = peer_sport peer, pgm_type = PGM_NAK,
                    pgm_options = 0,
                    pgm_body = Nak_body sqn (nla peer) (group_nla peer) []\<rparr>;
          (sent, t1) = pgm_sendto os t False True header (nla peer)
      in if sent \<noteq> All_written then (- 1, t1, peer)
         else (0, t1,
               peer\<lparr>peer_cumulative_stats :=
                 stat_inc (stat_inc (peer_cumulative_stats peer)
                   PGM_PC_RECEIVER_SELECTIVE_NAK_PACKETS_SENT)
                   PGM_PC_RECEIVER_SELECTIVE_NAKS_SENT\<rparr>))"

definition send_ncf ::
  "os_t \<Rightarrow> pgm_transport_t \<Rightarrow> sockaddr \<Rightarrow> sockaddr \<Rightarrow> guint32 \<Rightarrow> bool \<Rightarrow> int \<times> pgm_transport_t" where
  "send_ncf os t nak_src_nla nak_grp_nla sqn is_parity =
     (let header = \<lparr>pgm_sport = tsi_sport t, pgm_dport = dport t, pgm_type = PGM_NCF,
                    pgm_options = (if is_parity then PGM_OPT_PARITY else 0),
                    pgm_body = Nak_body sqn nak_src_nla nak_grp_nla []\<rparr>;
          (sent, t1) = pgm_sendto os t False True header (send_smr_multiaddr t)
      in if sent \<noteq> All_written then (- 1, t1) else (0, t1))"

definition send_parity_nak ::
  "os_t \<Rightarrow> pgm_transport_t \<times> pgm_peer_t \<Rightarrow> guint32 \<Rightarrow> guint32
     \<Rightarrow> int \<times> pgm_transport_t \<times> pgm_peer_t" where
  "send_parity_nak os tp nak_tg_sqn nak_pkt_cnt =
     (let t = fst tp; peer = snd tp;
          header = \<lparr>pgm_sport = dport t, pgm_dport = peer_sport peer, pgm_type = PGM_NAK,
                    pgm_options = PGM_OPT_PARITY,
                    pgm_body = Nak_body (nak_tg_sqn OR (nak_pkt_cnt - 1))
                                 (nla peer) (group_nla peer) []\<rparr>;
          (sent, t1) = pgm_sendto os t False True header (nla peer)
      in if sent \<noteq> All_written then (- 1, t1, peer)
         else (0, t1,
               peer\<lparr>peer_cumulative_stats :=
                 stat_inc (stat_inc (peer_cumulative_stats peer)
                   PGM_PC_RECEIVER_PARITY_NAK_PACKETS_SENT)
                   PGM_PC_RECEIVER_PARITY_NAKS_SENT\<rparr>))"

text \<open>
  A \<^verbatim>\<open>pgm_sqn_list_t\<close> is the list of its \<open>len\<close> entries. The two \<^verbatim>\<open>g_assert\<close> of
  \<^verbatim>\<open>send_nak_list\<close> and \<^verbatim>\<open>send_ncf_list\<close> abort the program when they fail: the
  result is \<open>None\<close> then.
\<close>

definition send_nak_list ::
  "os_t \<Rightarrow> pgm_transport_t \<times> pgm_peer_t \<Rightarrow> guint32 list
     \<Rightarrow> (int \<times> pgm_transport_t \<times> pgm_peer_t) option" where
  "send_nak_list os tp sqn_list =
     (if \<not> 1 < length sqn_list then None
      else if \<not> length sqn_list \<le> 63 then None
      else
        let t = fst tp; peer = snd tp;
            header = \<lparr>pgm_sport = dport t, pgm_dport = peer_sport peer, pgm_type = PGM_NAK,
                      pgm_options = PGM_OPT_PRESENT OR PGM_OPT_NETWORK,
                      pgm_body = Nak_body (hd sqn_list) (nla peer) (group_nla peer)
                                   (tl sqn_list)\<rparr>;
            (sent, t1) = pgm_sendto os t False False header (nla peer)
        in if sent \<noteq> All_written then Some (- 1, t1, peer)
           else Some (0, t1,
                 peer\<lparr>peer_cumulative_stats :=
                   stat_add (stat_inc (peer_cumulative_stats peer)
                     PGM_PC_RECEIVER_SELECTIVE_NAK_PACKETS_SENT)
                     PGM_PC_RECEIVER_SELECTIVE_NAKS_SENT (1 + of_nat (length sqn_list))\<rparr>))"

definition send_ncf_list ::
  "os_t \<Rightarrow> pgm_transport_t \<Rightarrow> sockaddr \<Rightarrow> sockaddr \<Rightarrow> guint32 list \<Rightarrow> bool
     \<Rightarrow> (int \<times> pgm_transport_t) option" where
  "send_ncf_list os t nak_src_nla nak_grp_nla sqn_list is_parity =
     (if \<not> 1 < length sqn_list then None
      else if \<not> length sqn_list \<le> 63 then None
      else
        let header = \<lparr>pgm_sport = tsi_sport t, pgm_dport = dport t, pgm_type = PGM_NCF,
                      pgm_options =
                        (if is_parity then PGM_OPT_PRESENT OR PGM_OPT_NETWORK OR PGM_OPT_PARITY
                         else PGM_OPT_PRESENT OR PGM_OPT_NETWORK),
                      pgm_body = Nak_body (hd sqn_list) nak_src_nla nak_grp_nla
                                   (tl sqn_list)\<rparr>;
            (sent, t1) = pgm_sendto os t False True header (send_smr_multiaddr t)
        in if sent \<noteq> All_written then Some (- 1, t1) else Some (0, t1))"

subsection \<open>Heartbeat SPMs, RDATA and ODATA\<close>

text \<open>
  A read of \<^verbatim>\<open>spm_heartbeat_interval[i]\<close>. Outside the allocated array the read is
  undefined in C: the result is \<open>None\<close>, and so is the result of the function that reads.
\<close>

definition heartbeat_interval_at :: "pgm_transport_t \<Rightarrow> guint \<Rightarrow> guint option" where
  "heartbeat_interval_at t i =
     (if unat i < length (spm_heartbeat_interval t)
      then Some (spm_heartbeat_interval t ! unat i) else None)"

text \<open>
  The two statements
  \<^verbatim>\<open>spm_heartbeat_state = 1; next_heartbeat_spm = pgm_time_update_now() + spm_heartbeat_interval[spm_heartbeat_state++]\<close>
  of \<^verbatim>\<open>pgm_reset_heartbeat_spm\<close> and \<^verbatim>\<open>send_rdata\<close>.
\<close>

definition rearm_heartbeat :: "pgm_transport_t \<Rightarrow> pgm_transport_t option" where
  "rearm_heartbeat t =
     (let t1 = t\<lparr>spm_heartbeat_state := 1\<rparr>;
          (now, t2) = pgm_time_update_now t1
      in case heartbeat_interval_at t2 (spm_heartbeat_state t2) of
           None \<Rightarrow> None
         | Some ivl \<Rightarrow>
             Some (t2\<lparr>spm_heartbeat_state := spm_heartbeat_state t2 + 1,
                     next_heartbeat_spm := now + unat ivl\<rparr>))"

definition pgm_reset_heartbeat_spm :: "os_t \<Rightarrow> pgm_transport_t \<Rightarrow> (int \<times> pgm_transport_t) option" where
  "pgm_reset_heartbeat_spm os t =
     (case rearm_heartbeat t of
        None \<Rightarrow> None
      | Some t1 \<Rightarrow>
          if pgm_time_after (next_poll t1) (next_heartbeat_spm t1) then
            let t2 = t1\<lparr>next_poll := next_heartbeat_spm t1\<rparr>;
                (ok, t3) = write_pipe os t2 TIMER_PIPE
            in if ok \<noteq> All_written then Some (- EINVAL, t3) else Some (0, t3)
          else Some (0, t1))"

text \<open>
  \<^verbatim>\<open>send_rdata\<close> takes the packet popped from the retransmit queue, makes it an RDATA
  and sends it; then it re-arms the heartbeat.
\<close>

definition send_rdata :: "os_t \<Rightarrow> pgm_transport_t \<Rightarrow> pgm_packet \<Rightarrow> (int \<times> pgm_transport_t) option" where
  "send_rdata os t data =
     (let header = data\<lparr>pgm_type := PGM_RDATA, pgm_sport := tsi_sport t, pgm_dport := dport t\<rparr>;
          (sent, t1) = pgm_sendto os t True True header (send_smr_multiaddr t)
      in case rearm_heartbeat t1 of
           None \<Rightarrow> None
         | Some t2 \<Rightarrow>
             if sent \<noteq> All_written then Some (- 1, t2)
             else Some (0, t2\<lparr>cumulative_stats :=
                     stat_inc (cumulative_stats t2) PGM_PC_SOURCE_SELECTIVE_MSGS_RETRANSMITTED\<rparr>))"

text \<open>
  \<^verbatim>\<open>pgm_transport_send_one_unlocked\<close> sends one ODATA packet of \<open>count\<close> payload bytes.
  \<open>tp\<close> is the transport pointer; the buffer is taken to be there. \<open>next_lead\<close> is the
  sequence number that \<^verbatim>\<open>pgm_txw_next_lead\<close> gives. The counters are updated under
  \<^verbatim>\<open>sent == (gssize)count\<close>, which compares the bytes sent with the payload length, not
  with \<^verbatim>\<open>tpdu_length\<close>, the payload length plus the lengths of the two headers: it holds
  when \<^verbatim>\<open>pgm_sendto\<close> returns \<open>count\<close>, which is not the length it was asked to send.
\<close>

definition pgm_transport_send_one_unlocked ::
  "os_t \<Rightarrow> pgm_transport_t option \<Rightarrow> guint32 \<Rightarrow> nat \<Rightarrow> (int \<times> pgm_transport_t option) option" where
  "pgm_transport_send_one_unlocked os tp next_lead count =
     (case tp of
        None \<Rightarrow> Some (- EINVAL, None)
      | Some t \<Rightarrow>
          if \<not> count \<le> max_tsdu t then Some (- EINVAL, Some t)
          else
            let header = \<lparr>pgm_sport = tsi_sport t, pgm_dport = dport t, pgm_type = PGM_ODATA,
                          pgm_options = 0, pgm_body = Data_body next_lead\<rparr>;
                (sent, t1) = pgm_sendto os t True False header (send_smr_multiaddr t)
            in case pgm_reset_heartbeat_spm os t1 of
                 None \<Rightarrow> None
               | Some (r, t2) \<Rightarrow>
                   if sent = Returned (int count)
                   then Some (int count,
                          Some (t2\<lparr>cumulative_stats :=
                            stat_inc (stat_add (cumulative_stats t2)
                              PGM_PC_SOURCE_DATA_BYTES_SENT (of_nat count))
                              PGM_PC_SOURCE_DATA_MSGS_SENT\<rparr>))
                   else Some (int count, Some t2))"

section \<open>Receiver NAK state machine\<close>

text \<open>
  The state of the receiver functions is the transport with one of its peers. A peer
  points to its transport and the transport lists its peers; the model passes both.
\<close>

type_synonym tp_t = "pgm_transport_t \<times> pgm_peer_t"

text \<open>
  A write through the pointer \<open>rp\<close> to fields of the entry, while the entry stays linked:
  on the queue its state names, the entry \<open>rp\<close> becomes \<open>rp'\<close>.
\<close>

fun replace1 :: "'a \<Rightarrow> 'a \<Rightarrow> 'a list \<Rightarrow> 'a list" where
  "replace1 x y [] = []"
| "replace1 x y (z # zs) = (if z = x then y # zs else z # replace1 x y zs)"

definition rxw_store :: "pgm_rxw_t \<Rightarrow> pgm_rxw_packet_t \<Rightarrow> pgm_rxw_packet_t \<Rightarrow> pgm_rxw_t" where
  "rxw_store r rp rp' =
     (case state rp of
        PGM_PKT_BACK_OFF_STATE \<Rightarrow> r\<lparr>backoff_queue := replace1 rp rp' (backoff_queue r)\<rparr>
      | PGM_PKT_WAIT_NCF_STATE \<Rightarrow> r\<lparr>wait_ncf_queue := replace1 rp rp' (wait_ncf_queue r)\<rparr>
      | PGM_PKT_WAIT_DATA_STATE \<Rightarrow> r\<lparr>wait_data_queue := replace1 rp rp' (wait_data_queue r)\<rparr>
      | PGM_PKT_HAVE_DATA_STATE \<Rightarrow> r\<lparr>off_queue := replace1 rp rp' (off_queue r)\<rparr>
      | PGM_PKT_LOST_DATA_STATE \<Rightarrow> r\<lparr>off_queue := replace1 rp rp' (off_queue r)\<rparr>
      | PGM_PKT_COMMIT_DATA_STATE \<Rightarrow> r\<lparr>off_queue := replace1 rp rp' (off_queue r)\<rparr>)"

text \<open>
  The block "mark receiver window for flushing on next recv()", which the three state
  functions repeat: when \<^verbatim>\<open>rxw->waiting_link.data\<close> is not set, it is set and the link is
  put at the head of \<^verbatim>\<open>transport->peers_waiting\<close>.
\<close>

definition mark_for_flush :: "tp_t \<Rightarrow> tp_t" where
  "mark_for_flush s =
     (let t = fst s; peer = snd s
      in if \<not> waiting_link_data (rxw peer)
         then (t\<lparr>peers_waiting := tsi peer # peers_waiting t\<rparr>,
               peer\<lparr>rxw := (rxw peer)\<lparr>waiting_link_data := True\<rparr>\<rparr>)
         else (t, peer))"

text \<open>"have not learned this peers NLA": the test of the three state functions.\<close>

definition is_valid_nla :: "pgm_peer_t \<Rightarrow> bool" where
  "is_valid_nla peer = (s_addr (nla peer) \<noteq> INADDR_ANY)"

text \<open>The branch \<^verbatim>\<open>if (!is_valid_nla)\<close> of the three loops.\<close>

definition lost_no_nla :: "pgm_rxw_packet_t \<Rightarrow> tp_t \<Rightarrow> tp_t" where
  "lost_no_nla rp s =
     mark_for_flush (fst s, (snd s)\<lparr>rxw := pgm_rxw_mark_lost (rxw (snd s)) rp\<rparr>)"

text \<open>\<^verbatim>\<open>guint32 fail_time = pgm_time_now - rp->t0\<close>: the difference, cut to 32 bits.\<close>

definition fail_time_of :: "pgm_time_t \<Rightarrow> pgm_time_t \<Rightarrow> guint32" where
  "fail_time_of now t0' = word_of_int (int now - int t0')"

subsection \<open>nak_rpt_state\<close>

text \<open>
  The body of the loop of \<^verbatim>\<open>nak_rpt_state\<close> for an entry whose \<open>nak_rpt_expiry\<close> has
  passed, the peer's NLA being known. \<^verbatim>\<open>++rp->ncf_retry_count\<close> is an 8-bit increment,
  compared as unsigned with \<open>nak_ncf_retries\<close>. In the retry branch the entry is written
  after it is unlinked; the model links the entry as it is after these writes.
\<close>

definition nak_rpt_step :: "pgm_rxw_packet_t \<Rightarrow> tp_t \<Rightarrow> tp_t" where
  "nak_rpt_step rp s =
     (let t = fst s; peer = snd s;
          rp1 = rp\<lparr>ncf_retry_count := ncf_retry_count rp + 1\<rparr>;
          peer1 = peer\<lparr>rxw := rxw_store (rxw peer) rp rp1\<rparr>
      in if unat (nak_ncf_retries t) < unat (ncf_retry_count rp1) then
           let fail_time = fail_time_of (pgm_time_now t) (t0 rp1);
               peer2 =
                 (if max_fail_time peer1 = 0
                  then peer1\<lparr>max_fail_time := fail_time, min_fail_time := fail_time\<rparr>
                  else if max_fail_time peer1 < fail_time
                  then peer1\<lparr>max_fail_time := fail_time\<rparr>
                  else if fail_time < min_fail_time peer1
                  then peer1\<lparr>min_fail_time := fail_time\<rparr>
                  else peer1);
               peer3 = peer2\<lparr>rxw := pgm_rxw_mark_lost (rxw peer2) rp1\<rparr>;
               s4 = mark_for_flush (t, peer3)
           in (fst s4,
               (snd s4)\<lparr>peer_cumulative_stats :=
                 stat_inc (peer_cumulative_stats (snd s4))
                   PGM_PC_RECEIVER_NAKS_FAILED_NCF_RETRIES_EXCEEDED\<rparr>)
         else
           let r1 = pgm_rxw_pkt_state_unlink (rxw peer1) rp1;
               et = nak_rb_expiry_at (pgm_time_now t) t;
               rp2 = rp1\<lparr>state := PGM_PKT_BACK_OFF_STATE, nak_rb_expiry := fst et\<rparr>
           in (snd et,
               peer1\<lparr>rxw := r1\<lparr>backoff_queue :=
                 g_queue_push_head_link (backoff_queue r1) rp2\<rparr>\<rparr>))"

text \<open>
  The loop follows \<^verbatim>\<open>list->prev\<close> from the tail of the queue. It writes only to the entry
  it is visiting and takes only that entry off the queue, so the entries still to come
  are as they were when the function was entered: the loop runs over the queue as it was
  then. It stops at the first entry that has not expired.
\<close>

fun nak_rpt_loop :: "bool \<Rightarrow> pgm_rxw_packet_t list \<Rightarrow> tp_t \<Rightarrow> tp_t" where
  "nak_rpt_loop v [] s = s"
| "nak_rpt_loop v (rp # prev) s =
     (if pgm_time_after_eq (pgm_time_now (fst s)) (nak_rpt_expiry rp)
      then (if \<not> v then nak_rpt_loop v prev (lost_no_nla rp s)
            else nak_rpt_loop v prev (nak_rpt_step rp s))
      else s)"

definition nak_rpt_state :: "tp_t \<Rightarrow> tp_t" where
  "nak_rpt_state s = nak_rpt_loop (is_valid_nla (snd s)) (wait_ncf_queue (rxw (snd s))) s"

subsection \<open>nak_rdata_state\<close>

definition nak_rdata_step :: "pgm_rxw_packet_t \<Rightarrow> tp_t \<Rightarrow> tp_t" where
  "nak_rdata_step rp s =
     (let t = fst s; peer = snd s;
          rp1 = rp\<lparr>data_retry_count := data_retry_count rp + 1\<rparr>;
          peer1 = peer\<lparr>rxw := rxw_store (rxw peer) rp rp1\<rparr>
      in if unat (nak_data_retries t) < unat (data_retry_count rp1) then
           let fail_time = fail_time_of (pgm_time_now t) (t0 rp1);
               peer2 =
                 (if max_fail_time peer1 < fail_time
                  then peer1\<lparr>max_fail_time := fail_time\<rparr>
                  else if fail_time < min_fail_time peer1
                  then peer1\<lparr>min_fail_time := fail_time\<rparr>
                  else peer1);
               peer3 = peer2\<lparr>rxw := pgm_rxw_mark_lost (rxw peer2) rp1\<rparr>;
               s4 = mark_for_flush (t, peer3)
           in (fst s4,
               (snd s4)\<lparr>peer_cumulative_stats :=
                 stat_inc (peer_cumulative_stats (snd s4))
                   PGM_PC_RECEIVER_NAKS_FAILED_DATA_RETRIES_EXCEEDED\<rparr>)
         else
           let r1 = pgm_rxw_pkt_state_unlink (rxw peer1) rp1;
               et = nak_rb_expiry_at (pgm_time_now t) t;
               rp2 = rp1\<lparr>state := PGM_PKT_BACK_OFF_STATE, nak_rb_expiry := fst et\<rparr>
           in (snd et,
               peer1\<lparr>rxw := r1\<lparr>backoff_queue :=
                 g_queue_push_head_link (backoff_queue r1) rp2\<rparr>\<rparr>))"

fun nak_rdata_loop :: "bool \<Rightarrow> pgm_rxw_packet_t list \<Rightarrow> tp_t \<Rightarrow> tp_t" where
  "nak_rdata_loop v [] s = s"
| "nak_rdata_loop v (rp # prev) s =
     (if pgm_time_after_eq (pgm_time_now (fst s)) (nak_rdata_expiry rp)
      then (if \<not> v then nak_rdata_loop v prev (lost_no_nla rp s)
            else nak_rdata_loop v prev (nak_rdata_step rp s))
      else s)"

definition nak_rdata_state :: "tp_t \<Rightarrow> tp_t" where
  "nak_rdata_state s = nak_rdata_loop (is_valid_nla (snd s)) (wait_data_queue (rxw (snd s))) s"

subsection \<open>nak_rb_state\<close>

text \<open>
  An expired entry of the back-off queue moves to the wait-NCF queue: unlinked, its
  \<open>nak_transmit_count\<close> incremented, its \<open>nak_rpt_expiry\<close> set from the current
  \<open>pgm_time_now\<close> (the code is built without \<^verbatim>\<open>PGM_ABSOLUTE_EXPIRY\<close> and without
  \<^verbatim>\<open>PGM_SINGLE_NAK\<close>).
\<close>

definition to_wait_ncf :: "pgm_rxw_packet_t \<Rightarrow> tp_t \<Rightarrow> tp_t" where
  "to_wait_ncf rp s =
     (let t = fst s; peer = snd s;
          r1 = pgm_rxw_pkt_state_unlink (rxw peer) rp;
          rp1 = rp\<lparr>nak_transmit_count := nak_transmit_count rp + 1,
                   state := PGM_PKT_WAIT_NCF_STATE,
                   nak_rpt_expiry := pgm_time_now t + unat (nak_rpt_ivl t)\<rparr>
      in (t, peer\<lparr>rxw := r1\<lparr>wait_ncf_queue :=
                 g_queue_push_head_link (wait_ncf_queue r1) rp1\<rparr>\<rparr>))"

text \<open>
  The loop of the branch for on-demand parity. It carries \<open>nak_tg_sqn\<close> and
  \<open>nak_pkt_cnt\<close>; the condition
  \<^verbatim>\<open>(nak_pkt_cnt && tg_sqn == nak_tg_sqn) || (!nak_pkt_cnt && tg_sqn != current_tg_sqn)\<close>
  is written as a conditional.
\<close>

fun nak_rb_parity_loop ::
  "bool \<Rightarrow> guint32 \<Rightarrow> guint32 \<Rightarrow> pgm_rxw_packet_t list \<Rightarrow> guint32 \<Rightarrow> guint32 \<Rightarrow> tp_t
     \<Rightarrow> guint32 \<times> guint32 \<times> tp_t" where
  "nak_rb_parity_loop v tg_sqn_mask current_tg_sqn [] nak_tg_sqn nak_pkt_cnt s =
     (nak_tg_sqn, nak_pkt_cnt, s)"
| "nak_rb_parity_loop v tg_sqn_mask current_tg_sqn (rp # prev) nak_tg_sqn nak_pkt_cnt s =
     (if pgm_time_after_eq (pgm_time_now (fst s)) (nak_rb_expiry rp) then
        (if \<not> v
         then nak_rb_parity_loop v tg_sqn_mask current_tg_sqn prev nak_tg_sqn nak_pkt_cnt
                (lost_no_nla rp s)
         else
           let tg_sqn = sequence_number rp AND tg_sqn_mask
           in if (if nak_pkt_cnt \<noteq> 0 then tg_sqn = nak_tg_sqn else tg_sqn \<noteq> current_tg_sqn)
              then nak_rb_parity_loop v tg_sqn_mask current_tg_sqn prev
                     (if nak_pkt_cnt = 0 then tg_sqn else nak_tg_sqn) (nak_pkt_cnt + 1)
                     (to_wait_ncf rp s)
              else (nak_tg_sqn, nak_pkt_cnt, s))
      else (nak_tg_sqn, nak_pkt_cnt, s))"

text \<open>
  The loop of the branch for selective NAKs. It carries \<open>nak_list\<close>, whose array has 63
  places: a write past them is undefined (\<open>None\<close>). A full list is sent, unless the
  transport is passive, and the clock is read again.
\<close>

fun nak_rb_select_loop ::
  "os_t \<Rightarrow> bool \<Rightarrow> pgm_rxw_packet_t list \<Rightarrow> guint32 list \<Rightarrow> tp_t
     \<Rightarrow> (guint32 list \<times> tp_t) option" where
  "nak_rb_select_loop os v [] nak_list s = Some (nak_list, s)"
| "nak_rb_select_loop os v (rp # prev) nak_list s =
     (if pgm_time_after_eq (pgm_time_now (fst s)) (nak_rb_expiry rp) then
        (if \<not> v then nak_rb_select_loop os v prev nak_list (lost_no_nla rp s)
         else if \<not> length nak_list < 63 then None
         else
           let nak_list1 = nak_list @ [sequence_number rp];
               s1 = to_wait_ncf rp s
           in if length nak_list1 = 63 then
                (case (if \<not> is_passive (fst s1)
                       then map_option snd (send_nak_list os s1 nak_list1)
                       else Some s1) of
                   None \<Rightarrow> None
                 | Some s2 \<Rightarrow>
                     nak_rb_select_loop os v prev []
                       (snd (pgm_time_update_now (fst s2)), snd s2))
              else nak_rb_select_loop os v prev nak_list1 s1)
      else Some (nak_list, s))"

text \<open>
  \<^verbatim>\<open>nak_rb_state\<close>. \<^verbatim>\<open>0xffffffff << tg_sqn_shift\<close> is a 32-bit shift (undefined in C
  from 32 on; \<open>tg_sqn_shift\<close> is the logarithm of a group size of at most 128). The
  \<^verbatim>\<open>g_assert\<close>s at the end compare the length of the \<^verbatim>\<open>GQueue\<close> with its head and tail,
  which a list has by construction.
\<close>

definition nak_rb_state :: "os_t \<Rightarrow> tp_t \<Rightarrow> tp_t option" where
  "nak_rb_state os s =
     (let peer = snd s; list = backoff_queue (rxw peer)
      in if list = [] then Some s
         else if peer_use_ondemand_parity peer then
           let tg_sqn_mask = push_bit (unat (peer_tg_sqn_shift peer)) (0xffffffff :: guint32);
               current_tg_sqn = lead (rxw peer) AND tg_sqn_mask;
               res = nak_rb_parity_loop (is_valid_nla peer) tg_sqn_mask current_tg_sqn
                       list 0 0 s;
               nak_tg_sqn = fst res; nak_pkt_cnt = fst (snd res); s1 = snd (snd res)
           in if nak_pkt_cnt \<noteq> 0
              then Some (snd (send_parity_nak os s1 nak_tg_sqn nak_pkt_cnt))
              else Some s1
         else
           (case nak_rb_select_loop os (is_valid_nla peer) list [] s of
              None \<Rightarrow> None
            | Some (nak_list, s1) \<Rightarrow>
                if \<not> is_passive (fst s1) \<and> nak_list \<noteq> [] then
                  (if 1 < length nak_list
                   then map_option snd (send_nak_list os s1 nak_list)
                   else Some (snd (send_nak os s1 (hd nak_list))))
                else Some s1))"

subsection \<open>check_peer_nak_state\<close>

text \<open>
  The body of the loop of \<^verbatim>\<open>check_peer_nak_state\<close> for one peer. The second component
  of the result is \<open>None\<close> when the peer has expired and is taken off the list.
\<close>

definition check_peer ::
  "os_t \<Rightarrow> pgm_transport_t \<Rightarrow> pgm_peer_t \<Rightarrow> (pgm_transport_t \<times> pgm_peer_t option) option" where
  "check_peer os t peer =
     (let s1 =
            (if peer_spmr_expiry peer \<noteq> 0
                \<and> pgm_time_after_eq (pgm_time_now t) (peer_spmr_expiry peer)
             then (if is_passive t then (t, peer\<lparr>peer_spmr_expiry := 0\<rparr>)
                   else snd (send_spmr os (t, peer)))
             else (t, peer));
          r2 =
            (case backoff_queue (rxw (snd s1)) of
               [] \<Rightarrow> Some s1
             | rp # prev \<Rightarrow>
                 if pgm_time_after_eq (pgm_time_now (fst s1)) (nak_rb_expiry rp)
                 then nak_rb_state os s1 else Some s1)
      in case r2 of
           None \<Rightarrow> None
         | Some s2 \<Rightarrow>
             let s3 =
                   (case wait_ncf_queue (rxw (snd s2)) of
                      [] \<Rightarrow> s2
                    | rp # prev \<Rightarrow>
                        if pgm_time_after_eq (pgm_time_now (fst s2)) (nak_rpt_expiry rp)
                        then nak_rpt_state s2 else s2);
                 s4 =
                   (case wait_data_queue (rxw (snd s3)) of
                      [] \<Rightarrow> s3
                    | rp # prev \<Rightarrow>
                        if pgm_time_after_eq (pgm_time_now (fst s3)) (nak_rdata_expiry rp)
                        then nak_rdata_state s3 else s3)
             in if pgm_time_after_eq (pgm_time_now (fst s4)) (expiry (snd s4))
                then Some (fst s4, None)
                else Some (fst s4, Some (snd s4)))"

fun check_peers ::
  "os_t \<Rightarrow> pgm_transport_t \<Rightarrow> pgm_peer_t list \<Rightarrow> (pgm_transport_t \<times> pgm_peer_t list) option" where
  "check_peers os t [] = Some (t, [])"
| "check_peers os t (peer # next) =
     (case check_peer os t peer of
        None \<Rightarrow> None
      | Some (t1, kept) \<Rightarrow>
          (case check_peers os t1 next of
             None \<Rightarrow> None
           | Some (t2, peers') \<Rightarrow>
               Some (t2, (case kept of None \<Rightarrow> peers' | Some peer' \<Rightarrow> peer' # peers'))))"

definition waiting_head :: "nat list \<Rightarrow> nat option" where
  "waiting_head l = (case l of [] \<Rightarrow> None | x # xs \<Rightarrow> Some x)"

definition check_peer_nak_state ::
  "os_t \<Rightarrow> pgm_transport_t \<times> pgm_peer_t list \<Rightarrow> (pgm_transport_t \<times> pgm_peer_t list) option" where
  "check_peer_nak_state os tps =
     (if snd tps = [] then Some tps
      else
        case check_peers os (fst tps) (snd tps) of
          None \<Rightarrow> None
        | Some (t1, peers1) \<Rightarrow>
            if waiting_head (peers_waiting t1) \<noteq> peers_last_waiting t1 then
              let t2 = snd (write_pipe os t1 WAITING_PIPE)
              in Some (t2\<lparr>peers_last_waiting := waiting_head (peers_waiting t2)\<rparr>, peers1)
            else Some (t1, peers1))"

section \<open>Incoming SPMs and NAKs\<close>

subsection \<open>Options\<close>

text \<open>
  Modelled from the spec: the option encodings of \<^verbatim>\<open>pgm/packet.h\<close>, which is not among the
  sources. The spec has the wire formats of RFC 3208: options begin with an
  \<open>OPT_LENGTH\<close> (type 0, length 4), the last option has the bit \<open>OPT_END = 0x80\<close> in its
  type, \<open>OPT_PARITY_PRM\<close> carries the flags \<open>PRO = 0x01\<close> and \<open>OND = 0x02\<close>; the type
  numbers of \<open>OPT_NAK_LIST\<close> and \<open>OPT_PARITY_PRM\<close> are those of the RFC.
\<close>

definition PGM_OPT_LENGTH :: guint8 where
  "PGM_OPT_LENGTH = 0x00"

definition PGM_OPT_NAK_LIST :: guint8 where
  "PGM_OPT_NAK_LIST = 0x02"

definition PGM_OPT_PARITY_PRM :: guint8 where
  "PGM_OPT_PARITY_PRM = 0x08"

definition PGM_OPT_END :: guint8 where
  "PGM_OPT_END = 0x80"

definition PGM_OPT_MASK :: guint8 where
  "PGM_OPT_MASK = 0x7f"

definition PGM_PARITY_PRM_MASK :: guint8 where
  "PGM_PARITY_PRM_MASK = 0x03"

definition PGM_PARITY_PRM_PRO :: guint8 where
  "PGM_PARITY_PRM_PRO = 0x01"

definition PGM_PARITY_PRM_OND :: guint8 where
  "PGM_PARITY_PRM_OND = 0x02"

text \<open>
  An option as the two handlers read it: \<open>opt_type\<close> and \<open>opt_length\<close> of its
  \<^verbatim>\<open>struct pgm_opt_header\<close>, and of the body that follows the header the byte
  \<open>opt_reserved\<close>, the word \<open>parity_prm_tgs\<close> (in host order) of a
  \<^verbatim>\<open>struct pgm_opt_parity_prm\<close>, and the words \<open>opt_sqn\<close> (in host order) that follow in
  the received data, which a \<^verbatim>\<open>struct pgm_opt_nak_list\<close> reads as its array.
\<close>

record pgm_opt =
  opt_type :: guint8
  opt_length :: guint8
  opt_reserved :: guint8
  parity_prm_tgs :: guint32
  opt_sqn :: "guint32 list"

text \<open>
  The loop \<^verbatim>\<open>do { opt_header = (char*)opt_header + opt_header->opt_length; ... } while
  (!(opt_header->opt_type & PGM_OPT_END))\<close> of both handlers, over the headers that the
  pointer reaches in the received data, in order. The loop breaks at the first option of
  the type looked for (\<open>Some (Some o)\<close>) and ends after an option with \<open>OPT_END\<close>
  (\<open>Some None\<close>). The code does not check for the end of the packet ("TODO: check for > 16
  options & past packet end"): a walk that leaves the data is undefined (\<open>None\<close>).
\<close>

fun opt_loop :: "guint8 \<Rightarrow> pgm_opt list \<Rightarrow> pgm_opt option option" where
  "opt_loop ty [] = None"
| "opt_loop ty (opt_header # rest) =
     (if opt_type opt_header AND PGM_OPT_MASK = ty then Some (Some opt_header)
      else if opt_type opt_header AND PGM_OPT_END \<noteq> 0 then Some None
      else opt_loop ty rest)"

subsection \<open>on_spm\<close>

text \<open>
  Modelled from the spec: \<^verbatim>\<open>pgm_uint32_gte\<close> is part of \<^verbatim>\<open>pgm/sn.h\<close>, which is not among
  the sources. By the spec the sequence number of an SPM is compared with the last seen as
  greater-equal modulo \<open>2^32\<close>: the difference, as a signed 32-bit number, is not negative.
\<close>

definition pgm_uint32_gte :: "guint32 \<Rightarrow> guint32 \<Rightarrow> bool" where
  "pgm_uint32_gte s t = (0 \<le> sint (s - t))"

text \<open>
  What \<^verbatim>\<open>on_spm\<close> reads of the packet: the option bits of the header, the result of
  \<^verbatim>\<open>pgm_verify_spm\<close> (part of \<^verbatim>\<open>pgm/packet.c\<close>, not among the sources), the fields of
  the \<^verbatim>\<open>struct pgm_spm\<close> in host order with the NLA as \<^verbatim>\<open>pgm_nla_to_sockaddr\<close> decodes
  it, the \<^verbatim>\<open>struct pgm_opt_length\<close> and the options after it.
\<close>

record pgm_spm_rx =
  spm_pgm_options :: guint8
  spm_verify :: int
  spm_sqn_rx :: guint32
  spm_trail :: guint32
  spm_lead :: guint32
  spm_nla :: sockaddr
  spm_opt_len :: pgm_opt
  spm_opts :: "pgm_opt list"

text \<open>
  \<^verbatim>\<open>pgm_rxw_window_update\<close> is part of \<^verbatim>\<open>pgm/rxw.c\<close>, which is not among the sources:
  it is a parameter of \<^verbatim>\<open>on_spm\<close>, a function of the window, the trail, the lead,
  \<open>rs_k\<close>, \<open>tg_sqn_shift\<close> and the back-off expiry that returns the number of NAKs needed
  and the window.
\<close>

type_synonym window_update_t =
  "pgm_rxw_t \<Rightarrow> guint32 \<Rightarrow> guint32 \<Rightarrow> guint \<Rightarrow> guint \<Rightarrow> pgm_time_t \<Rightarrow> guint \<times> pgm_rxw_t"

definition malformed_spm :: "pgm_peer_t \<Rightarrow> pgm_peer_t" where
  "malformed_spm sender =
     sender\<lparr>peer_cumulative_stats :=
       stat_inc (stat_inc (peer_cumulative_stats sender) PGM_PC_RECEIVER_MALFORMED_SPMS)
         PGM_PC_RECEIVER_PACKETS_DISCARDED\<rparr>"

text \<open>
  The block "check whether peer can generate parity packets". The result is the value of
  \<open>retval\<close>, the peer, and whether the block was left by \<^verbatim>\<open>goto out\<close>.
\<close>

definition on_spm_options ::
  "pgm_spm_rx \<Rightarrow> int \<Rightarrow> pgm_peer_t \<Rightarrow> (bool \<times> int \<times> pgm_peer_t) option" where
  "on_spm_options spm retval sender =
     (if spm_pgm_options spm AND PGM_OPT_PRESENT = 0 then Some (False, retval, sender)
      else if opt_type (spm_opt_len spm) \<noteq> PGM_OPT_LENGTH
      then Some (True, - EINVAL, malformed_spm sender)
      else if opt_length (spm_opt_len spm) \<noteq> 4
      then Some (True, - EINVAL, malformed_spm sender)
      else
        case opt_loop PGM_OPT_PARITY_PRM (spm_opts spm) of
          None \<Rightarrow> None
        | Some None \<Rightarrow> Some (False, retval, sender)
        | Some (Some opt_parity_prm) \<Rightarrow>
            if opt_reserved opt_parity_prm AND PGM_PARITY_PRM_MASK = 0
            then Some (True, - EINVAL, malformed_spm sender)
            else if parity_prm_tgs opt_parity_prm < 2 \<or> 128 < parity_prm_tgs opt_parity_prm
            then Some (True, - EINVAL, malformed_spm sender)
            else Some (False, retval,
              sender\<lparr>peer_use_proactive_parity :=
                       opt_reserved opt_parity_prm AND PGM_PARITY_PRM_PRO \<noteq> 0,
                     peer_use_ondemand_parity :=
                       opt_reserved opt_parity_prm AND PGM_PARITY_PRM_OND \<noteq> 0,
                     peer_rs_k := parity_prm_tgs opt_parity_prm,
                     peer_tg_sqn_shift := pgm_power2_log2 (parity_prm_tgs opt_parity_prm)\<rparr>))"

text \<open>
  The branch of \<^verbatim>\<open>on_spm\<close> for an SPM that advances the sequence number or is the first
  of its peer. The result is \<open>retval\<close>, which was 0, the transport and the peer.
\<close>

definition on_spm_accept ::
  "os_t \<Rightarrow> window_update_t \<Rightarrow> pgm_time_t \<Rightarrow> tp_t \<Rightarrow> pgm_spm_rx \<Rightarrow> int \<times> tp_t" where
  "on_spm_accept os pgm_rxw_window_update now s spm =
     (let t = fst s;
          sender1 = (snd s)\<lparr>nla := spm_nla spm, peer_spm_sqn := spm_sqn_rx spm\<rparr>;
          nak_rb_expiry = fst (nak_rb_expiry_at now t);
          t1 = snd (nak_rb_expiry_at now t);
          upd = pgm_rxw_window_update (rxw sender1) (spm_trail spm) (spm_lead spm)
                  (rs_k t1) (tg_sqn_shift t1) nak_rb_expiry;
          sender2 = sender1\<lparr>rxw := snd upd\<rparr>
      in if fst upd \<noteq> 0 \<and> pgm_time_after (next_poll t1) nak_rb_expiry then
           let wr = write_pipe os (t1\<lparr>next_poll := nak_rb_expiry\<rparr>) TIMER_PIPE
           in ((if fst wr = All_written then 0 else - EINVAL), snd wr, sender2)
         else (0, t1, sender2))"

text \<open>The branch for an SPM that "does not advance SPM sequence number".\<close>

definition on_spm_dup :: "tp_t \<Rightarrow> int \<times> tp_t" where
  "on_spm_dup s =
     (- EINVAL, fst s,
      (snd s)\<lparr>peer_cumulative_stats :=
        stat_inc (stat_inc (peer_cumulative_stats (snd s)) PGM_PC_RECEIVER_DUP_SPMS)
          PGM_PC_RECEIVER_PACKETS_DISCARDED\<rparr>)"

text \<open>
  \<^verbatim>\<open>on_spm\<close> locks \<^verbatim>\<open>transport->mutex\<close> and \<^verbatim>\<open>sender->mutex\<close> after the packet is
  verified and unlocks them before the label \<^verbatim>\<open>out\<close>: the four \<^verbatim>\<open>goto out\<close> of the option
  block leave with both held. The two fields say whether each mutex is held. The mutexes
  are not recursive: \<^verbatim>\<open>g_static_mutex_lock\<close> on a mutex that is held, which nothing is
  there to release, does not return.
\<close>

record pgm_mutexes =
  transport_mutex :: bool
  sender_mutex :: bool

text \<open>
  \<^verbatim>\<open>on_spm\<close>. The result is the value returned, the mutexes, the transport and the peer;
  it is \<open>None\<close> when the function does not return, a mutex being held, and when the walk
  over the options leaves the received data.
\<close>

definition on_spm ::
  "os_t \<Rightarrow> window_update_t \<Rightarrow> pgm_mutexes \<Rightarrow> tp_t \<Rightarrow> pgm_spm_rx
     \<Rightarrow> (int \<times> pgm_mutexes \<times> tp_t) option" where
  "on_spm os pgm_rxw_window_update m s spm =
     (if spm_verify spm \<noteq> 0
      then Some (spm_verify spm, m, fst s, malformed_spm (snd s))
      else if transport_mutex m \<or> sender_mutex m then None
      else
        let now = fst (pgm_time_update_now (fst s));
            s0 = (snd (pgm_time_update_now (fst s)), snd s);
            r1 = (if pgm_uint32_gte (spm_sqn_rx spm) (peer_spm_sqn (snd s0))
                     \<or> sa_family (nla (snd s0)) = 0
                  then on_spm_accept os pgm_rxw_window_update now s0 spm
                  else on_spm_dup s0)
        in case on_spm_options spm (fst r1) (snd (snd r1)) of
             None \<Rightarrow> None
           | Some r2 \<Rightarrow>
               if fst r2
               then Some (fst (snd r2), \<lparr>transport_mutex = True, sender_mutex = True\<rparr>,
                          fst (snd r1), snd (snd r2))
               else Some (fst (snd r2), \<lparr>transport_mutex = False, sender_mutex = False\<rparr>,
                          fst (snd r1),
                          (snd (snd r2))\<lparr>expiry := now + unat (peer_expiry (fst (snd r1))),
                                          peer_spmr_expiry := 0\<rparr>))"

subsection \<open>on_nak\<close>

text \<open>
  What \<^verbatim>\<open>on_nak\<close> reads of the packet: the option bits of the header, the result of
  \<^verbatim>\<open>pgm_verify_nak\<close> (not among the sources), \<open>nak_sqn\<close> in host order, the source NLA
  as decoded, the group NLA as decoded at its place in a \<^verbatim>\<open>struct pgm_nak\<close> and in a
  \<^verbatim>\<open>struct pgm_nak6\<close>, the \<^verbatim>\<open>struct pgm_opt_length\<close> and the options after it. Two
  variables are read where no path has written them: \<open>retval\<close> when a parity NAK reaches a
  transport without on-demand parity, and \<open>nak_grp_nla\<close> when the family of the source NLA
  is neither \<^verbatim>\<open>AF_INET\<close> nor \<^verbatim>\<open>AF_INET6\<close>; the last two fields are what is found there.
\<close>

record pgm_nak_rx =
  nak_pgm_options :: guint8
  nak_verify :: int
  nak_sqn :: guint32
  nak_src_nla :: sockaddr
  nak_grp_nla :: sockaddr
  nak6_grp_nla :: sockaddr
  nak_opt_len :: pgm_opt
  nak_opts :: "pgm_opt list"
  retval_uninit :: int
  nak_grp_nla_uninit :: sockaddr

text \<open>
  Modelled from the spec: \<^verbatim>\<open>pgm_txw_retransmit_push\<close> is part of \<^verbatim>\<open>pgm/txw.c\<close>, which is
  not among the sources. By the spec \<open>retransmit_push(sqn, parity?, tg_sqn_shift)\<close> returns
  the count pushed. The transmit window is the environment's: \<open>txw\<close> gives, for the calls
  so far, the last one being this push, the count returned.
\<close>

type_synonym txw_t = "io_event list \<Rightarrow> int"

definition pgm_txw_retransmit_push ::
  "txw_t \<Rightarrow> pgm_transport_t \<Rightarrow> guint32 \<Rightarrow> bool \<Rightarrow> int \<times> pgm_transport_t" where
  "pgm_txw_retransmit_push txw t sqn is_parity =
     (let w = wire t @ [Txw_retransmit_push sqn is_parity] in (txw w, t\<lparr>wire := w\<rparr>))"

definition malformed_nak :: "pgm_transport_t \<Rightarrow> pgm_transport_t" where
  "malformed_nak t =
     t\<lparr>cumulative_stats :=
       stat_inc (stat_inc (cumulative_stats t) PGM_PC_SOURCE_MALFORMED_NAKS)
         PGM_PC_SOURCE_PACKETS_DISCARDED\<rparr>"

text \<open>
  \<^verbatim>\<open>nak_list_len = (opt_header->opt_length - sizeof(struct pgm_opt_header) -
  sizeof(guint8)) / sizeof(guint32)\<close>: the header has three bytes; the subtraction is done in
  \<^verbatim>\<open>size_t\<close> (64 bits), where it wraps for a length below 4, and the quotient is cut to
  the 32 bits of a \<^verbatim>\<open>guint\<close>.
\<close>

definition nak_list_len_of :: "pgm_opt \<Rightarrow> nat" where
  "nak_list_len_of opt_header =
     nat ((((int (unat (opt_length opt_header)) - 3 - 1) mod 2 ^ 64) div 4) mod 2 ^ 32)"

text \<open>
  The block "check NAK list" with the loop that copies the list into \<^verbatim>\<open>sqn_list\<close>,
  whose array has 63 places, one taken by \<open>nak_sqn\<close>. The result is \<open>Some (Inl ())\<close> when
  the block is left by \<^verbatim>\<open>goto out\<close>, \<open>Some (Inr nak_list)\<close> with the entries copied,
  \<open>None\<close> when the walk leaves the received data, the copy reads past it or writes past
  the array.
\<close>

definition on_nak_options :: "pgm_nak_rx \<Rightarrow> (unit + guint32 list) option" where
  "on_nak_options nak =
     (if nak_pgm_options nak AND PGM_OPT_PRESENT = 0 then Some (Inr [])
      else if opt_type (nak_opt_len nak) \<noteq> PGM_OPT_LENGTH then Some (Inl ())
      else if opt_length (nak_opt_len nak) \<noteq> 4 then Some (Inl ())
      else
        case opt_loop PGM_OPT_NAK_LIST (nak_opts nak) of
          None \<Rightarrow> None
        | Some None \<Rightarrow> Some (Inr [])
        | Some (Some opt_header) \<Rightarrow>
            if 63 < 1 + nak_list_len_of opt_header then None
            else if length (opt_sqn opt_header) < nak_list_len_of opt_header then None
            else Some (Inr (take (nak_list_len_of opt_header) (opt_sqn opt_header))))"

text \<open>
  The loop "queue retransmit requests" over \<^verbatim>\<open>sqn_list\<close>, carrying \<open>retval\<close>: one byte
  is written to \<^verbatim>\<open>rdata_pipe\<close> after a push that returns a positive count.
\<close>

fun queue_retransmit ::
  "os_t \<Rightarrow> txw_t \<Rightarrow> bool \<Rightarrow> guint32 list \<Rightarrow> int \<times> pgm_transport_t \<Rightarrow> int \<times> pgm_transport_t" where
  "queue_retransmit os txw is_parity [] rt = rt"
| "queue_retransmit os txw is_parity (sqn # rest) rt =
     (let p = pgm_txw_retransmit_push txw (snd rt) sqn is_parity
      in if 0 < fst p then
           let wr = write_pipe os (snd p) RDATA_PIPE
           in queue_retransmit os txw is_parity rest
                ((if fst wr = All_written then fst rt else - EINVAL), snd wr)
         else queue_retransmit os txw is_parity rest (fst rt, snd p))"

text \<open>
  \<^verbatim>\<open>on_nak\<close>. The results of \<^verbatim>\<open>send_ncf\<close> and \<^verbatim>\<open>send_ncf_list\<close> are not looked at.
\<close>

definition on_nak ::
  "os_t \<Rightarrow> txw_t \<Rightarrow> pgm_transport_t \<Rightarrow> pgm_nak_rx \<Rightarrow> (int \<times> pgm_transport_t) option" where
  "on_nak os txw t nak =
     (let is_parity = (nak_pgm_options nak AND PGM_OPT_PARITY \<noteq> 0);
          t1 = t\<lparr>cumulative_stats :=
                 stat_inc (cumulative_stats t)
                   (if is_parity then PGM_PC_SOURCE_PARITY_NAKS_RECEIVED
                    else PGM_PC_SOURCE_SELECTIVE_NAKS_RECEIVED)\<rparr>;
          nak_grp =
            (if sa_family (nak_src_nla nak) = AF_INET then nak_grp_nla nak
             else if sa_family (nak_src_nla nak) = AF_INET6 then nak6_grp_nla nak
             else nak_grp_nla_uninit nak)
      in if is_parity \<and> \<not> use_ondemand_parity t1
         then Some (retval_uninit nak, malformed_nak t1)
         else if nak_verify nak \<noteq> 0 then Some (nak_verify nak, malformed_nak t1)
         else if pgm_sockaddr_cmp (nak_src_nla nak) (send_smr_interface t1) \<noteq> 0
         then Some (- EINVAL, malformed_nak t1)
         else if pgm_sockaddr_cmp nak_grp (send_smr_multiaddr t1) \<noteq> 0
         then Some (- EINVAL, malformed_nak t1)
         else
           case on_nak_options nak of
             None \<Rightarrow> None
           | Some (Inl u) \<Rightarrow> Some (- EINVAL, malformed_nak t1)
           | Some (Inr nak_list) \<Rightarrow>
               (case (if nak_list \<noteq> []
                      then map_option snd
                             (send_ncf_list os t1 (nak_src_nla nak) nak_grp
                                (nak_sqn nak # nak_list) is_parity)
                      else Some (snd (send_ncf os t1 (nak_src_nla nak) nak_grp
                                        (nak_sqn nak) is_parity))) of
                  None \<Rightarrow> None
                | Some t2 \<Rightarrow>
                    Some (queue_retransmit os txw is_parity (nak_sqn nak # nak_list) (0, t2))))"

subsection \<open>The retransmit requests of a NAK, in the words of the spec\<close>

text \<open>
  What follows the NCF, after the calls \<open>w\<close>: each sequence number is pushed on the
  retransmit queue, and each push that returns a positive count is followed by one byte on
  \<^verbatim>\<open>rdata_pipe\<close>.
\<close>

fun rdata_requests :: "txw_t \<Rightarrow> io_event list \<Rightarrow> guint32 list \<Rightarrow> io_event list" where
  "rdata_requests txw w [] = []"
| "rdata_requests txw w (sqn # rest) =
     (if 0 < txw (w @ [Txw_retransmit_push sqn False])
      then [Txw_retransmit_push sqn False, Write_pipe RDATA_PIPE]
             @ rdata_requests txw (w @ [Txw_retransmit_push sqn False, Write_pipe RDATA_PIPE]) rest
      else [Txw_retransmit_push sqn False]
             @ rdata_requests txw (w @ [Txw_retransmit_push sqn False]) rest)"

section \<open>The timer\<close>

text \<open>
  The block of \<^verbatim>\<open>pgm_timer_dispatch\<close> under \<^verbatim>\<open>if (transport->can_send)\<close>: the ambient
  SPM when it is due, else the heartbeat SPM when the heartbeat is armed and due.
\<close>

definition dispatch_spm :: "os_t \<Rightarrow> pgm_transport_t \<Rightarrow> pgm_transport_t option" where
  "dispatch_spm os t =
     (if can_send t then
        (if pgm_time_after_eq (pgm_time_now t) (next_ambient_spm t) then
           let t1 = snd (send_spm_unlocked os t)
           in Some (t1\<lparr>spm_heartbeat_state := 0,
                       next_ambient_spm := pgm_time_now t1 + unat (spm_ambient_interval t1)\<rparr>)
         else if spm_heartbeat_state t \<noteq> 0
                 \<and> pgm_time_after_eq (pgm_time_now t) (next_heartbeat_spm t) then
           let t1 = snd (send_spm_unlocked os t)
           in case heartbeat_interval_at t1 (spm_heartbeat_state t1) of
                None \<Rightarrow> None
              | Some ivl \<Rightarrow>
                  if ivl \<noteq> 0
                  then Some (t1\<lparr>next_heartbeat_spm := pgm_time_now t1 + unat ivl,
                              spm_heartbeat_state := spm_heartbeat_state t1 + 1\<rparr>)
                  else Some (t1\<lparr>spm_heartbeat_state := 0\<rparr>)
         else Some t)
      else Some t)"

definition pgm_timer_dispatch ::
  "os_t \<Rightarrow> pgm_transport_t \<times> pgm_peer_t list
     \<Rightarrow> (bool \<times> pgm_transport_t \<times> pgm_peer_t list) option" where
  "pgm_timer_dispatch os tps =
     (case dispatch_spm os (fst tps) of
        None \<Rightarrow> None
      | Some t1 \<Rightarrow>
          if can_recv t1
          then map_option (Pair True) (check_peer_nak_state os (t1, snd tps))
          else Some (True, t1, snd tps))"

text \<open>
  \<^verbatim>\<open>min_nak_expiry\<close>: for each peer in turn the expiration is lowered to the peer's
  \<open>spmr_expiry\<close> when that is set, and to the expiry of the tail of each queue that has
  one.
\<close>

definition min_nak_expiry_peer :: "pgm_peer_t \<Rightarrow> pgm_time_t \<Rightarrow> pgm_time_t" where
  "min_nak_expiry_peer peer expiration =
     (let e1 = (if peer_spmr_expiry peer \<noteq> 0
                  \<and> pgm_time_after_eq expiration (peer_spmr_expiry peer)
                then peer_spmr_expiry peer else expiration);
          e2 = (case backoff_queue (rxw peer) of
                  [] \<Rightarrow> e1
                | rp # prev \<Rightarrow>
                    if pgm_time_after_eq e1 (nak_rb_expiry rp) then nak_rb_expiry rp else e1);
          e3 = (case wait_ncf_queue (rxw peer) of
                  [] \<Rightarrow> e2
                | rp # prev \<Rightarrow>
                    if pgm_time_after_eq e2 (nak_rpt_expiry rp) then nak_rpt_expiry rp else e2)
      in (case wait_data_queue (rxw peer) of
            [] \<Rightarrow> e3
          | rp # prev \<Rightarrow>
              if pgm_time_after_eq e3 (nak_rdata_expiry rp) then nak_rdata_expiry rp else e3))"

definition min_nak_expiry :: "pgm_time_t \<Rightarrow> pgm_peer_t list \<Rightarrow> pgm_time_t" where
  "min_nak_expiry expiration peers_list = fold min_nak_expiry_peer peers_list expiration"

text \<open>
  Modelled from the spec: \<^verbatim>\<open>pgm_secs\<close> and \<^verbatim>\<open>pgm_to_msecs\<close> are macros of
  \<^verbatim>\<open>pgm/timer.h\<close>, which is not among the sources; times are microseconds. The division
  is C's on a signed 64-bit value: it rounds towards zero.
\<close>

definition pgm_secs :: "nat \<Rightarrow> pgm_time_t" where
  "pgm_secs n = n * 1000000"

definition pgm_to_msecs :: "int \<Rightarrow> int" where
  "pgm_to_msecs d = (if d < 0 then - ((- d) div 1000) else d div 1000)"

definition G_MAXINT :: int where
  "G_MAXINT = 2147483647"

text \<open>
  \<^verbatim>\<open>pgm_timer_prepare\<close> gives the \<^verbatim>\<open>gboolean\<close> it returns, the value stored in
  \<^verbatim>\<open>*timeout\<close>, the value stored in \<^verbatim>\<open>pgm_timer->expiration\<close>, and the transport.
  \<open>msec\<close> is a \<^verbatim>\<open>glong\<close>, taken to be 64 bits wide; \<^verbatim>\<open>(guint)msec\<close> keeps its low 32
  bits.
\<close>

definition pgm_timer_prepare ::
  "pgm_transport_t \<times> pgm_peer_t list \<Rightarrow> bool \<times> int \<times> pgm_time_t \<times> pgm_transport_t" where
  "pgm_timer_prepare tps =
     (let t0' = fst tps;
          nt = pgm_time_update_now t0';
          now = fst nt; t = snd nt;
          e0 = now + pgm_secs 30;
          e1 = (if can_send t
                then (if spm_heartbeat_state t \<noteq> 0
                      then min (next_heartbeat_spm t) (next_ambient_spm t)
                      else next_ambient_spm t)
                else e0);
          expiration = (if can_recv t then min_nak_expiry e1 (snd tps) else e1);
          t1 = t\<lparr>next_poll := expiration\<rparr>;
          msec0 = pgm_to_msecs (int expiration - int now);
          msec = (if msec0 < 0 then 0 else min G_MAXINT (msec0 mod 2 ^ 32))
      in (msec = 0, msec, expiration, t1))"

subsection \<open>The deadlines, in the words of the spec\<close>

text \<open>
  The deadlines of one peer: its \<open>spmr_expiry\<close> when that is set, and the expiry of the
  tail of each of its three queues that is not empty.
\<close>

definition peer_deadlines :: "pgm_peer_t \<Rightarrow> pgm_time_t list" where
  "peer_deadlines peer =
     (if peer_spmr_expiry peer \<noteq> 0 then [peer_spmr_expiry peer] else [])
     @ (case backoff_queue (rxw peer) of [] \<Rightarrow> [] | rp # prev \<Rightarrow> [nak_rb_expiry rp])
     @ (case wait_ncf_queue (rxw peer) of [] \<Rightarrow> [] | rp # prev \<Rightarrow> [nak_rpt_expiry rp])
     @ (case wait_data_queue (rxw peer) of [] \<Rightarrow> [] | rp # prev \<Rightarrow> [nak_rdata_expiry rp])"

text \<open>
  The deadlines of the timer at the time \<open>now\<close>: for a transport that can send, the next
  ambient SPM and, when the heartbeat is armed, the next heartbeat SPM; for one that
  cannot, \<open>now\<close> plus 30 seconds; and for a transport that can receive, the deadlines of
  its peers.
\<close>

definition timer_deadlines :: "pgm_time_t \<Rightarrow> pgm_transport_t \<Rightarrow> pgm_peer_t list \<Rightarrow> pgm_time_t list" where
  "timer_deadlines now t peers_list =
     (if can_send t
      then next_ambient_spm t
           # (if spm_heartbeat_state t \<noteq> 0 then [next_heartbeat_spm t] else [])
      else [now + pgm_secs 30])
     @ (if can_recv t then concat (map peer_deadlines peers_list) else [])"

text \<open>
  What the receiver functions keep of the transport: the SPM schedule and what the
  sending side is configured with, and the history so far.
\<close>

definition spm_schedule ::
  "pgm_transport_t \<Rightarrow> bool \<times> guint \<times> pgm_time_t \<times> pgm_time_t \<times> guint list \<times> guint" where
  "spm_schedule t =
     (can_send t, spm_heartbeat_state t, next_heartbeat_spm t, next_ambient_spm t,
      spm_heartbeat_interval t, spm_ambient_interval t)"

definition is_spm_event :: "io_event \<Rightarrow> bool" where
  "is_spm_event e =
     (case e of
        Sendto sock rate_limited pkt to \<Rightarrow> pgm_type pkt = PGM_SPM
      | Write_pipe p \<Rightarrow> False
      | Txw_retransmit_push sqn parity \<Rightarrow> False)"

definition receiver_frame :: "pgm_transport_t \<Rightarrow> pgm_transport_t \<Rightarrow> bool" where
  "receiver_frame t t' =
     (spm_schedule t' = spm_schedule t
      \<and> take (length (wire t)) (wire t') = wire t
      \<and> list_all (\<lambda>e. \<not> is_spm_event e) (drop (length (wire t)) (wire t')))"

subsection \<open>What the receiver functions leave alone\<close>

text \<open>
  Between two states of a transport and one of its peers: nothing was sent or written, and
  the fields that address a NAK and select its kind are the same.
\<close>

definition nak_frame :: "tp_t \<Rightarrow> tp_t \<Rightarrow> bool" where
  "nak_frame s s' =
     (wire (fst s') = wire (fst s) \<and> dport (fst s') = dport (fst s)
      \<and> is_passive (fst s') = is_passive (fst s)
      \<and> nla (snd s') = nla (snd s) \<and> group_nla (snd s') = group_nla (snd s)
      \<and> peer_sport (snd s') = peer_sport (snd s)
      \<and> peer_use_ondemand_parity (snd s') = peer_use_ondemand_parity (snd s))"

subsection \<open>The retry sweeps, in the words of the spec\<close>

text \<open>
  What a sweep of a wait queue \<open>q\<close> is to do, to be compared with \<^verbatim>\<open>nak_rpt_state\<close> and
  \<^verbatim>\<open>nak_rdata_state\<close>. The entries swept are those from the tail of the queue whose
  expiry has passed, up to the first that has not, each with its retry counter incremented;
  those whose counter then exceeds the limit are lost, the others are retried. The
  \<open>i\<close>-th entry retried goes back to BACK_OFF with the expiry that the \<open>i\<close>-th call of
  \<^verbatim>\<open>nak_rb_ivl\<close> gives at the current time. \<open>flushed\<close> is the transport once the peer
  is on \<open>peers_waiting\<close>, where it is put when an entry is lost and it was not linked.
\<close>

definition rb_expiry_nth :: "pgm_transport_t \<Rightarrow> nat \<Rightarrow> pgm_time_t" where
  "rb_expiry_nth t i
     = fst (nak_rb_expiry_at (pgm_time_now t) (t\<lparr>grand := sdrop i (grand t)\<rparr>))"

definition back_off_again :: "pgm_transport_t \<Rightarrow> nat \<times> pgm_rxw_packet_t \<Rightarrow> pgm_rxw_packet_t" where
  "back_off_again t irp
     = (snd irp)\<lparr>state := PGM_PKT_BACK_OFF_STATE, nak_rb_expiry := rb_expiry_nth t (fst irp)\<rparr>"

definition lost_entry :: "pgm_rxw_packet_t \<Rightarrow> pgm_rxw_packet_t" where
  "lost_entry rp = rp\<lparr>state := PGM_PKT_LOST_DATA_STATE\<rparr>"

definition ncf_swept :: "pgm_transport_t \<Rightarrow> pgm_rxw_packet_t list \<Rightarrow> pgm_rxw_packet_t list" where
  "ncf_swept t q
     = map (\<lambda>rp. rp\<lparr>ncf_retry_count := ncf_retry_count rp + 1\<rparr>)
         (takeWhile (\<lambda>rp. pgm_time_after_eq (pgm_time_now t) (nak_rpt_expiry rp)) q)"

definition ncf_exceeded :: "pgm_transport_t \<Rightarrow> pgm_rxw_packet_t \<Rightarrow> bool" where
  "ncf_exceeded t rp = (unat (nak_ncf_retries t) < unat (ncf_retry_count rp))"

definition ncf_lost :: "pgm_transport_t \<Rightarrow> pgm_rxw_packet_t list \<Rightarrow> pgm_rxw_packet_t list" where
  "ncf_lost t q = filter (ncf_exceeded t) (ncf_swept t q)"

definition ncf_retried :: "pgm_transport_t \<Rightarrow> pgm_rxw_packet_t list \<Rightarrow> pgm_rxw_packet_t list" where
  "ncf_retried t q = filter (\<lambda>rp. \<not> ncf_exceeded t rp) (ncf_swept t q)"

definition data_swept :: "pgm_transport_t \<Rightarrow> pgm_rxw_packet_t list \<Rightarrow> pgm_rxw_packet_t list" where
  "data_swept t q
     = map (\<lambda>rp. rp\<lparr>data_retry_count := data_retry_count rp + 1\<rparr>)
         (takeWhile (\<lambda>rp. pgm_time_after_eq (pgm_time_now t) (nak_rdata_expiry rp)) q)"

definition data_exceeded :: "pgm_transport_t \<Rightarrow> pgm_rxw_packet_t \<Rightarrow> bool" where
  "data_exceeded t rp = (unat (nak_data_retries t) < unat (data_retry_count rp))"

definition data_lost :: "pgm_transport_t \<Rightarrow> pgm_rxw_packet_t list \<Rightarrow> pgm_rxw_packet_t list" where
  "data_lost t q = filter (data_exceeded t) (data_swept t q)"

definition data_retried :: "pgm_transport_t \<Rightarrow> pgm_rxw_packet_t list \<Rightarrow> pgm_rxw_packet_t list" where
  "data_retried t q = filter (\<lambda>rp. \<not> data_exceeded t rp) (data_swept t q)"

definition flushed :: "tp_t \<Rightarrow> bool \<Rightarrow> pgm_transport_t" where
  "flushed s lost =
     (if lost \<and> \<not> waiting_link_data (rxw (snd s))
      then (fst s)\<lparr>peers_waiting := tsi (snd s) # peers_waiting (fst s)\<rparr>
      else fst s)"

subsection \<open>A transport for the examples\<close>

definition addr_if :: sockaddr where
  "addr_if = \<lparr>sa_family = AF_INET, s_addr = 0x0A000001, sa_data = 0\<rparr>"

definition addr_grp :: sockaddr where
  "addr_grp = \<lparr>sa_family = AF_INET, s_addr = 0xEF000001, sa_data = 0\<rparr>"

definition transport0 :: pgm_transport_t where
  "transport0 =
     \<lparr>is_bound = True, can_send = True, can_recv = True, is_passive = False,
      use_proactive_parity = False, use_ondemand_parity = False, use_varpkt_len = False,
      rs_n = 0, rs_k = 0, tg_sqn_shift = 0,
      tsi_sport = 1000, dport = 7500,
      send_smr_interface = addr_if, send_smr_multiaddr = addr_grp,
      spm_ambient_interval = 60000000,
      spm_heartbeat_interval = [0, 10000, 20000, 0],
      spm_heartbeat_state = 0,
      peer_expiry = 300000000, spmr_expiry = 250000,
      nak_bo_ivl = 50000, nak_rpt_ivl = 200000, nak_rdata_ivl = 200000,
      nak_data_retries = 2, nak_ncf_retries = 2,
      next_poll = 0, next_ambient_spm = 60000000, next_heartbeat_spm = 0,
      spm_sqn = 0,
      spm_packet = \<lparr>pgm_sport = 1000, pgm_dport = 7500, pgm_type = PGM_SPM, pgm_options = 0,
                    pgm_body = Spm_body 0\<rparr>,
      max_tsdu = 1456,
      grand = sconst 7,
      peers_waiting = [], peers_last_waiting = None,
      cumulative_stats = (\<lambda>c. 0),
      wire = [],
      pgm_time_now = 1000000,
      clock = sconst 1000000\<rparr>"

definition rxw0 :: pgm_rxw_t where
  "rxw0 = \<lparr>backoff_queue = [], wait_ncf_queue = [], wait_data_queue = [], off_queue = [],
            lead = 0, lost_count = 0, waiting_link_data = False\<rparr>"

definition addr_peer :: sockaddr where
  "addr_peer = \<lparr>sa_family = AF_INET, s_addr = 0x0A000002, sa_data = 0\<rparr>"

definition peer0 :: pgm_peer_t where
  "peer0 =
     \<lparr>tsi = 1, peer_sport = 2000, nla = addr_peer, group_nla = addr_grp, local_nla = addr_peer,
      peer_spm_sqn = 10, expiry = 301000000, peer_spmr_expiry = 0,
      peer_use_proactive_parity = False, peer_use_ondemand_parity = False,
      peer_rs_k = 0, peer_tg_sqn_shift = 0,
      max_fail_time = 0, min_fail_time = 0,
      peer_cumulative_stats = (\<lambda>c. 0),
      rxw = rxw0\<rparr>"

text \<open>An entry of the window for the examples, entered at 900000.\<close>

definition entry :: "guint32 \<Rightarrow> pgm_pkt_state_e \<Rightarrow> pgm_time_t \<Rightarrow> guint8 \<Rightarrow> pgm_rxw_packet_t" where
  "entry sqn st e c =
     \<lparr>sequence_number = sqn, t0 = 900000, nak_rb_expiry = e, nak_rpt_expiry = e,
      nak_rdata_expiry = e, state = st, nak_transmit_count = 1, ncf_retry_count = c,
      data_retry_count = c\<rparr>"

definition peer_backoff :: pgm_peer_t where
  "peer_backoff =
     peer0\<lparr>rxw := rxw0\<lparr>backoff_queue := [entry 5 PGM_PKT_BACK_OFF_STATE 1004000 0]\<rparr>\<rparr>"

text \<open>The same transport with the heartbeat armed at index 2 and due now, with the ambient
  SPM due now, and a transport that sends but does not receive.\<close>

definition transport_hb :: pgm_transport_t where
  "transport_hb = transport0\<lparr>spm_heartbeat_state := 2, next_heartbeat_spm := 1000000\<rparr>"

definition transport_amb :: pgm_transport_t where
  "transport_amb = transport_hb\<lparr>next_ambient_spm := 1000000\<rparr>"

text \<open>A passive receiver, and a peer with on-demand parity (transmission groups of 4)
  whose window leads at 9 and waits for packet 5, its back-off expired.\<close>

definition transport_passive :: pgm_transport_t where
  "transport_passive = transport0\<lparr>can_send := False, is_passive := True\<rparr>"

definition peer_parity :: pgm_peer_t where
  "peer_parity =
     peer0\<lparr>peer_use_ondemand_parity := True, peer_rs_k := 4, peer_tg_sqn_shift := 2,
           rxw := rxw0\<lparr>backoff_queue := [entry 5 PGM_PKT_BACK_OFF_STATE 900000 0],
                       lead := 9\<rparr>\<rparr>"

text \<open>A peer with three entries waiting for an NCF and two waiting for data. At 1000000
  the first two of the former and the first of the latter have expired; entries 5 and 8 have
  used up their retries.\<close>

definition peer_wait :: pgm_peer_t where
  "peer_wait =
     peer0\<lparr>rxw := rxw0
       \<lparr>wait_ncf_queue := [entry 5 PGM_PKT_WAIT_NCF_STATE 900000 2,
                           entry 6 PGM_PKT_WAIT_NCF_STATE 950000 0,
                           entry 7 PGM_PKT_WAIT_NCF_STATE 2000000 0],
        wait_data_queue := [entry 8 PGM_PKT_WAIT_DATA_STATE 900000 2,
                            entry 9 PGM_PKT_WAIT_DATA_STATE 2000000 0]\<rparr>\<rparr>"

text \<open>An SPM of the peer of the examples, with sequence number 11 and no options, and a
  window update that finds nothing to do.\<close>

definition spm11 :: pgm_spm_rx where
  "spm11 =
     \<lparr>spm_pgm_options = 0, spm_verify = 0, spm_sqn_rx = 11, spm_trail = 0, spm_lead = 0,
      spm_nla = addr_peer,
      spm_opt_len = \<lparr>opt_type = 0, opt_length = 0, opt_reserved = 0, parity_prm_tgs = 0,
                      opt_sqn = []\<rparr>,
      spm_opts = []\<rparr>"

definition window_update_idle :: window_update_t where
  "window_update_idle r trail' lead' k sh e = (0, r)"

text \<open>The two mutexes free, and the SPM with the option bit set and a first option header
  that is not an \<open>OPT_LENGTH\<close>.\<close>

definition mutexes_free :: pgm_mutexes where
  "mutexes_free = \<lparr>transport_mutex = False, sender_mutex = False\<rparr>"

definition spm11_bad_options :: pgm_spm_rx where
  "spm11_bad_options =
     spm11\<lparr>spm_pgm_options := 0x01,
           spm_opt_len := \<lparr>opt_type = 0x08, opt_length = 8, opt_reserved = 0,
                            parity_prm_tgs = 0, opt_sqn = []\<rparr>\<rparr>"

text \<open>A transport whose \<open>nak_bo_ivl\<close> is \<open>2^31\<close>, as \<^verbatim>\<open>pgm_transport_set_nak_bo_ivl\<close>
  stores it, and a peer with one entry waiting for an NCF and one waiting for data, both
  expired at 1000000 and with retries left.\<close>

definition transport_bo31 :: pgm_transport_t where
  "transport_bo31 = transport0\<lparr>nak_bo_ivl := 0x80000000\<rparr>"

definition peer_retry :: pgm_peer_t where
  "peer_retry =
     peer0\<lparr>rxw := rxw0
       \<lparr>wait_ncf_queue := [entry 6 PGM_PKT_WAIT_NCF_STATE 950000 0],
        wait_data_queue := [entry 8 PGM_PKT_WAIT_DATA_STATE 900000 0]\<rparr>\<rparr>"

text \<open>A selective NAK for the sequence numbers 5, 7 and 9 that names the interface and the
  group of the example transport; the same NAK for another group; the same NAK with a first
  option header that is not an \<open>OPT_LENGTH\<close>; a transmit window that has all packets
  but 7.\<close>

definition nak579 :: pgm_nak_rx where
  "nak579 =
     \<lparr>nak_pgm_options = 0x03, nak_verify = 0, nak_sqn = 5,
      nak_src_nla = addr_if, nak_grp_nla = addr_grp, nak6_grp_nla = addr_peer,
      nak_opt_len = \<lparr>opt_type = 0x00, opt_length = 4, opt_reserved = 0, parity_prm_tgs = 0,
                      opt_sqn = []\<rparr>,
      nak_opts = [\<lparr>opt_type = 0x82, opt_length = 12, opt_reserved = 0, parity_prm_tgs = 0,
                    opt_sqn = [7, 9]\<rparr>],
      retval_uninit = 0, nak_grp_nla_uninit = addr_peer\<rparr>"

definition nak_other_group :: pgm_nak_rx where
  "nak_other_group = nak579\<lparr>nak_grp_nla := addr_peer\<rparr>"

definition nak_bad_options :: pgm_nak_rx where
  "nak_bad_options = nak579\<lparr>nak_opt_len := (nak_opt_len nak579)\<lparr>opt_type := 0x02\<rparr>\<rparr>"

definition txw_but_7 :: txw_t where
  "txw_but_7 w = (if last w = Txw_retransmit_push 7 False then 0 else 1)"

section \<open>Theorems: pgm_set_nonblocking\<close>

lemma O_NONBLOCK_set: "((v::int) OR O_NONBLOCK) AND O_NONBLOCK = O_NONBLOCK"
  by (auto simp add: bit_eq_iff bit_and_iff bit_or_iff)

text \<open>
  C10. When the calls that \<^verbatim>\<open>pgm_set_nonblocking\<close> makes succeed (each answers a
  non-negative value), it makes exactly four: \<^verbatim>\<open>F_GETFL\<close> and \<^verbatim>\<open>F_SETFL\<close> on the write
  end \<open>filedes[1]\<close>, then \<^verbatim>\<open>F_GETFL\<close> and \<^verbatim>\<open>F_SETFL\<close> on the read end \<open>filedes[0]\<close>;
  it returns what the last call answered, which is non-negative, and it leaves the operating
  system in the state after these four calls. Both \<^verbatim>\<open>F_SETFL\<close> calls carry the same
  word, the flags read from the write end with \<^verbatim>\<open>O_NONBLOCK\<close> set. The answer to
  \<^verbatim>\<open>F_GETFL\<close> on the read end is not looked at: whatever is put in its place, a negative
  number too, the calls, the value returned and the final state are the same.
\<close>

theorem pgm_set_nonblocking_applies_write_end_flags:
  assumes c1: "fcntl k (F_GETFL fd1) = (fd_flags, k1)"
    and c2: "fcntl k1 (F_SETFL fd1 (fd_flags OR O_NONBLOCK)) = (r2, k2)"
    and c3: "fcntl k2 (F_GETFL fd0) = (r3, k3)"
    and c4: "fcntl k3 (F_SETFL fd0 (fd_flags OR O_NONBLOCK)) = (r4, k4)"
    and ok: "0 \<le> fd_flags" "0 \<le> r2" "0 \<le> r4"
    and ne: "fd0 \<noteq> fd1"
  shows "pgm_set_nonblocking fcntl k (fd0, fd1)
           = (r4, [F_GETFL fd1, F_SETFL fd1 (fd_flags OR O_NONBLOCK),
                   F_GETFL fd0, F_SETFL fd0 (fd_flags OR O_NONBLOCK)], k4)
       \<and> (fd_flags OR O_NONBLOCK) AND O_NONBLOCK = O_NONBLOCK
       \<and> pgm_set_nonblocking
            (\<lambda>s c. if c = F_GETFL fd0 then (x, snd (fcntl s c)) else fcntl s c) k (fd0, fd1)
           = (r4, [F_GETFL fd1, F_SETFL fd1 (fd_flags OR O_NONBLOCK),
                   F_GETFL fd0, F_SETFL fd0 (fd_flags OR O_NONBLOCK)], k4)"
proof -
  have a: "pgm_set_nonblocking fcntl k (fd0, fd1)
           = (r4, [F_GETFL fd1, F_SETFL fd1 (fd_flags OR O_NONBLOCK),
                   F_GETFL fd0, F_SETFL fd0 (fd_flags OR O_NONBLOCK)], k4)"
    using c1 c2 c3 c4 ok by (simp add: pgm_set_nonblocking_def Let_def)
  have b: "(fd_flags OR O_NONBLOCK) AND O_NONBLOCK = O_NONBLOCK"
    by (rule O_NONBLOCK_set)
  let ?f = "\<lambda>s c. if c = F_GETFL fd0 then (x, snd (fcntl s c)) else fcntl s c"
  have d1: "?f k (F_GETFL fd1) = (fd_flags, k1)" using c1 ne by simp
  have d2: "?f k1 (F_SETFL fd1 (fd_flags OR O_NONBLOCK)) = (r2, k2)" using c2 by simp
  have d3: "?f k2 (F_GETFL fd0) = (x, k3)" using c3 by simp
  have d4: "?f k3 (F_SETFL fd0 (fd_flags OR O_NONBLOCK)) = (r4, k4)" using c4 by simp
  have c: "pgm_set_nonblocking ?f k (fd0, fd1)
           = (r4, [F_GETFL fd1, F_SETFL fd1 (fd_flags OR O_NONBLOCK),
                   F_GETFL fd0, F_SETFL fd0 (fd_flags OR O_NONBLOCK)], k4)"
    unfolding pgm_set_nonblocking_def Let_def fst_conv snd_conv d1 d2 d3 d4 prod.case
    using ok by simp
  from a b c show ?thesis by blast
qed

theorem pgm_set_nonblocking_applies_write_end_flags_witness:
  "pipe_fcntl pipe_flags0 (F_GETFL 4) = (1, pipe_flags0)
   \<and> pipe_fcntl pipe_flags0 (F_SETFL 4 (1 OR O_NONBLOCK)) = (0, pipe_flags0(4 := 2049))
   \<and> pipe_fcntl (pipe_flags0(4 := 2049)) (F_GETFL 3) = (0, pipe_flags0(4 := 2049))
   \<and> pipe_fcntl (pipe_flags0(4 := 2049)) (F_SETFL 3 (1 OR O_NONBLOCK))
       = (0, pipe_flags0(4 := 2049, 3 := 2049))
   \<and> pgm_set_nonblocking pipe_fcntl pipe_flags0 (3, 4)
       = (0, [F_GETFL 4, F_SETFL 4 2049, F_GETFL 3, F_SETFL 3 2049],
          pipe_flags0(4 := 2049, 3 := 2049))
   \<and> pgm_set_nonblocking
         (\<lambda>s c. if c = F_GETFL 3 then (- 1, snd (pipe_fcntl s c)) else pipe_fcntl s c)
         pipe_flags0 (3, 4)
       = (0, [F_GETFL 4, F_SETFL 4 2049, F_GETFL 3, F_SETFL 3 2049],
          pipe_flags0(4 := 2049, 3 := 2049))"
proof -
  have w: "(1::int) OR O_NONBLOCK = 2049"
    by (simp add: O_NONBLOCK_def)
  have c1: "pipe_fcntl pipe_flags0 (F_GETFL 4) = (1, pipe_flags0)"
    by (simp add: pipe_fcntl_def pipe_flags0_def)
  have c2: "pipe_fcntl pipe_flags0 (F_SETFL 4 (1 OR O_NONBLOCK)) = (0, pipe_flags0(4 := 2049))"
    by (simp add: pipe_fcntl_def w)
  have c3: "pipe_fcntl (pipe_flags0(4 := 2049)) (F_GETFL 3) = (0, pipe_flags0(4 := 2049))"
    by (simp add: pipe_fcntl_def pipe_flags0_def)
  have c4: "pipe_fcntl (pipe_flags0(4 := 2049)) (F_SETFL 3 (1 OR O_NONBLOCK))
       = (0, pipe_flags0(4 := 2049, 3 := 2049))"
    by (simp add: pipe_fcntl_def w)
  have ok: "(0::int) \<le> 1" "(0::int) \<le> 0" by simp_all
  have ne: "(3::int) \<noteq> 4" by simp
  from pgm_set_nonblocking_applies_write_end_flags [OF c1 c2 c3 c4 ok(1) ok(2) ok(2) ne,
      where x = "- 1"]
  show ?thesis
    using c1 c2 c3 c4 unfolding w by blast
qed

section \<open>Theorems: back-off interval\<close>

lemma nak_rb_ivl_range:
  assumes "2 \<le> unat (nak_bo_ivl t)"
  shows "1 \<le> unat (fst (nak_rb_ivl t)) \<and> unat (fst (nak_rb_ivl t)) < unat (nak_bo_ivl t)"
proof (cases "1 < sint (nak_bo_ivl t)")
  case True
  let ?n = "nak_bo_ivl t"
  let ?r = "g_rand_int_range (shd (grand t)) 1 (sint ?n)"
  have lt: "sint ?n < 2 ^ 31" using sint_lt [of ?n] by simp
  have su: "uint ?n = sint ?n"
    using True lt by (simp add: uint_sint take_bit_int_eq_self)
  have r1: "1 \<le> ?r" using True by (simp add: g_rand_int_range_def)
  have m: "int (shd (grand t)) mod (sint ?n - 1) < sint ?n - 1"
    using True by (intro pos_mod_bound) simp
  have e: "?r = 1 + int (shd (grand t)) mod (sint ?n - 1)"
    using True by (simp add: g_rand_int_range_def)
  have r2: "?r < sint ?n" unfolding e using m by linarith
  have "uint (word_of_int ?r :: 32 word) = ?r"
    using r1 r2 lt by (simp add: uint_word_of_int_eq take_bit_int_eq_self)
  then have a: "unat (word_of_int ?r :: 32 word) = nat ?r"
    by (simp add: unat_eq_nat_uint)
  have b: "unat ?n = nat (sint ?n)"
    using su by (simp add: unat_eq_nat_uint)
  have "1 \<le> nat ?r \<and> nat ?r < nat (sint ?n)"
    using r1 r2 by linarith
  then show ?thesis
    unfolding nak_rb_ivl_def fst_conv a b .
next
  case False
  then have "g_rand_int_range (shd (grand t)) 1 (sint (nak_bo_ivl t)) = 1"
    by (simp add: g_rand_int_range_def)
  then show ?thesis using assms by (simp add: nak_rb_ivl_def)
qed

lemma nak_rb_expiry_at_range:
  assumes "2 \<le> unat (nak_bo_ivl t)"
  shows "now < fst (nak_rb_expiry_at now t)"
    and "fst (nak_rb_expiry_at now t) < now + unat (nak_bo_ivl t)"
  using nak_rb_ivl_range [OF assms] by (simp_all add: nak_rb_expiry_at_def)

section \<open>Theorems: setters\<close>

lemma setters_with_bind_check:
  assumes "is_bound t"
  shows "pgm_transport_set_ambient_spm (Some t) v = (- EINVAL, Some t)"
    and "pgm_transport_set_peer_expiry (Some t) v = (- EINVAL, Some t)"
    and "pgm_transport_set_spmr_expiry (Some t) v = (- EINVAL, Some t)"
    and "pgm_transport_set_nak_bo_ivl (Some t) v = (- EINVAL, Some t)"
    and "pgm_transport_set_nak_rpt_ivl (Some t) v = (- EINVAL, Some t)"
    and "pgm_transport_set_nak_rdata_ivl (Some t) v = (- EINVAL, Some t)"
    and "pgm_transport_set_nak_data_retries (Some t) v = (- EINVAL, Some t)"
    and "pgm_transport_set_nak_ncf_retries (Some t) v = (- EINVAL, Some t)"
  using assms
  by (simp_all add: pgm_transport_set_ambient_spm_def pgm_transport_set_peer_expiry_def
      pgm_transport_set_spmr_expiry_def pgm_transport_set_nak_bo_ivl_def
      pgm_transport_set_nak_rpt_ivl_def pgm_transport_set_nak_rdata_ivl_def
      pgm_transport_set_nak_data_retries_def pgm_transport_set_nak_ncf_retries_def)

lemma pgm_power2_log2_4: "pgm_power2_log2 4 = 2"
  by (simp add: pgm_power2_log2_def)

text \<open>
  C6. On a bound transport \<^verbatim>\<open>pgm_transport_set_send_only\<close>,
  \<^verbatim>\<open>pgm_transport_set_recv_only\<close> and \<^verbatim>\<open>pgm_transport_set_fec\<close> (here with RS(6,4))
  return 0 and change the configuration: they have no test of \<open>is_bound\<close>, which every
  other setter has (\<open>setters_with_bind_check\<close>).
\<close>

theorem setters_without_bind_check:
  assumes "is_bound t"
  shows "pgm_transport_set_send_only (Some t) = (0, Some (t\<lparr>can_recv := False\<rparr>))
       \<and> pgm_transport_set_recv_only (Some t) p
           = (0, Some (t\<lparr>can_send := False, is_passive := p\<rparr>))
       \<and> pgm_transport_set_fec (Some t) pro ond var 6 4
           = (0, Some (t\<lparr>use_proactive_parity := pro, use_ondemand_parity := ond,
                          use_varpkt_len := var, rs_n := 6, rs_k := 4, tg_sqn_shift := 2\<rparr>))"
  by (simp add: pgm_transport_set_send_only_def pgm_transport_set_recv_only_def
      pgm_transport_set_fec_def pgm_power2_log2_4)

theorem setters_without_bind_check_witness:
  "is_bound transport0 \<and> can_recv transport0
   \<and> fst (pgm_transport_set_send_only (Some transport0)) = 0
   \<and> map_option can_recv (snd (pgm_transport_set_send_only (Some transport0))) = Some False"
proof -
  have h: "is_bound transport0" by (simp add: transport0_def)
  have c: "can_recv transport0" by (simp add: transport0_def)
  from setters_without_bind_check [OF h] h c show ?thesis by simp
qed

section \<open>Theorems: descriptors\<close>

lemma router_alert_sends:
  shows "wire (snd (send_spm_unlocked os t))
           = wire t @ [Sendto SEND_WITH_ROUTER_ALERT_SOCK True
               ((spm_packet t)\<lparr>pgm_body := Spm_body (spm_sqn t)\<rparr>) (send_smr_multiaddr t)]"
    and "wire (fst (snd (send_nak os (t, peer) sqn)))
           = wire t @ [Sendto SEND_WITH_ROUTER_ALERT_SOCK False
               \<lparr>pgm_sport = dport t, pgm_dport = peer_sport peer, pgm_type = PGM_NAK,
                pgm_options = 0, pgm_body = Nak_body sqn (nla peer) (group_nla peer) []\<rparr>
               (nla peer)]"
    and "wire (fst (snd (send_parity_nak os (t, peer) tg cnt)))
           = wire t @ [Sendto SEND_WITH_ROUTER_ALERT_SOCK False
               \<lparr>pgm_sport = dport t, pgm_dport = peer_sport peer, pgm_type = PGM_NAK,
                pgm_options = PGM_OPT_PARITY,
                pgm_body = Nak_body (tg OR (cnt - 1)) (nla peer) (group_nla peer) []\<rparr>
               (nla peer)]"
    and "wire (snd (send_ncf os t src grp sqn par))
           = wire t @ [Sendto SEND_WITH_ROUTER_ALERT_SOCK False
               \<lparr>pgm_sport = tsi_sport t, pgm_dport = dport t, pgm_type = PGM_NCF,
                pgm_options = (if par then PGM_OPT_PARITY else 0),
                pgm_body = Nak_body sqn src grp []\<rparr>
               (send_smr_multiaddr t)]"
  by (simp_all add: send_spm_unlocked_def send_nak_def send_parity_nak_def send_ncf_def
      pgm_sendto_def Let_def split: prod.split)

lemma plain_sends:
  shows "wire (fst (snd (send_spmr os (t, peer))))
           = wire t @ [Sendto SEND_SOCK False
               \<lparr>pgm_sport = dport t, pgm_dport = peer_sport peer, pgm_type = PGM_SPMR,
                pgm_options = 0, pgm_body = No_body\<rparr> (send_smr_multiaddr t),
              Sendto SEND_SOCK False
               \<lparr>pgm_sport = dport t, pgm_dport = peer_sport peer, pgm_type = PGM_SPMR,
                pgm_options = 0, pgm_body = No_body\<rparr> (local_nla peer)]"
  by (simp add: send_spmr_def pgm_sendto_def Let_def split: prod.split)

text \<open>
  C7. \<^verbatim>\<open>send_nak_list\<close>, called with a list of 2 to 63 sequence numbers, hands its NAK
  (type \<^verbatim>\<open>PGM_NAK\<close>, options \<^verbatim>\<open>PGM_OPT_PRESENT | PGM_OPT_NETWORK\<close>, the list in
  \<^verbatim>\<open>OPT_NAK_LIST\<close>) to the plain descriptor \<^verbatim>\<open>send_sock\<close>, not to the router-alert
  descriptor that \<^verbatim>\<open>send_nak\<close> and \<^verbatim>\<open>send_parity_nak\<close> use (\<open>router_alert_sends\<close>).
\<close>

theorem send_nak_list_on_plain_descriptor:
  assumes "1 < length sqn_list" and "length sqn_list \<le> 63"
  shows "\<exists>r t' peer'.
           send_nak_list os (t, peer) sqn_list = Some (r, t', peer')
         \<and> wire t' = wire t @ [Sendto SEND_SOCK False
               \<lparr>pgm_sport = dport t, pgm_dport = peer_sport peer, pgm_type = PGM_NAK,
                pgm_options = PGM_OPT_PRESENT OR PGM_OPT_NETWORK,
                pgm_body = Nak_body (hd sqn_list) (nla peer) (group_nla peer) (tl sqn_list)\<rparr>
               (nla peer)]"
  using assms by (simp add: send_nak_list_def pgm_sendto_def Let_def)

theorem send_nak_list_on_plain_descriptor_witness:
  "1 < length [5, 7, 9 :: guint32] \<and> length [5, 7, 9 :: guint32] \<le> 63
   \<and> (\<exists>r t' peer'.
         send_nak_list (\<lambda>w. All_written) (transport0, peer0) [5, 7, 9] = Some (r, t', peer')
       \<and> wire t' = [Sendto SEND_SOCK False
             \<lparr>pgm_sport = 7500, pgm_dport = 2000, pgm_type = PGM_NAK,
              pgm_options = 3, pgm_body = Nak_body 5 addr_peer addr_grp [7, 9]\<rparr>
             addr_peer])"
proof -
  have a: "1 < length [5, 7, 9 :: guint32]" and b: "length [5, 7, 9 :: guint32] \<le> 63"
    by simp_all
  have o: "PGM_OPT_PRESENT OR PGM_OPT_NETWORK = 3"
    by (simp add: PGM_OPT_PRESENT_def PGM_OPT_NETWORK_def)
  from send_nak_list_on_plain_descriptor [OF a b, of "\<lambda>w. All_written" transport0 peer0]
  show ?thesis
    by (simp add: o transport0_def peer0_def)
qed

section \<open>Theorems: pgm_timer_prepare\<close>

lemma fold_min_Min: "fold min xs (e::nat) = Min (set (e # xs))"
  by (rule Min.set_eq_fold [symmetric])

lemma fold_min_append: "fold min (xs @ ys) (e::nat) = fold min ys (fold min xs e)"
  by simp

lemma min_nak_expiry_peer_fold:
  "min_nak_expiry_peer peer e = fold min (peer_deadlines peer) e"
  by (auto simp: min_nak_expiry_peer_def peer_deadlines_def pgm_time_after_eq_def Let_def
      min_def split: list.splits)

lemma min_nak_expiry_fold:
  "min_nak_expiry e ps = fold min (concat (map peer_deadlines ps)) e"
  unfolding min_nak_expiry_def
  by (induction ps arbitrary: e) (simp_all add: min_nak_expiry_peer_fold)

lemma prepare_expiration:
  "fst (snd (snd (pgm_timer_prepare (t, ps)))) = Min (set (timer_deadlines (shd (clock t)) t ps))"
proof -
  have "fst (snd (snd (pgm_timer_prepare (t, ps))))
      = fold min (tl (timer_deadlines (shd (clock t)) t ps)) (hd (timer_deadlines (shd (clock t)) t ps))"
    by (simp add: pgm_timer_prepare_def pgm_time_update_now_def timer_deadlines_def Let_def
        min_nak_expiry_fold min.commute)
  also have "\<dots> = Min (set (timer_deadlines (shd (clock t)) t ps))"
  proof -
    have ne: "timer_deadlines (shd (clock t)) t ps \<noteq> []"
      by (simp add: timer_deadlines_def)
    show ?thesis
    proof (cases "timer_deadlines (shd (clock t)) t ps")
      case Nil
      with ne show ?thesis by simp
    next
      case (Cons d ds)
      then show ?thesis by (simp only: fold_min_Min list.sel)
    qed
  qed
  finally show ?thesis .
qed

lemma prepare_timeout:
  "fst (snd (pgm_timer_prepare (t, ps)))
     = (let m = pgm_to_msecs (int (fst (snd (snd (pgm_timer_prepare (t, ps))))) - int (shd (clock t)))
        in if m < 0 then 0 else min G_MAXINT (m mod 2 ^ 32))"
  by (simp add: pgm_timer_prepare_def pgm_time_update_now_def Let_def)

lemma prepare_rest:
  "next_poll (snd (snd (snd (pgm_timer_prepare (t, ps))))) = fst (snd (snd (pgm_timer_prepare (t, ps))))"
  "fst (pgm_timer_prepare (t, ps)) = (fst (snd (pgm_timer_prepare (t, ps))) = 0)"
  by (simp_all add: pgm_timer_prepare_def pgm_time_update_now_def Let_def)

lemma clamp_range:
  "0 \<le> (let m = pgm_to_msecs d in if m < 0 then 0 else min G_MAXINT (m mod 2 ^ 32))"
  "(let m = pgm_to_msecs d in if m < 0 then 0 else min G_MAXINT (m mod 2 ^ 32)) \<le> G_MAXINT"
  by (simp_all add: Let_def G_MAXINT_def)

lemma clamp_past:
  "d \<le> 0 \<Longrightarrow> (let m = pgm_to_msecs d in if m < 0 then 0 else min G_MAXINT (m mod 2 ^ 32)) = 0"
  by (auto simp: Let_def pgm_to_msecs_def G_MAXINT_def)

lemma clamp_value:
  "0 \<le> d \<Longrightarrow> d div 1000 \<le> 2147483647 \<Longrightarrow>
   (let m = pgm_to_msecs d in if m < 0 then 0 else min G_MAXINT (m mod 2 ^ 32)) = d div 1000"
proof -
  assume a: "0 \<le> d" and b: "d div 1000 \<le> 2147483647"
  have c: "0 \<le> d div 1000" using a by simp
  have "(d div 1000) mod 2 ^ 32 = d div 1000"
    using b c by (simp add: mod_pos_pos_trivial)
  then show ?thesis using a b c by (simp add: Let_def pgm_to_msecs_def G_MAXINT_def)
qed

lemma clamp_le:
  "d \<le> 30000000 \<Longrightarrow>
   (let m = pgm_to_msecs d in if m < 0 then 0 else min G_MAXINT (m mod 2 ^ 32)) \<le> 30000"
proof (cases "0 \<le> d")
  case True
  assume "d \<le> 30000000"
  then have "d div 1000 \<le> 30000" by simp
  with clamp_value [OF True] show ?thesis by simp
next
  case False
  then have "d \<le> 0" by simp
  from clamp_past [OF this] show ?thesis by simp
qed

text \<open>
  C9 (amended). \<^verbatim>\<open>pgm_timer_prepare\<close> reads the clock and takes as expiration the
  minimum of the timer's deadlines: for a transport that can send, \<open>next_ambient_spm\<close>
  and, when the heartbeat is armed, \<open>next_heartbeat_spm\<close>, and otherwise now plus 30
  seconds; for a transport that can receive, also each peer's \<open>spmr_expiry\<close> (when set)
  and the expiry of the tail of each non-empty queue. It stores the expiration in
  \<open>next_poll\<close>. The delay it gives is in milliseconds, between 0 and \<^verbatim>\<open>G_MAXINT\<close>; it
  is 0 when the expiration has been reached, and then the function returns true; it is
  the distance to the expiration in whole milliseconds when that is at most
  \<^verbatim>\<open>G_MAXINT\<close>; it is at most 30 seconds when the transport cannot send.
\<close>

theorem pgm_timer_prepare_deadline_and_delay:
  "expiration = fst (snd (snd (pgm_timer_prepare (t, ps)))) \<and>
   timeout = fst (snd (pgm_timer_prepare (t, ps))) \<and>
   now = shd (clock t)
   \<longrightarrow>
     expiration = Min (set (timer_deadlines now t ps))
   \<and> next_poll (snd (snd (snd (pgm_timer_prepare (t, ps))))) = expiration
   \<and> 0 \<le> timeout \<and> timeout \<le> G_MAXINT
   \<and> fst (pgm_timer_prepare (t, ps)) = (timeout = 0)
   \<and> (expiration \<le> now \<longrightarrow> timeout = 0)
   \<and> (now \<le> expiration \<and> (expiration - now) div 1000 \<le> 2147483647
        \<longrightarrow> timeout = int ((expiration - now) div 1000))
   \<and> (\<not> can_send t \<longrightarrow> timeout \<le> 30000)"
proof (intro impI, elim conjE)
  assume e: "expiration = fst (snd (snd (pgm_timer_prepare (t, ps))))"
    and m: "timeout = fst (snd (pgm_timer_prepare (t, ps)))"
    and n: "now = shd (clock t)"
  let ?d = "int expiration - int now"
  have tm: "timeout = (let m = pgm_to_msecs ?d in if m < 0 then 0 else min G_MAXINT (m mod 2 ^ 32))"
    unfolding m e n by (rule prepare_timeout)
  have p1: "expiration = Min (set (timer_deadlines now t ps))"
    unfolding e n by (rule prepare_expiration)
  have p2: "next_poll (snd (snd (snd (pgm_timer_prepare (t, ps))))) = expiration"
    unfolding e by (rule prepare_rest)
  have p3: "0 \<le> timeout" "timeout \<le> G_MAXINT"
    unfolding tm by (rule clamp_range)+
  have p4: "fst (pgm_timer_prepare (t, ps)) = (timeout = 0)"
    unfolding m by (rule prepare_rest)
  have p5: "expiration \<le> now \<longrightarrow> timeout = 0"
    unfolding tm by (auto intro: clamp_past)
  have p6: "now \<le> expiration \<and> (expiration - now) div 1000 \<le> 2147483647
        \<longrightarrow> timeout = int ((expiration - now) div 1000)"
  proof (intro impI, elim conjE)
    assume a: "now \<le> expiration" and b: "(expiration - now) div 1000 \<le> 2147483647"
    have d: "?d = int (expiration - now)" using a by simp
    have "?d div 1000 = int ((expiration - now) div 1000)"
      unfolding d by (simp add: zdiv_int)
    moreover have "0 \<le> ?d" using a by simp
    moreover have "?d div 1000 \<le> 2147483647" unfolding d using b by (simp flip: zdiv_int)
    ultimately show "timeout = int ((expiration - now) div 1000)"
      unfolding tm using clamp_value [of ?d] by simp
  qed
  have p7: "\<not> can_send t \<longrightarrow> timeout \<le> 30000"
  proof
    assume ns: "\<not> can_send t"
    have "now + pgm_secs 30 \<in> set (timer_deadlines now t ps)"
      using ns by (simp add: timer_deadlines_def)
    then have "expiration \<le> now + pgm_secs 30"
      unfolding p1 by (intro Min_le) simp_all
    then have "?d \<le> 30000000" by (simp add: pgm_secs_def)
    from clamp_le [OF this] show "timeout \<le> 30000" unfolding tm .
  qed
  show "expiration = Min (set (timer_deadlines now t ps))
   \<and> next_poll (snd (snd (snd (pgm_timer_prepare (t, ps))))) = expiration
   \<and> 0 \<le> timeout \<and> timeout \<le> G_MAXINT
   \<and> fst (pgm_timer_prepare (t, ps)) = (timeout = 0)
   \<and> (expiration \<le> now \<longrightarrow> timeout = 0)
   \<and> (now \<le> expiration \<and> (expiration - now) div 1000 \<le> 2147483647
        \<longrightarrow> timeout = int ((expiration - now) div 1000))
   \<and> (\<not> can_send t \<longrightarrow> timeout \<le> 30000)"
    using p1 p2 p3 p4 p5 p6 p7 by blast
qed

theorem pgm_timer_prepare_deadline_and_delay_witness:
  "fst (snd (snd (pgm_timer_prepare (transport0\<lparr>can_send := False\<rparr>, [peer_backoff])))) = 1004000
   \<and> fst (snd (pgm_timer_prepare (transport0\<lparr>can_send := False\<rparr>, [peer_backoff]))) = 4
   \<and> Min (set (timer_deadlines 1000000 (transport0\<lparr>can_send := False\<rparr>) [peer_backoff]))
       = 1004000
   \<and> \<not> can_send (transport0\<lparr>can_send := False\<rparr>)
   \<and> fst (snd (pgm_timer_prepare (transport0\<lparr>can_send := False\<rparr>, [peer_backoff]))) \<le> 30000"
proof -
  let ?t = "transport0\<lparr>can_send := False\<rparr>"
  have r: "pgm_timer_prepare (?t, [peer_backoff])
             = (False, 4, 1004000, ?t\<lparr>next_poll := 1004000\<rparr>)"
    by (simp add: pgm_timer_prepare_def pgm_time_update_now_def transport0_def Let_def
        min_nak_expiry_def min_nak_expiry_peer_def peer_backoff_def peer0_def rxw0_def
        entry_def pgm_time_after_eq_def pgm_to_msecs_def G_MAXINT_def pgm_secs_def)
  have c: "shd (clock ?t) = 1000000" by (simp add: transport0_def)
  from pgm_timer_prepare_deadline_and_delay
         [of 1004000 ?t "[peer_backoff]" 4 1000000] r c
  show ?thesis by simp
qed

lemma prep0: "pgm_timer_prepare (transport0, []) = (False, 59000, 60000000, transport0\<lparr>next_poll := 60000000\<rparr>)"
  by (simp add: pgm_timer_prepare_def pgm_time_update_now_def transport0_def Let_def
      min_nak_expiry_def pgm_to_msecs_def G_MAXINT_def pgm_secs_def)

text \<open>
  C9, as stated, fails: a sender whose next ambient SPM is 59 seconds away and whose
  heartbeat is not armed gets a delay of 59000 ms, above 30 seconds.
\<close>

theorem pgm_timer_prepare_delay_over_30s:
  "\<not> fst (snd (pgm_timer_prepare (transport0, []))) \<le> 30000"
  by (simp add: prep0)

section \<open>Theorems: the SPM schedule\<close>

subsection \<open>The receiver state machine returns and sends no SPM\<close>


lemma rf_iff:
  "receiver_frame t t' \<longleftrightarrow>
     spm_schedule t' = spm_schedule t
     \<and> (\<exists>w. wire t' = wire t @ w \<and> list_all (\<lambda>e. \<not> is_spm_event e) w)"
proof
  assume r: "receiver_frame t t'"
  then have "wire t' = wire t @ drop (length (wire t)) (wire t')"
    unfolding receiver_frame_def by (metis append_take_drop_id)
  with r show "spm_schedule t' = spm_schedule t
     \<and> (\<exists>w. wire t' = wire t @ w \<and> list_all (\<lambda>e. \<not> is_spm_event e) w)"
    unfolding receiver_frame_def by blast
next
  assume "spm_schedule t' = spm_schedule t
     \<and> (\<exists>w. wire t' = wire t @ w \<and> list_all (\<lambda>e. \<not> is_spm_event e) w)"
  then show "receiver_frame t t'"
    unfolding receiver_frame_def by auto
qed

lemma rf_refl [simp]: "receiver_frame t t"
  by (simp add: rf_iff)

lemma rf_trans: "receiver_frame a b \<Longrightarrow> receiver_frame b c \<Longrightarrow> receiver_frame a c"
  unfolding rf_iff by auto

lemma rf_eqI:
  "spm_schedule t' = spm_schedule t \<Longrightarrow> wire t' = wire t \<Longrightarrow> receiver_frame t t'"
  by (simp add: rf_iff)

lemma rf_mark_for_flush: "receiver_frame (fst s) (fst (mark_for_flush s))"
  by (simp add: rf_iff mark_for_flush_def Let_def spm_schedule_def)

lemma rf_lost_no_nla: "receiver_frame (fst s) (fst (lost_no_nla rp s))"
  using rf_mark_for_flush [of "(fst s, (snd s)\<lparr>rxw := pgm_rxw_mark_lost (rxw (snd s)) rp\<rparr>)"]
  by (simp add: lost_no_nla_def)

lemma rf_nak_rb_expiry_at: "receiver_frame t (snd (nak_rb_expiry_at now t))"
  by (simp add: rf_iff nak_rb_expiry_at_def nak_rb_ivl_def spm_schedule_def)

lemma rf_nak_rpt_step: "receiver_frame (fst s) (fst (nak_rpt_step rp s))"
  by (simp add: rf_iff nak_rpt_step_def mark_for_flush_def Let_def spm_schedule_def
      nak_rb_expiry_at_def nak_rb_ivl_def)

lemma rf_nak_rdata_step: "receiver_frame (fst s) (fst (nak_rdata_step rp s))"
  by (simp add: rf_iff nak_rdata_step_def mark_for_flush_def Let_def spm_schedule_def
      nak_rb_expiry_at_def nak_rb_ivl_def)

lemma rf_nak_rpt_loop: "receiver_frame (fst s) (fst (nak_rpt_loop v q s))"
proof (induction q arbitrary: s)
  case Nil
  show ?case by simp
next
  case (Cons rp prev)
  have a: "receiver_frame (fst s) (fst (nak_rpt_loop v prev (lost_no_nla rp s)))"
    by (rule rf_trans [OF rf_lost_no_nla Cons.IH])
  have b: "receiver_frame (fst s) (fst (nak_rpt_loop v prev (nak_rpt_step rp s)))"
    by (rule rf_trans [OF rf_nak_rpt_step Cons.IH])
  show ?case using a b by (cases v) simp_all
qed

lemma rf_nak_rdata_loop: "receiver_frame (fst s) (fst (nak_rdata_loop v q s))"
proof (induction q arbitrary: s)
  case Nil
  show ?case by simp
next
  case (Cons rp prev)
  have a: "receiver_frame (fst s) (fst (nak_rdata_loop v prev (lost_no_nla rp s)))"
    by (rule rf_trans [OF rf_lost_no_nla Cons.IH])
  have b: "receiver_frame (fst s) (fst (nak_rdata_loop v prev (nak_rdata_step rp s)))"
    by (rule rf_trans [OF rf_nak_rdata_step Cons.IH])
  show ?case using a b by (cases v) simp_all
qed

lemma rf_nak_rpt_state: "receiver_frame (fst s) (fst (nak_rpt_state s))"
  by (simp add: nak_rpt_state_def rf_nak_rpt_loop)

lemma rf_nak_rdata_state: "receiver_frame (fst s) (fst (nak_rdata_state s))"
  by (simp add: nak_rdata_state_def rf_nak_rdata_loop)

lemma to_wait_ncf_fst [simp]: "fst (to_wait_ncf rp s) = fst s"
  by (simp add: to_wait_ncf_def Let_def)

lemma rf_parity_loop:
  "receiver_frame (fst s) (fst (snd (snd (nak_rb_parity_loop v m c q tg cnt s))))"
proof (induction q arbitrary: s tg cnt)
  case Nil
  show ?case by simp
next
  case (Cons rp prev)
  have a: "receiver_frame (fst s)
      (fst (snd (snd (nak_rb_parity_loop v m c prev tg cnt (lost_no_nla rp s)))))"
    by (rule rf_trans [OF rf_lost_no_nla Cons.IH])
  have b: "receiver_frame (fst s)
      (fst (snd (snd (nak_rb_parity_loop v m c prev tg' cnt' (to_wait_ncf rp s)))))" for tg' cnt'
    using Cons.IH [of "to_wait_ncf rp s" tg' cnt'] by simp
  show ?case using a b by (cases v) (simp_all add: Let_def)
qed

lemma rf_send_nak: "receiver_frame (fst s) (fst (snd (send_nak os s sqn)))"
  by (simp add: rf_iff send_nak_def pgm_sendto_def Let_def spm_schedule_def is_spm_event_def
      split: prod.split)

lemma rf_send_parity_nak: "receiver_frame (fst s) (fst (snd (send_parity_nak os s tg cnt)))"
  by (simp add: rf_iff send_parity_nak_def pgm_sendto_def Let_def spm_schedule_def
      is_spm_event_def split: prod.split)

lemma rf_send_spmr: "receiver_frame (fst s) (fst (snd (send_spmr os s)))"
  by (simp add: rf_iff send_spmr_def pgm_sendto_def Let_def spm_schedule_def
      is_spm_event_def split: prod.split)

lemma send_nak_list_Some:
  "1 < length l \<Longrightarrow> length l \<le> 63 \<Longrightarrow>
   (case send_nak_list os s l of None \<Rightarrow> False
    | Some r \<Rightarrow> receiver_frame (fst s) (fst (snd r)))"
  by (simp add: rf_iff send_nak_list_def pgm_sendto_def Let_def spm_schedule_def
      is_spm_event_def split: prod.split)

lemma rf_update_now: "receiver_frame t (snd (pgm_time_update_now t))"
  by (simp add: rf_iff pgm_time_update_now_def spm_schedule_def)

lemma select_loop_total:
  "length nl < 63 \<Longrightarrow>
   (case nak_rb_select_loop os v q nl s of None \<Rightarrow> False
    | Some r \<Rightarrow> length (fst r) < 63 \<and> receiver_frame (fst s) (fst (snd r)))"
proof (induction q arbitrary: nl s)
  case Nil
  then show ?case by simp
next
  case (Cons rp prev)
  let ?nl1 = "nl @ [sequence_number rp]"
  let ?s1 = "to_wait_ncf rp s"
  let ?x = "(if \<not> is_passive (fst ?s1)
             then map_option snd (send_nak_list os ?s1 ?nl1) else Some ?s1)"
  have a: "case nak_rb_select_loop os v prev nl (lost_no_nla rp s) of None \<Rightarrow> False
           | Some r \<Rightarrow> length (fst r) < 63 \<and> receiver_frame (fst s) (fst (snd r))"
    using Cons.IH [OF Cons.prems, where s = "lost_no_nla rp s"]
    by (auto split: option.splits intro: rf_trans [OF rf_lost_no_nla])
  have b: "case nak_rb_select_loop os v prev ?nl1 ?s1 of None \<Rightarrow> False
           | Some r \<Rightarrow> length (fst r) < 63 \<and> receiver_frame (fst s) (fst (snd r))"
    if "length ?nl1 < 63"
    using Cons.IH [OF that, where s = ?s1] by (auto split: option.splits)
  have c: "case ?x of None \<Rightarrow> False
           | Some s2 \<Rightarrow>
               (case nak_rb_select_loop os v prev []
                       (snd (pgm_time_update_now (fst s2)), snd s2) of None \<Rightarrow> False
                | Some r \<Rightarrow> length (fst r) < 63 \<and> receiver_frame (fst s) (fst (snd r)))"
    if full: "length ?nl1 = 63"
  proof -
    have l1: "1 < length ?nl1" and l2: "length ?nl1 \<le> 63" using full by simp_all
    have x: "case ?x of None \<Rightarrow> False | Some s2 \<Rightarrow> receiver_frame (fst s) (fst s2)"
      using send_nak_list_Some [OF l1 l2, where os = os and s = ?s1]
      by (cases "is_passive (fst ?s1)") (auto split: option.splits)
    then obtain s2 where e: "?x = Some s2" and f2: "receiver_frame (fst s) (fst s2)"
      by (cases ?x) auto
    have f3: "receiver_frame (fst s) (snd (pgm_time_update_now (fst s2)))"
      by (rule rf_trans [OF f2 rf_update_now])
    have "length ([] :: guint32 list) < 63" by simp
    from Cons.IH [OF this, where s = "(snd (pgm_time_update_now (fst s2)), snd s2)"] f3
    have "case nak_rb_select_loop os v prev []
                 (snd (pgm_time_update_now (fst s2)), snd s2) of None \<Rightarrow> False
          | Some r \<Rightarrow> length (fst r) < 63 \<and> receiver_frame (fst s) (fst (snd r))"
      by (auto split: option.splits intro: rf_trans)
    then show ?thesis unfolding e by simp
  qed
  show ?case
  proof (cases "pgm_time_after_eq (pgm_time_now (fst s)) (nak_rb_expiry rp)")
    case False
    with Cons.prems show ?thesis by simp
  next
    case exp: True
    show ?thesis
    proof (cases v)
      case False
      with a exp show ?thesis by simp
    next
      case v: True
      show ?thesis
      proof (cases "length ?nl1 = 63")
        case False
        with Cons.prems have "length ?nl1 < 63" by simp
        from b [OF this] exp v False Cons.prems show ?thesis by (simp add: Let_def)
      next
        case True
        have eq: "nak_rb_select_loop os v (rp # prev) nl s =
            (case ?x of None \<Rightarrow> None
             | Some s2 \<Rightarrow> nak_rb_select_loop os v prev []
                          (snd (pgm_time_update_now (fst s2)), snd s2))"
          using exp True Cons.prems unfolding eqTrueI [OF v] by (simp add: Let_def)
        from c [OF True] obtain s2 where e: "?x = Some s2"
          and c2: "case nak_rb_select_loop os v prev []
                       (snd (pgm_time_update_now (fst s2)), snd s2) of None \<Rightarrow> False
                   | Some r \<Rightarrow> length (fst r) < 63 \<and> receiver_frame (fst s) (fst (snd r))"
          by (cases ?x) auto
        show ?thesis unfolding eq e using c2 by simp
      qed
    qed
  qed
qed

lemma nak_rb_state_total:
  "(case nak_rb_state os s of None \<Rightarrow> False | Some s' \<Rightarrow> receiver_frame (fst s) (fst s'))"
proof (cases "backoff_queue (rxw (snd s)) = []")
  case True
  then show ?thesis by (simp add: nak_rb_state_def Let_def)
next
  case ne: False
  show ?thesis
  proof (cases "peer_use_ondemand_parity (snd s)")
    case True
    let ?res = "nak_rb_parity_loop (is_valid_nla (snd s))
        (push_bit (unat (peer_tg_sqn_shift (snd s))) (0xffffffff :: guint32))
        (lead (rxw (snd s)) AND push_bit (unat (peer_tg_sqn_shift (snd s))) (0xffffffff :: guint32))
        (backoff_queue (rxw (snd s))) 0 0 s"
    have f: "receiver_frame (fst s) (fst (snd (snd ?res)))" by (rule rf_parity_loop)
    have g: "receiver_frame (fst s) (fst (snd (send_parity_nak os (snd (snd ?res)) tg cnt)))" for tg cnt
      by (rule rf_trans [OF f rf_send_parity_nak])
    have "nak_rb_state os s =
        (if fst (snd ?res) \<noteq> 0
         then Some (snd (send_parity_nak os (snd (snd ?res)) (fst ?res) (fst (snd ?res))))
         else Some (snd (snd ?res)))"
      using ne True by (simp add: nak_rb_state_def Let_def)
    with f g show ?thesis by (cases "fst (snd ?res) \<noteq> 0") (simp_all del: nak_rb_parity_loop.simps)
  next
    case np: False
    let ?r = "nak_rb_select_loop os (is_valid_nla (snd s)) (backoff_queue (rxw (snd s))) [] s"
    have "length ([] :: guint32 list) < 63" by simp
    from select_loop_total [OF this, where os = os and v = "is_valid_nla (snd s)" and q = "backoff_queue (rxw (snd s))" and s = s]
    obtain r where r: "?r = Some r" and l: "length (fst r) < 63"
      and f: "receiver_frame (fst s) (fst (snd r))"
      by (cases ?r) auto
    have e: "nak_rb_state os s =
       (if \<not> is_passive (fst (snd r)) \<and> fst r \<noteq> [] then
          (if 1 < length (fst r)
           then map_option snd (send_nak_list os (snd r) (fst r))
           else Some (snd (send_nak os (snd r) (hd (fst r)))))
        else Some (snd r))"
      using ne np r by (simp add: nak_rb_state_def Let_def split: prod.split)
    have g1: "receiver_frame (fst s) (fst (snd (send_nak os (snd r) x)))" for x
      by (rule rf_trans [OF f rf_send_nak])
    have g2: "case map_option snd (send_nak_list os (snd r) (fst r)) of None \<Rightarrow> False
              | Some s' \<Rightarrow> receiver_frame (fst s) (fst s')" if "1 < length (fst r)"
      using send_nak_list_Some [OF that, where os = os and s = "snd r"] l f
      by (auto split: option.splits intro: rf_trans)
    show ?thesis unfolding e using f g1 g2 by simp
  qed
qed

lemma check_peer_total:
  "(case check_peer os t peer of None \<Rightarrow> False | Some r \<Rightarrow> receiver_frame t (fst r))"
proof -
  let ?s1 = "(if peer_spmr_expiry peer \<noteq> 0
                \<and> pgm_time_after_eq (pgm_time_now t) (peer_spmr_expiry peer)
             then (if is_passive t then (t, peer\<lparr>peer_spmr_expiry := 0\<rparr>)
                   else snd (send_spmr os (t, peer)))
             else (t, peer))"
  have f1: "receiver_frame t (fst ?s1)"
    using rf_send_spmr [of "(t, peer)" os] by simp
  let ?r2 = "(case backoff_queue (rxw (snd ?s1)) of
               [] \<Rightarrow> Some ?s1
             | rp # prev \<Rightarrow>
                 if pgm_time_after_eq (pgm_time_now (fst ?s1)) (nak_rb_expiry rp)
                 then nak_rb_state os ?s1 else Some ?s1)"
  have "case ?r2 of None \<Rightarrow> False | Some s2 \<Rightarrow> receiver_frame (fst ?s1) (fst s2)"
  proof (cases "backoff_queue (rxw (snd ?s1))")
    case Nil
    then show ?thesis by (simp only: list.case option.case rf_refl)
  next
    case (Cons rp prev)
    show ?thesis
    proof (cases "pgm_time_after_eq (pgm_time_now (fst ?s1)) (nak_rb_expiry rp)")
      case True
      with Cons nak_rb_state_total [where os = os and s = ?s1] show ?thesis by (simp only: list.case if_True)
    next
      case False
      with Cons show ?thesis by (simp only: list.case if_False option.case rf_refl)
    qed
  qed
  then obtain s2 where r2: "?r2 = Some s2" and f2: "receiver_frame (fst ?s1) (fst s2)"
    by (cases ?r2) auto
  let ?s3 = "(case wait_ncf_queue (rxw (snd s2)) of
                      [] \<Rightarrow> s2
                    | rp # prev \<Rightarrow>
                        if pgm_time_after_eq (pgm_time_now (fst s2)) (nak_rpt_expiry rp)
                        then nak_rpt_state s2 else s2)"
  have f3: "receiver_frame (fst s2) (fst ?s3)"
    using rf_nak_rpt_state [of s2] by (simp split: list.split)
  let ?s4 = "(case wait_data_queue (rxw (snd ?s3)) of
                      [] \<Rightarrow> ?s3
                    | rp # prev \<Rightarrow>
                        if pgm_time_after_eq (pgm_time_now (fst ?s3)) (nak_rdata_expiry rp)
                        then nak_rdata_state ?s3 else ?s3)"
  have f4: "receiver_frame (fst ?s3) (fst ?s4)"
    using rf_nak_rdata_state [of ?s3] by (simp split: list.split)
  have f: "receiver_frame t (fst ?s4)"
    by (rule rf_trans [OF rf_trans [OF rf_trans [OF f1 f2] f3] f4])
  have "check_peer os t peer =
      (if pgm_time_after_eq (pgm_time_now (fst ?s4)) (expiry (snd ?s4))
       then Some (fst ?s4, None) else Some (fst ?s4, Some (snd ?s4)))"
    unfolding check_peer_def Let_def r2 by simp
  with f show ?thesis by simp
qed

lemma check_peers_total:
  "(case check_peers os t ps of None \<Rightarrow> False | Some r \<Rightarrow> receiver_frame t (fst r))"
proof (induction ps arbitrary: t)
  case Nil
  show ?case by simp
next
  case (Cons p ps)
  from check_peer_total [where os = os and t = t and peer = p]
  obtain r1 where c: "check_peer os t p = Some r1" and f1: "receiver_frame t (fst r1)"
    by (cases "check_peer os t p") auto
  from Cons.IH [where t = "fst r1"]
  obtain r2 where r: "check_peers os (fst r1) ps = Some r2"
    and f2: "receiver_frame (fst r1) (fst r2)"
    by (cases "check_peers os (fst r1) ps") auto
  from c r rf_trans [OF f1 f2] show ?case by (cases r1; cases r2) auto
qed

lemma check_peer_nak_state_total:
  "(case check_peer_nak_state os (t, ps) of None \<Rightarrow> False
    | Some r \<Rightarrow> receiver_frame t (fst r))"
proof (cases "ps = []")
  case True
  then show ?thesis by (simp add: check_peer_nak_state_def)
next
  case False
  from check_peers_total [where os = os and t = t and ps = ps]
  obtain r1 where r: "check_peers os t ps = Some r1" and f: "receiver_frame t (fst r1)"
    by (cases "check_peers os t ps") auto
  have w: "receiver_frame (fst r1)
      ((snd (write_pipe os (fst r1) WAITING_PIPE))\<lparr>peers_last_waiting :=
         waiting_head (peers_waiting (snd (write_pipe os (fst r1) WAITING_PIPE)))\<rparr>)"
    by (simp add: rf_iff write_pipe_def Let_def spm_schedule_def is_spm_event_def)
  from False r f rf_trans [OF f w] show ?thesis
    by (cases r1) (auto simp: check_peer_nak_state_def Let_def)
qed

lemma rearm_heartbeat_Some:
  "1 < length (spm_heartbeat_interval t) \<Longrightarrow>
   rearm_heartbeat t
     = Some (t\<lparr>spm_heartbeat_state := 2, pgm_time_now := shd (clock t),
              clock := stl (clock t),
              next_heartbeat_spm := shd (clock t) + unat (spm_heartbeat_interval t ! 1)\<rparr>)"
  by (simp add: rearm_heartbeat_def pgm_time_update_now_def heartbeat_interval_at_def Let_def)

lemma reset_heartbeat_rearms:
  assumes "1 < length (spm_heartbeat_interval t)"
  shows "case pgm_reset_heartbeat_spm os t of
           None \<Rightarrow> False
         | Some r \<Rightarrow>
             spm_heartbeat_state (snd r) = 2
             \<and> next_heartbeat_spm (snd r)
                 = shd (clock t) + unat (spm_heartbeat_interval t ! 1)"
  using assms
  by (simp add: pgm_reset_heartbeat_spm_def rearm_heartbeat_Some write_pipe_def Let_def
      split: prod.split)

lemma send_one_rearms:
  assumes "1 < length (spm_heartbeat_interval t)" and "count \<le> max_tsdu t"
  shows "case pgm_transport_send_one_unlocked os (Some t) lead' count of
           None \<Rightarrow> False
         | Some r \<Rightarrow>
             (case snd r of None \<Rightarrow> False
              | Some t' \<Rightarrow>
                  spm_heartbeat_state t' = 2
                  \<and> next_heartbeat_spm t'
                      = shd (clock t) + unat (spm_heartbeat_interval t ! 1))"
  using assms
  by (simp add: pgm_transport_send_one_unlocked_def pgm_reset_heartbeat_spm_def
      rearm_heartbeat_Some pgm_sendto_def write_pipe_def Let_def split: prod.split)

lemma send_rdata_rearms:
  assumes "1 < length (spm_heartbeat_interval t)"
  shows "case send_rdata os t data of
           None \<Rightarrow> False
         | Some r \<Rightarrow>
             spm_heartbeat_state (snd r) = 2
             \<and> next_heartbeat_spm (snd r)
                 = shd (clock t) + unat (spm_heartbeat_interval t ! 1)"
  using assms
  by (simp add: send_rdata_def rearm_heartbeat_Some pgm_sendto_def Let_def split: prod.split)

lemma dispatch_after:
  assumes "dispatch_spm os t = Some t1"
  shows "case pgm_timer_dispatch os (t, ps) of
           None \<Rightarrow> False
         | Some r \<Rightarrow> receiver_frame t1 (fst (snd r))"
proof (cases "can_recv t1")
  case False
  with assms show ?thesis by (simp add: pgm_timer_dispatch_def)
next
  case True
  from check_peer_nak_state_total [where os = os and t = t1 and ps = ps]
  obtain r where "check_peer_nak_state os (t1, ps) = Some r" and "receiver_frame t1 (fst r)"
    by (cases "check_peer_nak_state os (t1, ps)") auto
  with assms True show ?thesis by (simp add: pgm_timer_dispatch_def)
qed

lemma send_spm_wire:
  "wire (snd (send_spm_unlocked os t))
     = wire t @ [Sendto SEND_WITH_ROUTER_ALERT_SOCK True
          ((spm_packet t)\<lparr>pgm_body := Spm_body (spm_sqn t)\<rparr>) (send_smr_multiaddr t)]"
  by (simp add: send_spm_unlocked_def pgm_sendto_def Let_def split: prod.split)

lemma send_spm_schedule:
  "spm_schedule (snd (send_spm_unlocked os t)) = spm_schedule t"
  "pgm_time_now (snd (send_spm_unlocked os t)) = pgm_time_now t"
  by (simp_all add: send_spm_unlocked_def pgm_sendto_def Let_def spm_schedule_def
      split: prod.split)

lemma rf_fields:
  assumes "receiver_frame t1 t'"
  shows "spm_heartbeat_state t' = spm_heartbeat_state t1"
    and "next_heartbeat_spm t' = next_heartbeat_spm t1"
    and "next_ambient_spm t' = next_ambient_spm t1"
    and "take (length (wire t1)) (wire t') = wire t1"
    and "list_all (\<lambda>e. \<not> is_spm_event e) (drop (length (wire t1)) (wire t'))"
  using assms by (simp_all add: receiver_frame_def spm_schedule_def)

lemma dispatch_spm_heartbeat:
  assumes "can_send t" and "spm_heartbeat_state t \<noteq> 0"
    and "next_heartbeat_spm t \<le> pgm_time_now t" and "pgm_time_now t < next_ambient_spm t"
    and "unat (spm_heartbeat_state t) < length (spm_heartbeat_interval t)"
  shows "\<exists>t1. dispatch_spm os t = Some t1
     \<and> wire t1 = wire t @ [Sendto SEND_WITH_ROUTER_ALERT_SOCK True
          ((spm_packet t)\<lparr>pgm_body := Spm_body (spm_sqn t)\<rparr>) (send_smr_multiaddr t)]
     \<and> next_ambient_spm t1 = next_ambient_spm t
     \<and> (if spm_heartbeat_interval t ! unat (spm_heartbeat_state t) \<noteq> 0
         then next_heartbeat_spm t1
                = pgm_time_now t + unat (spm_heartbeat_interval t ! unat (spm_heartbeat_state t))
              \<and> spm_heartbeat_state t1 = spm_heartbeat_state t + 1
         else spm_heartbeat_state t1 = 0 \<and> next_heartbeat_spm t1 = next_heartbeat_spm t)"
proof -
  let ?t1 = "snd (send_spm_unlocked os t)"
  have s: "spm_heartbeat_state ?t1 = spm_heartbeat_state t"
      "spm_heartbeat_interval ?t1 = spm_heartbeat_interval t"
      "next_heartbeat_spm ?t1 = next_heartbeat_spm t"
      "next_ambient_spm ?t1 = next_ambient_spm t"
    using send_spm_schedule(1) [of os t] by (simp_all add: spm_schedule_def)
  show ?thesis
    using assms s send_spm_schedule(2) [of os t] send_spm_wire [of os t]
    by (simp add: dispatch_spm_def pgm_time_after_eq_def heartbeat_interval_at_def Let_def)
qed

lemma dispatch_spm_ambient:
  assumes "can_send t" and "next_ambient_spm t \<le> pgm_time_now t"
  shows "\<exists>t1. dispatch_spm os t = Some t1
     \<and> wire t1 = wire t @ [Sendto SEND_WITH_ROUTER_ALERT_SOCK True
          ((spm_packet t)\<lparr>pgm_body := Spm_body (spm_sqn t)\<rparr>) (send_smr_multiaddr t)]
     \<and> spm_heartbeat_state t1 = 0
     \<and> next_heartbeat_spm t1 = next_heartbeat_spm t
     \<and> next_ambient_spm t1 = pgm_time_now t + unat (spm_ambient_interval t)"
proof -
  let ?t1 = "snd (send_spm_unlocked os t)"
  have s: "spm_ambient_interval ?t1 = spm_ambient_interval t"
      "next_heartbeat_spm ?t1 = next_heartbeat_spm t"
    using send_spm_schedule(1) [of os t] by (simp_all add: spm_schedule_def)
  show ?thesis
    using assms s send_spm_schedule(2) [of os t] send_spm_wire [of os t]
    by (simp add: dispatch_spm_def pgm_time_after_eq_def Let_def)
qed

lemma dispatch_spm_idle:
  assumes "spm_heartbeat_state t = 0" and "pgm_time_now t < next_ambient_spm t"
  shows "dispatch_spm os t = Some t"
  using assms by (simp add: dispatch_spm_def pgm_time_after_eq_def)

lemma take_Suc_frame:
  assumes "take (length w1) w' = w1" and "w1 = w @ [e]"
  shows "take (Suc (length w)) w' = w @ [e]"
  using assms by simp

lemma drop_Suc_frame:
  assumes "w1 = w @ [e]"
  shows "drop (length w1) w' = drop (Suc (length w)) w'"
  using assms by simp





section \<open>Theorems: passive receivers\<close>

lemma nf_refl [simp]: "nak_frame s s"
  by (simp add: nak_frame_def)

lemma nf_trans: "nak_frame a b \<Longrightarrow> nak_frame b c \<Longrightarrow> nak_frame a c"
  by (simp add: nak_frame_def)

lemma nf_mark_for_flush: "nak_frame s (mark_for_flush s)"
  by (simp add: nak_frame_def mark_for_flush_def Let_def)

lemma nf_lost_no_nla: "nak_frame s (lost_no_nla rp s)"
  by (simp add: nak_frame_def lost_no_nla_def mark_for_flush_def Let_def)

lemma nf_to_wait_ncf: "nak_frame s (to_wait_ncf rp s)"
  by (simp add: nak_frame_def to_wait_ncf_def Let_def)

lemma nf_nak_rpt_step: "nak_frame s (nak_rpt_step rp s)"
  by (simp add: nak_frame_def nak_rpt_step_def mark_for_flush_def Let_def
      nak_rb_expiry_at_def nak_rb_ivl_def)

lemma nf_nak_rdata_step: "nak_frame s (nak_rdata_step rp s)"
  by (simp add: nak_frame_def nak_rdata_step_def mark_for_flush_def Let_def
      nak_rb_expiry_at_def nak_rb_ivl_def)

lemma nf_nak_rpt_loop: "nak_frame s (nak_rpt_loop v q s)"
proof (induction q arbitrary: s)
  case Nil
  show ?case by simp
next
  case (Cons rp prev)
  have a: "nak_frame s (nak_rpt_loop v prev (lost_no_nla rp s))"
    by (rule nf_trans [OF nf_lost_no_nla Cons.IH])
  have b: "nak_frame s (nak_rpt_loop v prev (nak_rpt_step rp s))"
    by (rule nf_trans [OF nf_nak_rpt_step Cons.IH])
  from a b show ?case by (cases v) simp_all
qed

lemma nf_nak_rdata_loop: "nak_frame s (nak_rdata_loop v q s)"
proof (induction q arbitrary: s)
  case Nil
  show ?case by simp
next
  case (Cons rp prev)
  have a: "nak_frame s (nak_rdata_loop v prev (lost_no_nla rp s))"
    by (rule nf_trans [OF nf_lost_no_nla Cons.IH])
  have b: "nak_frame s (nak_rdata_loop v prev (nak_rdata_step rp s))"
    by (rule nf_trans [OF nf_nak_rdata_step Cons.IH])
  from a b show ?case by (cases v) simp_all
qed

lemma nf_parity_loop:
  "nak_frame s (snd (snd (nak_rb_parity_loop v m c q tg cnt s)))"
proof (induction q arbitrary: tg cnt s)
  case Nil
  show ?case by simp
next
  case (Cons rp prev)
  have a: "nak_frame s (snd (snd (nak_rb_parity_loop v m c prev tg' cnt' (lost_no_nla rp s))))"
    for tg' cnt'
    by (rule nf_trans [OF nf_lost_no_nla Cons.IH])
  have b: "nak_frame s (snd (snd (nak_rb_parity_loop v m c prev tg' cnt' (to_wait_ncf rp s))))"
    for tg' cnt'
    by (rule nf_trans [OF nf_to_wait_ncf Cons.IH])
  from a b show ?case by (cases v) (simp_all add: Let_def)
qed

lemma parity_loop_cnt:
  "unat cnt + length q < 2 ^ 32 \<Longrightarrow>
   unat cnt \<le> unat (fst (snd (nak_rb_parity_loop v m c q tg cnt s)))
   \<and> (cnt = 0 \<or> fst (nak_rb_parity_loop v m c q tg cnt s) = tg)"
proof (induction q arbitrary: tg cnt s)
  case Nil
  show ?case by simp
next
  case (Cons rp prev)
  from Cons.prems have p: "unat cnt + length prev < 2 ^ 32" by simp
  from Cons.prems have "unat cnt + unat (1 :: guint32) < 2 ^ LENGTH(32)" by simp
  then have u: "unat (cnt + 1) = unat cnt + 1"
    by (simp only: unat_add_lem [THEN iffD1] unat_1)
  with Cons.prems have q: "unat (cnt + 1) + length prev < 2 ^ 32" by simp
  have nz: "cnt + 1 \<noteq> 0" using u by (metis Suc_eq_plus1 nat.simps(3) unat_0)
  note a = Cons.IH [OF p, where s = "lost_no_nla rp s" and tg = tg]
  note b = Cons.IH [OF q, where s = "to_wait_ncf rp s"]
  show ?case
    using a b [where tg = tg] b [where tg = "sequence_number rp AND m"] u nz
    by (cases v) (auto simp add: Let_def)
qed

lemma nf_select_loop:
  "is_passive (fst s) \<Longrightarrow> nak_rb_select_loop os v q nl s = Some r \<Longrightarrow> nak_frame s (snd r)"
proof (induction q arbitrary: nl s r)
  case Nil
  then show ?case by auto
next
  case (Cons rp prev)
  have pl: "is_passive (fst (lost_no_nla rp s))"
    using nf_lost_no_nla [of s rp] Cons.prems(1) by (simp add: nak_frame_def)
  have pw: "is_passive (fst (to_wait_ncf rp s))"
    using Cons.prems(1) by simp
  have pu: "is_passive (fst (snd (pgm_time_update_now (fst s)), snd (to_wait_ncf rp s)))"
    using Cons.prems(1) by (simp add: pgm_time_update_now_def)
  have fu: "nak_frame s (snd (pgm_time_update_now (fst s)), snd (to_wait_ncf rp s))"
    by (simp add: nak_frame_def pgm_time_update_now_def to_wait_ncf_def Let_def)
  note a = nf_trans [OF nf_lost_no_nla Cons.IH [OF pl]]
  note b = nf_trans [OF nf_to_wait_ncf Cons.IH [OF pw]]
  note c = nf_trans [OF fu Cons.IH [OF pu]]
  show ?case
    using Cons.prems a b c
    by (auto simp add: Let_def split: if_splits)
qed

lemma nak_rb_state_passive:
  assumes "is_passive (fst s)" and np: "\<not> peer_use_ondemand_parity (snd s)"
  shows "case nak_rb_state os s of None \<Rightarrow> False | Some s' \<Rightarrow> nak_frame s s'"
proof (cases "backoff_queue (rxw (snd s)) = []")
  case True
  then show ?thesis by (simp add: nak_rb_state_def Let_def)
next
  case ne: False
  let ?r = "nak_rb_select_loop os (is_valid_nla (snd s)) (backoff_queue (rxw (snd s))) [] s"
  have "length ([] :: guint32 list) < 63" by simp
  from select_loop_total [OF this, where os = os and v = "is_valid_nla (snd s)"
      and q = "backoff_queue (rxw (snd s))" and s = s]
  obtain r where r: "?r = Some r" by (cases ?r) auto
  from nf_select_loop [OF assms(1) r] have f: "nak_frame s (snd r)" .
  with assms(1) have "is_passive (fst (snd r))" by (simp add: nak_frame_def)
  then have "nak_rb_state os s = Some (snd r)"
    using ne np r by (cases r) (auto simp add: nak_rb_state_def Let_def)
  with f show ?thesis by simp
qed

lemma check_peer_passive:
  assumes pa: "is_passive t" and np: "\<not> peer_use_ondemand_parity peer"
  shows "case check_peer os t peer of None \<Rightarrow> False | Some r \<Rightarrow> wire (fst r) = wire t"
proof -
  let ?s1 = "(if peer_spmr_expiry peer \<noteq> 0
                \<and> pgm_time_after_eq (pgm_time_now t) (peer_spmr_expiry peer)
             then (if is_passive t then (t, peer\<lparr>peer_spmr_expiry := 0\<rparr>)
                   else snd (send_spmr os (t, peer)))
             else (t, peer))"
  have f1: "nak_frame (t, peer) ?s1"
    using pa by (simp add: nak_frame_def)
  then have p1: "is_passive (fst ?s1)" "\<not> peer_use_ondemand_parity (snd ?s1)"
    using pa np by (simp_all add: nak_frame_def)
  let ?r2 = "(case backoff_queue (rxw (snd ?s1)) of
               [] \<Rightarrow> Some ?s1
             | rp # prev \<Rightarrow>
                 if pgm_time_after_eq (pgm_time_now (fst ?s1)) (nak_rb_expiry rp)
                 then nak_rb_state os ?s1 else Some ?s1)"
  have "case ?r2 of None \<Rightarrow> False | Some s2 \<Rightarrow> nak_frame ?s1 s2"
  proof (cases "backoff_queue (rxw (snd ?s1))")
    case Nil
    then show ?thesis by (simp only: list.case option.case nf_refl)
  next
    case (Cons rp prev)
    show ?thesis
    proof (cases "pgm_time_after_eq (pgm_time_now (fst ?s1)) (nak_rb_expiry rp)")
      case True
      with Cons nak_rb_state_passive [OF p1, where os = os] show ?thesis
        by (simp only: list.case if_True)
    next
      case False
      with Cons show ?thesis by (simp only: list.case if_False option.case nf_refl)
    qed
  qed
  then obtain s2 where r2: "?r2 = Some s2" and f2: "nak_frame ?s1 s2"
    by (cases ?r2) auto
  let ?s3 = "(case wait_ncf_queue (rxw (snd s2)) of
                      [] \<Rightarrow> s2
                    | rp # prev \<Rightarrow>
                        if pgm_time_after_eq (pgm_time_now (fst s2)) (nak_rpt_expiry rp)
                        then nak_rpt_state s2 else s2)"
  have f3: "nak_frame s2 ?s3"
    using nf_nak_rpt_loop [of s2] by (simp add: nak_rpt_state_def split: list.split)
  let ?s4 = "(case wait_data_queue (rxw (snd ?s3)) of
                      [] \<Rightarrow> ?s3
                    | rp # prev \<Rightarrow>
                        if pgm_time_after_eq (pgm_time_now (fst ?s3)) (nak_rdata_expiry rp)
                        then nak_rdata_state ?s3 else ?s3)"
  have f4: "nak_frame ?s3 ?s4"
    using nf_nak_rdata_loop [of ?s3] by (simp add: nak_rdata_state_def split: list.split)
  have f: "nak_frame (t, peer) ?s4"
    by (rule nf_trans [OF nf_trans [OF nf_trans [OF f1 f2] f3] f4])
  have "check_peer os t peer =
      (if pgm_time_after_eq (pgm_time_now (fst ?s4)) (expiry (snd ?s4))
       then Some (fst ?s4, None) else Some (fst ?s4, Some (snd ?s4)))"
    unfolding check_peer_def Let_def r2 by simp
  with f show ?thesis by (simp add: nak_frame_def)
qed

lemma nak_rb_state_parity:
  assumes par: "peer_use_ondemand_parity peer" and v: "is_valid_nla peer"
    and q: "backoff_queue (rxw peer) = rp # prev" and len: "length prev < 2 ^ 32 - 1"
    and ex: "nak_rb_expiry rp \<le> pgm_time_now t"
    and tg: "sequence_number rp AND push_bit (unat (peer_tg_sqn_shift peer)) 0xffffffff
             \<noteq> lead (rxw peer) AND push_bit (unat (peer_tg_sqn_shift peer)) 0xffffffff"
  shows "case nak_rb_state os (t, peer) of
           None \<Rightarrow> False
         | Some s' \<Rightarrow>
             wire (fst s')
               = wire t @ [Sendto SEND_WITH_ROUTER_ALERT_SOCK False
                   \<lparr>pgm_sport = dport t, pgm_dport = peer_sport peer, pgm_type = PGM_NAK,
                    pgm_options = PGM_OPT_PARITY,
                    pgm_body =
                      Nak_body
                        ((sequence_number rp
                            AND push_bit (unat (peer_tg_sqn_shift peer)) 0xffffffff)
                         OR (fst (snd (nak_rb_parity_loop True
                               (push_bit (unat (peer_tg_sqn_shift peer)) 0xffffffff)
                               (lead (rxw peer)
                                  AND push_bit (unat (peer_tg_sqn_shift peer)) 0xffffffff)
                               (rp # prev) 0 0 (t, peer))) - 1))
                        (nla peer) (group_nla peer) []\<rparr>
                   (nla peer)]"
proof -
  let ?m = "push_bit (unat (peer_tg_sqn_shift peer)) (0xffffffff :: guint32)"
  let ?c = "lead (rxw peer) AND ?m"
  let ?tg = "sequence_number rp AND ?m"
  let ?s1 = "to_wait_ncf rp (t, peer)"
  let ?res = "nak_rb_parity_loop True ?m ?c prev ?tg 1 ?s1"
  have step: "nak_rb_parity_loop True ?m ?c (rp # prev) 0 0 (t, peer) = ?res"
    using ex tg by (simp add: pgm_time_after_eq_def Let_def)
  have "unat (1 :: guint32) + length prev < 2 ^ 32" using len by simp
  from parity_loop_cnt [OF this, where v = True and m = ?m and c = ?c and tg = ?tg and s = ?s1]
  have cnt: "fst (snd ?res) \<noteq> 0" and tgr: "fst ?res = ?tg"
    by (auto simp add: unat_gt_0 [symmetric])
  have f: "nak_frame (t, peer) (snd (snd ?res))"
    by (rule nf_trans [OF nf_to_wait_ncf nf_parity_loop])
  let ?R = "nak_rb_parity_loop True ?m ?c (rp # prev) 0 0 (t, peer)"
  have e0: "nak_rb_state os (t, peer)
      = (if fst (snd ?R) \<noteq> 0
         then Some (snd (send_parity_nak os (snd (snd ?R)) (fst ?R) (fst (snd ?R))))
         else Some (snd (snd ?R)))"
    using par v q by (simp add: nak_rb_state_def Let_def del: nak_rb_parity_loop.simps)
  have e: "nak_rb_state os (t, peer)
      = Some (snd (send_parity_nak os (snd (snd ?res)) ?tg (fst (snd ?res))))"
    unfolding e0 step using cnt tgr by (simp del: nak_rb_parity_loop.simps)
  show ?thesis
    unfolding e step using f
    by (simp add: send_parity_nak_def pgm_sendto_def Let_def nak_frame_def split: prod.split
        del: nak_rb_parity_loop.simps)
qed

text \<open>C4. For a passive transport (\<open>is_passive\<close>): checking a peer without on-demand parity
  sends nothing at all, neither on the SPMR path of \<open>check_peer_nak_state\<close> nor in the
  selective branch of \<open>nak_rb_state\<close>, and returns. For a peer with on-demand parity and a
  known NLA, whose back-off queue has at its tail an expired entry of a transmission group other
  than the current one, \<open>nak_rb_state\<close> sends a parity NAK to the peer's NLA on the
  router-alert descriptor: this branch does not test \<open>is_passive\<close>.\<close>

theorem passive_receiver_sends_parity_nak:
  assumes pa: "is_passive t"
  shows
   "(\<not> peer_use_ondemand_parity peer \<longrightarrow>
       (case check_peer os t peer of None \<Rightarrow> False | Some r \<Rightarrow> wire (fst r) = wire t))
    \<and> (peer_use_ondemand_parity peer \<and> is_valid_nla peer
        \<and> backoff_queue (rxw peer) = rp # prev \<and> length prev < 2 ^ 32 - 1
        \<and> nak_rb_expiry rp \<le> pgm_time_now t
        \<and> sequence_number rp AND push_bit (unat (peer_tg_sqn_shift peer)) 0xffffffff
             \<noteq> lead (rxw peer) AND push_bit (unat (peer_tg_sqn_shift peer)) 0xffffffff
       \<longrightarrow>
       (case nak_rb_state os (t, peer) of
           None \<Rightarrow> False
         | Some s' \<Rightarrow>
             wire (fst s')
               = wire t @ [Sendto SEND_WITH_ROUTER_ALERT_SOCK False
                   \<lparr>pgm_sport = dport t, pgm_dport = peer_sport peer, pgm_type = PGM_NAK,
                    pgm_options = PGM_OPT_PARITY,
                    pgm_body =
                      Nak_body
                        ((sequence_number rp
                            AND push_bit (unat (peer_tg_sqn_shift peer)) 0xffffffff)
                         OR (fst (snd (nak_rb_parity_loop True
                               (push_bit (unat (peer_tg_sqn_shift peer)) 0xffffffff)
                               (lead (rxw peer)
                                  AND push_bit (unat (peer_tg_sqn_shift peer)) 0xffffffff)
                               (rp # prev) 0 0 (t, peer))) - 1))
                        (nla peer) (group_nla peer) []\<rparr>
                   (nla peer)]))"
proof (intro conjI impI)
  assume "\<not> peer_use_ondemand_parity peer"
  from check_peer_passive [OF pa this]
  show "case check_peer os t peer of None \<Rightarrow> False | Some r \<Rightarrow> wire (fst r) = wire t" .
next
  assume h: "peer_use_ondemand_parity peer \<and> is_valid_nla peer
        \<and> backoff_queue (rxw peer) = rp # prev \<and> length prev < 2 ^ 32 - 1
        \<and> nak_rb_expiry rp \<le> pgm_time_now t
        \<and> sequence_number rp AND push_bit (unat (peer_tg_sqn_shift peer)) 0xffffffff
             \<noteq> lead (rxw peer) AND push_bit (unat (peer_tg_sqn_shift peer)) 0xffffffff"
  then have h1: "peer_use_ondemand_parity peer" and h2: "is_valid_nla peer"
    and h3: "backoff_queue (rxw peer) = rp # prev" and h4: "length prev < 2 ^ 32 - 1"
    and h5: "nak_rb_expiry rp \<le> pgm_time_now t"
    and h6: "sequence_number rp AND push_bit (unat (peer_tg_sqn_shift peer)) 0xffffffff
             \<noteq> lead (rxw peer) AND push_bit (unat (peer_tg_sqn_shift peer)) 0xffffffff"
    by blast+
  from nak_rb_state_parity [OF h1 h2 h3 h4 h5 h6]
  show "case nak_rb_state os (t, peer) of
           None \<Rightarrow> False
         | Some s' \<Rightarrow>
             wire (fst s')
               = wire t @ [Sendto SEND_WITH_ROUTER_ALERT_SOCK False
                   \<lparr>pgm_sport = dport t, pgm_dport = peer_sport peer, pgm_type = PGM_NAK,
                    pgm_options = PGM_OPT_PARITY,
                    pgm_body =
                      Nak_body
                        ((sequence_number rp
                            AND push_bit (unat (peer_tg_sqn_shift peer)) 0xffffffff)
                         OR (fst (snd (nak_rb_parity_loop True
                               (push_bit (unat (peer_tg_sqn_shift peer)) 0xffffffff)
                               (lead (rxw peer)
                                  AND push_bit (unat (peer_tg_sqn_shift peer)) 0xffffffff)
                               (rp # prev) 0 0 (t, peer))) - 1))
                        (nla peer) (group_nla peer) []\<rparr>
                   (nla peer)]" .
qed

theorem passive_receiver_sends_parity_nak_witness:
  "is_passive transport_passive
   \<and> \<not> peer_use_ondemand_parity peer_backoff
   \<and> (case check_peer (\<lambda>h. All_written) transport_passive peer_backoff of
         None \<Rightarrow> False | Some r \<Rightarrow> wire (fst r) = [])
   \<and> peer_use_ondemand_parity peer_parity \<and> is_valid_nla peer_parity
   \<and> backoff_queue (rxw peer_parity) = [entry 5 PGM_PKT_BACK_OFF_STATE 900000 0]
   \<and> nak_rb_expiry (entry 5 PGM_PKT_BACK_OFF_STATE 900000 0) \<le> pgm_time_now transport_passive
   \<and> (case nak_rb_state (\<lambda>h. All_written) (transport_passive, peer_parity) of
         None \<Rightarrow> False
       | Some s' \<Rightarrow>
           wire (fst s')
             = [Sendto SEND_WITH_ROUTER_ALERT_SOCK False
                  \<lparr>pgm_sport = 7500, pgm_dport = 2000, pgm_type = PGM_NAK,
                   pgm_options = 0x80,
                   pgm_body = Nak_body 4 addr_peer addr_grp []\<rparr>
                  addr_peer])"
proof -
  let ?rp = "entry 5 PGM_PKT_BACK_OFF_STATE 900000 0"
  have pa: "is_passive transport_passive"
    by (simp add: transport_passive_def)
  have w: "wire transport_passive = []"
    by (simp add: transport_passive_def transport0_def)
  have n: "\<not> peer_use_ondemand_parity peer_backoff"
    by (simp add: peer_backoff_def peer0_def)
  note T = passive_receiver_sends_parity_nak [OF pa, where os = "\<lambda>h. All_written"]
  have a: "case check_peer (\<lambda>h. All_written) transport_passive peer_backoff of
         None \<Rightarrow> False | Some r \<Rightarrow> wire (fst r) = []"
    using T [where peer = peer_backoff and rp = ?rp and prev = "[]", THEN conjunct1, THEN mp, OF n]
    unfolding w .
  have h: "peer_use_ondemand_parity peer_parity" "is_valid_nla peer_parity"
      "backoff_queue (rxw peer_parity) = [?rp]"
      "nak_rb_expiry ?rp \<le> pgm_time_now transport_passive"
    by (simp_all add: peer_parity_def peer0_def rxw0_def is_valid_nla_def addr_peer_def
        INADDR_ANY_def entry_def transport_passive_def transport0_def)
  have h6: "sequence_number ?rp AND push_bit (unat (peer_tg_sqn_shift peer_parity)) 0xffffffff
             \<noteq> lead (rxw peer_parity)
                  AND push_bit (unat (peer_tg_sqn_shift peer_parity)) 0xffffffff"
    by (simp add: peer_parity_def peer0_def rxw0_def entry_def)
  have l: "length ([] :: pgm_rxw_packet_t list) < 2 ^ 32 - 1" by simp
  have v: "(sequence_number ?rp
               AND push_bit (unat (peer_tg_sqn_shift peer_parity)) 0xffffffff)
            OR (fst (snd (nak_rb_parity_loop True
                  (push_bit (unat (peer_tg_sqn_shift peer_parity)) 0xffffffff)
                  (lead (rxw peer_parity)
                     AND push_bit (unat (peer_tg_sqn_shift peer_parity)) 0xffffffff)
                  [?rp] 0 0 (transport_passive, peer_parity))) - 1) = 4"
    by (simp add: peer_parity_def peer0_def rxw0_def entry_def transport_passive_def
        transport0_def pgm_time_after_eq_def Let_def)
  have f: "dport transport_passive = 7500" "peer_sport peer_parity = 2000"
      "nla peer_parity = addr_peer" "group_nla peer_parity = addr_grp" "PGM_OPT_PARITY = 0x80"
    by (simp_all add: peer_parity_def peer0_def transport_passive_def transport0_def
        PGM_OPT_PARITY_def)
  have b: "case nak_rb_state (\<lambda>h. All_written) (transport_passive, peer_parity) of
         None \<Rightarrow> False
       | Some s' \<Rightarrow>
           wire (fst s')
             = [Sendto SEND_WITH_ROUTER_ALERT_SOCK False
                  \<lparr>pgm_sport = 7500, pgm_dport = 2000, pgm_type = PGM_NAK,
                   pgm_options = 0x80,
                   pgm_body = Nak_body 4 addr_peer addr_grp []\<rparr>
                  addr_peer]"
    using T [where peer = peer_parity and rp = ?rp and prev = "[]", THEN conjunct2, THEN mp,
        OF conjI, OF h(1), OF conjI, OF h(2), OF conjI, OF h(3), OF conjI, OF l,
        OF conjI, OF h(4) h6]
    unfolding v w f append_Nil .
  show ?thesis using pa n a h b by blast
qed

section \<open>Theorems: the retry sweeps\<close>

lemma rb_expiry_nth_0:
  "fst (nak_rb_expiry_at (pgm_time_now t) t) = rb_expiry_nth t 0"
  by (simp add: rb_expiry_nth_def nak_rb_expiry_at_def nak_rb_ivl_def)

lemma rb_expiry_nth_cong:
  assumes "pgm_time_now t' = pgm_time_now t" and "nak_bo_ivl t' = nak_bo_ivl t"
    and "grand t' = sdrop k (grand t)"
  shows "rb_expiry_nth t' i = rb_expiry_nth t (k + i)"
  using assms by (simp add: rb_expiry_nth_def nak_rb_expiry_at_def nak_rb_ivl_def sdrop_add
      add.commute)

lemma nak_rpt_step_lost:
  assumes q: "wait_ncf_queue (rxw (snd s)) = rp # prev"
    and st: "state rp = PGM_PKT_WAIT_NCF_STATE"
    and ex: "unat (nak_ncf_retries (fst s)) < unat (ncf_retry_count rp + 1)"
  shows "fst (nak_rpt_step rp s) = flushed s True"
    and "rxw (snd (nak_rpt_step rp s))
          = (rxw (snd s))\<lparr>wait_ncf_queue := prev,
               off_queue := off_queue (rxw (snd s))
                 @ [lost_entry (rp\<lparr>ncf_retry_count := ncf_retry_count rp + 1\<rparr>)],
               lost_count := lost_count (rxw (snd s)) + 1,
               waiting_link_data := True\<rparr>"
    and "peer_cumulative_stats (snd (nak_rpt_step rp s))
           PGM_PC_RECEIVER_NAKS_FAILED_NCF_RETRIES_EXCEEDED
          = peer_cumulative_stats (snd s) PGM_PC_RECEIVER_NAKS_FAILED_NCF_RETRIES_EXCEEDED + 1"
    and "tsi (snd (nak_rpt_step rp s)) = tsi (snd s)"
    and "nla (snd (nak_rpt_step rp s)) = nla (snd s)"
  using assms
  by (simp_all add: nak_rpt_step_def Let_def rxw_store_def pgm_rxw_mark_lost_def
      pgm_rxw_pkt_state_unlink_def mark_for_flush_def stat_inc_def flushed_def lost_entry_def)

lemma nak_rpt_step_retry:
  assumes q: "wait_ncf_queue (rxw (snd s)) = rp # prev"
    and st: "state rp = PGM_PKT_WAIT_NCF_STATE"
    and ex: "\<not> unat (nak_ncf_retries (fst s)) < unat (ncf_retry_count rp + 1)"
  shows "fst (nak_rpt_step rp s) = (fst s)\<lparr>grand := stl (grand (fst s))\<rparr>"
    and "rxw (snd (nak_rpt_step rp s))
          = (rxw (snd s))\<lparr>wait_ncf_queue := prev,
               backoff_queue := backoff_queue (rxw (snd s))
                 @ [back_off_again (fst s)
                      (0, rp\<lparr>ncf_retry_count := ncf_retry_count rp + 1\<rparr>)]\<rparr>"
    and "peer_cumulative_stats (snd (nak_rpt_step rp s)) = peer_cumulative_stats (snd s)"
    and "tsi (snd (nak_rpt_step rp s)) = tsi (snd s)"
    and "nla (snd (nak_rpt_step rp s)) = nla (snd s)"
  using assms
  by (simp_all add: nak_rpt_step_def Let_def rxw_store_def
      pgm_rxw_pkt_state_unlink_def back_off_again_def rb_expiry_nth_def
      nak_rb_expiry_at_def nak_rb_ivl_def g_queue_push_head_link_def)

lemma map_enumerate_shift:
  assumes "\<And>i x. f (i, x) = g (Suc i, x)"
  shows "map f (enumerate n xs) = map g (enumerate (Suc n) xs)"
  using assms by (induction xs arbitrary: n) simp_all

lemma ncf_cong:
  assumes "pgm_time_now t' = pgm_time_now t" and "nak_ncf_retries t' = nak_ncf_retries t"
  shows "ncf_lost t' q = ncf_lost t q" and "ncf_retried t' q = ncf_retried t q"
proof -
  have "ncf_exceeded t' = ncf_exceeded t"
    using assms by (simp add: fun_eq_iff ncf_exceeded_def)
  with assms show "ncf_lost t' q = ncf_lost t q" and "ncf_retried t' q = ncf_retried t q"
    by (simp_all add: ncf_lost_def ncf_retried_def ncf_swept_def)
qed

lemma back_off_again_cong:
  assumes "pgm_time_now t' = pgm_time_now t" and "nak_bo_ivl t' = nak_bo_ivl t"
    and "grand t' = sdrop k (grand t)"
  shows "back_off_again t' (i, x) = back_off_again t (k + i, x)"
  using rb_expiry_nth_cong [OF assms] by (simp add: back_off_again_def)

lemma flushed_fields [simp]:
  "pgm_time_now (flushed s b) = pgm_time_now (fst s)"
  "nak_ncf_retries (flushed s b) = nak_ncf_retries (fst s)"
  "nak_data_retries (flushed s b) = nak_data_retries (fst s)"
  "nak_bo_ivl (flushed s b) = nak_bo_ivl (fst s)"
  "grand (flushed s b) = grand (fst s)"
  by (simp_all add: flushed_def)

lemma ncf_swept_Cons:
  "ncf_swept t (rp # prev)
     = (if pgm_time_after_eq (pgm_time_now t) (nak_rpt_expiry rp)
        then rp\<lparr>ncf_retry_count := ncf_retry_count rp + 1\<rparr> # ncf_swept t prev else [])"
  by (simp add: ncf_swept_def)

lemma nak_rpt_loop_sweep:
  assumes "wait_ncf_queue (rxw (snd s)) = q"
    and "list_all (\<lambda>rp. state rp = PGM_PKT_WAIT_NCF_STATE) q"
  shows "fst (nak_rpt_loop True q s)
           = (flushed s (ncf_lost (fst s) q \<noteq> []))
               \<lparr>grand := sdrop (length (ncf_retried (fst s) q)) (grand (fst s))\<rparr>
     \<and> rxw (snd (nak_rpt_loop True q s))
           = (rxw (snd s))
               \<lparr>wait_ncf_queue :=
                  dropWhile (\<lambda>rp. pgm_time_after_eq (pgm_time_now (fst s)) (nak_rpt_expiry rp)) q,
                backoff_queue := backoff_queue (rxw (snd s))
                  @ map (back_off_again (fst s)) (enumerate 0 (ncf_retried (fst s) q)),
                off_queue := off_queue (rxw (snd s)) @ map lost_entry (ncf_lost (fst s) q),
                lost_count := lost_count (rxw (snd s)) + of_nat (length (ncf_lost (fst s) q)),
                waiting_link_data :=
                  (waiting_link_data (rxw (snd s)) \<or> ncf_lost (fst s) q \<noteq> [])\<rparr>
     \<and> peer_cumulative_stats (snd (nak_rpt_loop True q s))
           PGM_PC_RECEIVER_NAKS_FAILED_NCF_RETRIES_EXCEEDED
         = peer_cumulative_stats (snd s) PGM_PC_RECEIVER_NAKS_FAILED_NCF_RETRIES_EXCEEDED
           + of_nat (length (ncf_lost (fst s) q))
     \<and> tsi (snd (nak_rpt_loop True q s)) = tsi (snd s)
     \<and> nla (snd (nak_rpt_loop True q s)) = nla (snd s)"
  using assms
proof (induction q arbitrary: s)
  case Nil
  then show ?case
    by (simp add: ncf_lost_def ncf_retried_def ncf_swept_def flushed_def)
next
  case (Cons rp prev)
  let ?t = "fst s"
  let ?rp1 = "rp\<lparr>ncf_retry_count := ncf_retry_count rp + 1\<rparr>"
  let ?s1 = "nak_rpt_step rp s"
  from Cons.prems have st: "state rp = PGM_PKT_WAIT_NCF_STATE"
    and sts: "list_all (\<lambda>rp. state rp = PGM_PKT_WAIT_NCF_STATE) prev" by simp_all
  show ?case
  proof (cases "pgm_time_after_eq (pgm_time_now ?t) (nak_rpt_expiry rp)")
    case False
    then show ?thesis
      using Cons.prems(1)
      by (simp add: ncf_lost_def ncf_retried_def ncf_swept_def flushed_def)
  next
    case exp: True
    have loop: "nak_rpt_loop True (rp # prev) s = nak_rpt_loop True prev ?s1"
      using exp by simp
    show ?thesis
    proof (cases "unat (nak_ncf_retries ?t) < unat (ncf_retry_count rp + 1)")
      case lost: True
      note step = nak_rpt_step_lost [OF Cons.prems(1) st lost]
      have q1: "wait_ncf_queue (rxw (snd ?s1)) = prev" by (simp add: step(2))
      have t1: "pgm_time_now (fst ?s1) = pgm_time_now ?t"
          "nak_ncf_retries (fst ?s1) = nak_ncf_retries ?t"
          "nak_bo_ivl (fst ?s1) = nak_bo_ivl ?t"
          "grand (fst ?s1) = sdrop 0 (grand ?t)"
        by (simp_all add: step(1))
      have c: "ncf_lost (fst ?s1) prev = ncf_lost ?t prev"
          "ncf_retried (fst ?s1) prev = ncf_retried ?t prev"
        by (rule ncf_cong [OF t1(1) t1(2)])+
      have b: "back_off_again (fst ?s1) = back_off_again ?t"
        using back_off_again_cong [OF t1(1) t1(3) t1(4)] by auto
      have l: "ncf_lost ?t (rp # prev) = ?rp1 # ncf_lost ?t prev"
          "ncf_retried ?t (rp # prev) = ncf_retried ?t prev"
        using exp lost by (simp_all add: ncf_lost_def ncf_retried_def ncf_swept_Cons ncf_exceeded_def)
      have f: "flushed ?s1 x = flushed s True" for x
        by (simp add: flushed_def step(1) step(2))
      note IH = Cons.IH [OF q1 sts, unfolded c b f t1 step(2-5)]
      show ?thesis
        unfolding loop l
        using IH exp
        by simp
    next
      case retry: False
      note step = nak_rpt_step_retry [OF Cons.prems(1) st retry]
      have q1: "wait_ncf_queue (rxw (snd ?s1)) = prev" by (simp add: step(2))
      have t1: "pgm_time_now (fst ?s1) = pgm_time_now ?t"
          "nak_ncf_retries (fst ?s1) = nak_ncf_retries ?t"
          "nak_bo_ivl (fst ?s1) = nak_bo_ivl ?t"
          "grand (fst ?s1) = sdrop 1 (grand ?t)"
        by (simp_all add: step(1))
      have c: "ncf_lost (fst ?s1) prev = ncf_lost ?t prev"
          "ncf_retried (fst ?s1) prev = ncf_retried ?t prev"
        by (rule ncf_cong [OF t1(1) t1(2)])+
      have b: "map (back_off_again (fst ?s1)) (enumerate 0 xs)
                 = map (back_off_again ?t) (enumerate (Suc 0) xs)" for xs
        by (rule map_enumerate_shift)
           (use back_off_again_cong [OF t1(1) t1(3) t1(4)] in simp)
      have l: "ncf_lost ?t (rp # prev) = ncf_lost ?t prev"
          "ncf_retried ?t (rp # prev) = ?rp1 # ncf_retried ?t prev"
        using exp retry by (simp_all add: ncf_lost_def ncf_retried_def ncf_swept_Cons ncf_exceeded_def)
      have f: "flushed ?s1 x = (flushed s x)\<lparr>grand := stl (grand ?t)\<rparr>" for x
        by (simp add: flushed_def step(1) step(2) step(4))
      note IH = Cons.IH [OF q1 sts, unfolded c b f t1 step(2-5)]
      show ?thesis
        unfolding loop l
        using IH exp
        by simp
    qed
  qed
qed

lemma nak_rdata_step_lost:
  assumes q: "wait_data_queue (rxw (snd s)) = rp # prev"
    and st: "state rp = PGM_PKT_WAIT_DATA_STATE"
    and ex: "unat (nak_data_retries (fst s)) < unat (data_retry_count rp + 1)"
  shows "fst (nak_rdata_step rp s) = flushed s True"
    and "rxw (snd (nak_rdata_step rp s))
          = (rxw (snd s))\<lparr>wait_data_queue := prev,
               off_queue := off_queue (rxw (snd s))
                 @ [lost_entry (rp\<lparr>data_retry_count := data_retry_count rp + 1\<rparr>)],
               lost_count := lost_count (rxw (snd s)) + 1,
               waiting_link_data := True\<rparr>"
    and "peer_cumulative_stats (snd (nak_rdata_step rp s))
           PGM_PC_RECEIVER_NAKS_FAILED_DATA_RETRIES_EXCEEDED
          = peer_cumulative_stats (snd s) PGM_PC_RECEIVER_NAKS_FAILED_DATA_RETRIES_EXCEEDED + 1"
    and "tsi (snd (nak_rdata_step rp s)) = tsi (snd s)"
    and "nla (snd (nak_rdata_step rp s)) = nla (snd s)"
  using assms
  by (simp_all add: nak_rdata_step_def Let_def rxw_store_def pgm_rxw_mark_lost_def
      pgm_rxw_pkt_state_unlink_def mark_for_flush_def stat_inc_def flushed_def lost_entry_def)

lemma nak_rdata_step_retry:
  assumes q: "wait_data_queue (rxw (snd s)) = rp # prev"
    and st: "state rp = PGM_PKT_WAIT_DATA_STATE"
    and ex: "\<not> unat (nak_data_retries (fst s)) < unat (data_retry_count rp + 1)"
  shows "fst (nak_rdata_step rp s) = (fst s)\<lparr>grand := stl (grand (fst s))\<rparr>"
    and "rxw (snd (nak_rdata_step rp s))
          = (rxw (snd s))\<lparr>wait_data_queue := prev,
               backoff_queue := backoff_queue (rxw (snd s))
                 @ [back_off_again (fst s)
                      (0, rp\<lparr>data_retry_count := data_retry_count rp + 1\<rparr>)]\<rparr>"
    and "peer_cumulative_stats (snd (nak_rdata_step rp s)) = peer_cumulative_stats (snd s)"
    and "tsi (snd (nak_rdata_step rp s)) = tsi (snd s)"
    and "nla (snd (nak_rdata_step rp s)) = nla (snd s)"
  using assms
  by (simp_all add: nak_rdata_step_def Let_def rxw_store_def
      pgm_rxw_pkt_state_unlink_def back_off_again_def rb_expiry_nth_def
      nak_rb_expiry_at_def nak_rb_ivl_def g_queue_push_head_link_def)

lemma data_cong:
  assumes "pgm_time_now t' = pgm_time_now t" and "nak_data_retries t' = nak_data_retries t"
  shows "data_lost t' q = data_lost t q" and "data_retried t' q = data_retried t q"
proof -
  have "data_exceeded t' = data_exceeded t"
    using assms by (simp add: fun_eq_iff data_exceeded_def)
  with assms show "data_lost t' q = data_lost t q" and "data_retried t' q = data_retried t q"
    by (simp_all add: data_lost_def data_retried_def data_swept_def)
qed

lemma data_swept_Cons:
  "data_swept t (rp # prev)
     = (if pgm_time_after_eq (pgm_time_now t) (nak_rdata_expiry rp)
        then rp\<lparr>data_retry_count := data_retry_count rp + 1\<rparr> # data_swept t prev else [])"
  by (simp add: data_swept_def)

lemma nak_rdata_loop_sweep:
  assumes "wait_data_queue (rxw (snd s)) = q"
    and "list_all (\<lambda>rp. state rp = PGM_PKT_WAIT_DATA_STATE) q"
  shows "fst (nak_rdata_loop True q s)
           = (flushed s (data_lost (fst s) q \<noteq> []))
               \<lparr>grand := sdrop (length (data_retried (fst s) q)) (grand (fst s))\<rparr>
     \<and> rxw (snd (nak_rdata_loop True q s))
           = (rxw (snd s))
               \<lparr>wait_data_queue :=
                  dropWhile (\<lambda>rp. pgm_time_after_eq (pgm_time_now (fst s)) (nak_rdata_expiry rp)) q,
                backoff_queue := backoff_queue (rxw (snd s))
                  @ map (back_off_again (fst s)) (enumerate 0 (data_retried (fst s) q)),
                off_queue := off_queue (rxw (snd s)) @ map lost_entry (data_lost (fst s) q),
                lost_count := lost_count (rxw (snd s)) + of_nat (length (data_lost (fst s) q)),
                waiting_link_data :=
                  (waiting_link_data (rxw (snd s)) \<or> data_lost (fst s) q \<noteq> [])\<rparr>
     \<and> peer_cumulative_stats (snd (nak_rdata_loop True q s))
           PGM_PC_RECEIVER_NAKS_FAILED_DATA_RETRIES_EXCEEDED
         = peer_cumulative_stats (snd s) PGM_PC_RECEIVER_NAKS_FAILED_DATA_RETRIES_EXCEEDED
           + of_nat (length (data_lost (fst s) q))
     \<and> tsi (snd (nak_rdata_loop True q s)) = tsi (snd s)
     \<and> nla (snd (nak_rdata_loop True q s)) = nla (snd s)"
  using assms
proof (induction q arbitrary: s)
  case Nil
  then show ?case
    by (simp add: data_lost_def data_retried_def data_swept_def flushed_def)
next
  case (Cons rp prev)
  let ?t = "fst s"
  let ?rp1 = "rp\<lparr>data_retry_count := data_retry_count rp + 1\<rparr>"
  let ?s1 = "nak_rdata_step rp s"
  from Cons.prems have st: "state rp = PGM_PKT_WAIT_DATA_STATE"
    and sts: "list_all (\<lambda>rp. state rp = PGM_PKT_WAIT_DATA_STATE) prev" by simp_all
  show ?case
  proof (cases "pgm_time_after_eq (pgm_time_now ?t) (nak_rdata_expiry rp)")
    case False
    then show ?thesis
      using Cons.prems(1)
      by (simp add: data_lost_def data_retried_def data_swept_def flushed_def)
  next
    case exp: True
    have loop: "nak_rdata_loop True (rp # prev) s = nak_rdata_loop True prev ?s1"
      using exp by simp
    show ?thesis
    proof (cases "unat (nak_data_retries ?t) < unat (data_retry_count rp + 1)")
      case lost: True
      note step = nak_rdata_step_lost [OF Cons.prems(1) st lost]
      have q1: "wait_data_queue (rxw (snd ?s1)) = prev" by (simp add: step(2))
      have t1: "pgm_time_now (fst ?s1) = pgm_time_now ?t"
          "nak_data_retries (fst ?s1) = nak_data_retries ?t"
          "nak_bo_ivl (fst ?s1) = nak_bo_ivl ?t"
          "grand (fst ?s1) = sdrop 0 (grand ?t)"
        by (simp_all add: step(1))
      have c: "data_lost (fst ?s1) prev = data_lost ?t prev"
          "data_retried (fst ?s1) prev = data_retried ?t prev"
        by (rule data_cong [OF t1(1) t1(2)])+
      have b: "back_off_again (fst ?s1) = back_off_again ?t"
        using back_off_again_cong [OF t1(1) t1(3) t1(4)] by auto
      have l: "data_lost ?t (rp # prev) = ?rp1 # data_lost ?t prev"
          "data_retried ?t (rp # prev) = data_retried ?t prev"
        using exp lost by (simp_all add: data_lost_def data_retried_def data_swept_Cons data_exceeded_def)
      have f: "flushed ?s1 x = flushed s True" for x
        by (simp add: flushed_def step(1) step(2))
      note IH = Cons.IH [OF q1 sts, unfolded c b f t1 step(2-5)]
      show ?thesis
        unfolding loop l
        using IH exp
        by simp
    next
      case retry: False
      note step = nak_rdata_step_retry [OF Cons.prems(1) st retry]
      have q1: "wait_data_queue (rxw (snd ?s1)) = prev" by (simp add: step(2))
      have t1: "pgm_time_now (fst ?s1) = pgm_time_now ?t"
          "nak_data_retries (fst ?s1) = nak_data_retries ?t"
          "nak_bo_ivl (fst ?s1) = nak_bo_ivl ?t"
          "grand (fst ?s1) = sdrop 1 (grand ?t)"
        by (simp_all add: step(1))
      have c: "data_lost (fst ?s1) prev = data_lost ?t prev"
          "data_retried (fst ?s1) prev = data_retried ?t prev"
        by (rule data_cong [OF t1(1) t1(2)])+
      have b: "map (back_off_again (fst ?s1)) (enumerate 0 xs)
                 = map (back_off_again ?t) (enumerate (Suc 0) xs)" for xs
        by (rule map_enumerate_shift)
           (use back_off_again_cong [OF t1(1) t1(3) t1(4)] in simp)
      have l: "data_lost ?t (rp # prev) = data_lost ?t prev"
          "data_retried ?t (rp # prev) = ?rp1 # data_retried ?t prev"
        using exp retry by (simp_all add: data_lost_def data_retried_def data_swept_Cons data_exceeded_def)
      have f: "flushed ?s1 x = (flushed s x)\<lparr>grand := stl (grand ?t)\<rparr>" for x
        by (simp add: flushed_def step(1) step(2) step(4))
      note IH = Cons.IH [OF q1 sts, unfolded c b f t1 step(2-5)]
      show ?thesis
        unfolding loop l
        using IH exp
        by simp
    qed
  qed
qed

text \<open>C1. With the peer's NLA known and every entry of the two wait queues in the state of
  its queue, \<open>nak_rpt_state\<close> (resp. \<open>nak_rdata_state\<close>) takes off the WAIT_NCF (resp.
  WAIT_DATA) queue, from its tail, every entry whose \<open>nak_rpt_expiry\<close> (resp.
  \<open>nak_rdata_expiry\<close>) has passed, up to the first that has not, and increments its
  \<open>ncf_retry_count\<close> (resp. \<open>data_retry_count\<close>). An entry whose incremented counter does
  not exceed \<open>nak_ncf_retries\<close> (resp. \<open>nak_data_retries\<close>) is appended to the back-off
  queue in the state BACK_OFF with a \<open>nak_rb_expiry\<close> drawn anew by \<open>nak_rb_ivl\<close> from the
  current time. An entry whose incremented counter exceeds it is marked LOST
  (\<open>pgm_rxw_mark_lost\<close>); if there is one, the window's waiting link is set and the peer
  is put on \<open>peers_waiting\<close> unless it was linked, and the counter
  \<open>NAKS_FAILED_NCF_RETRIES_EXCEEDED\<close> (resp. \<open>NAKS_FAILED_DATA_RETRIES_EXCEEDED\<close>) goes up
  by the number of entries lost. All this holds of the state the function returns.\<close>

theorem nak_retry_sweeps:
  assumes v: "is_valid_nla (snd s)"
    and n: "list_all (\<lambda>rp. state rp = PGM_PKT_WAIT_NCF_STATE) (wait_ncf_queue (rxw (snd s)))"
    and d: "list_all (\<lambda>rp. state rp = PGM_PKT_WAIT_DATA_STATE) (wait_data_queue (rxw (snd s)))"
  shows
    "fst (nak_rpt_state s)
        = (flushed s (ncf_lost (fst s) (wait_ncf_queue (rxw (snd s))) \<noteq> []))
            \<lparr>grand := sdrop (length (ncf_retried (fst s) (wait_ncf_queue (rxw (snd s)))))
                        (grand (fst s))\<rparr>
     \<and> rxw (snd (nak_rpt_state s))
        = (rxw (snd s))
            \<lparr>wait_ncf_queue :=
               dropWhile (\<lambda>rp. pgm_time_after_eq (pgm_time_now (fst s)) (nak_rpt_expiry rp))
                 (wait_ncf_queue (rxw (snd s))),
             backoff_queue := backoff_queue (rxw (snd s))
               @ map (back_off_again (fst s))
                   (enumerate 0 (ncf_retried (fst s) (wait_ncf_queue (rxw (snd s))))),
             off_queue := off_queue (rxw (snd s))
               @ map lost_entry (ncf_lost (fst s) (wait_ncf_queue (rxw (snd s)))),
             lost_count := lost_count (rxw (snd s))
               + of_nat (length (ncf_lost (fst s) (wait_ncf_queue (rxw (snd s))))),
             waiting_link_data :=
               (waiting_link_data (rxw (snd s))
                \<or> ncf_lost (fst s) (wait_ncf_queue (rxw (snd s))) \<noteq> [])\<rparr>
     \<and> peer_cumulative_stats (snd (nak_rpt_state s))
          PGM_PC_RECEIVER_NAKS_FAILED_NCF_RETRIES_EXCEEDED
        = peer_cumulative_stats (snd s) PGM_PC_RECEIVER_NAKS_FAILED_NCF_RETRIES_EXCEEDED
          + of_nat (length (ncf_lost (fst s) (wait_ncf_queue (rxw (snd s)))))
     \<and> fst (nak_rdata_state s)
        = (flushed s (data_lost (fst s) (wait_data_queue (rxw (snd s))) \<noteq> []))
            \<lparr>grand := sdrop (length (data_retried (fst s) (wait_data_queue (rxw (snd s)))))
                        (grand (fst s))\<rparr>
     \<and> rxw (snd (nak_rdata_state s))
        = (rxw (snd s))
            \<lparr>wait_data_queue :=
               dropWhile (\<lambda>rp. pgm_time_after_eq (pgm_time_now (fst s)) (nak_rdata_expiry rp))
                 (wait_data_queue (rxw (snd s))),
             backoff_queue := backoff_queue (rxw (snd s))
               @ map (back_off_again (fst s))
                   (enumerate 0 (data_retried (fst s) (wait_data_queue (rxw (snd s))))),
             off_queue := off_queue (rxw (snd s))
               @ map lost_entry (data_lost (fst s) (wait_data_queue (rxw (snd s)))),
             lost_count := lost_count (rxw (snd s))
               + of_nat (length (data_lost (fst s) (wait_data_queue (rxw (snd s))))),
             waiting_link_data :=
               (waiting_link_data (rxw (snd s))
                \<or> data_lost (fst s) (wait_data_queue (rxw (snd s))) \<noteq> [])\<rparr>
     \<and> peer_cumulative_stats (snd (nak_rdata_state s))
          PGM_PC_RECEIVER_NAKS_FAILED_DATA_RETRIES_EXCEEDED
        = peer_cumulative_stats (snd s) PGM_PC_RECEIVER_NAKS_FAILED_DATA_RETRIES_EXCEEDED
          + of_nat (length (data_lost (fst s) (wait_data_queue (rxw (snd s)))))"
proof -
  have a: "nak_rpt_state s = nak_rpt_loop True (wait_ncf_queue (rxw (snd s))) s"
    using v by (simp add: nak_rpt_state_def)
  have b: "nak_rdata_state s = nak_rdata_loop True (wait_data_queue (rxw (snd s))) s"
    using v by (simp add: nak_rdata_state_def)
  from nak_rpt_loop_sweep [OF refl n] nak_rdata_loop_sweep [OF refl d]
  show ?thesis unfolding a b by blast
qed

theorem nak_retry_sweeps_witness:
  "is_valid_nla (snd (transport0, peer_wait))
   \<and> list_all (\<lambda>rp. state rp = PGM_PKT_WAIT_NCF_STATE)
         (wait_ncf_queue (rxw (snd (transport0, peer_wait))))
   \<and> list_all (\<lambda>rp. state rp = PGM_PKT_WAIT_DATA_STATE)
         (wait_data_queue (rxw (snd (transport0, peer_wait))))
   \<and> peers_waiting (fst (nak_rpt_state (transport0, peer_wait))) = [1]
   \<and> wait_ncf_queue (rxw (snd (nak_rpt_state (transport0, peer_wait))))
       = [entry 7 PGM_PKT_WAIT_NCF_STATE 2000000 0]
   \<and> backoff_queue (rxw (snd (nak_rpt_state (transport0, peer_wait))))
       = [(entry 6 PGM_PKT_BACK_OFF_STATE 950000 0)
            \<lparr>ncf_retry_count := 1, nak_rb_expiry := 1000008\<rparr>]
   \<and> off_queue (rxw (snd (nak_rpt_state (transport0, peer_wait))))
       = [(entry 5 PGM_PKT_LOST_DATA_STATE 900000 2)\<lparr>ncf_retry_count := 3\<rparr>]
   \<and> peer_cumulative_stats (snd (nak_rpt_state (transport0, peer_wait)))
         PGM_PC_RECEIVER_NAKS_FAILED_NCF_RETRIES_EXCEEDED = 1
   \<and> wait_data_queue (rxw (snd (nak_rdata_state (transport0, peer_wait))))
       = [entry 9 PGM_PKT_WAIT_DATA_STATE 2000000 0]
   \<and> off_queue (rxw (snd (nak_rdata_state (transport0, peer_wait))))
       = [(entry 8 PGM_PKT_LOST_DATA_STATE 900000 2)\<lparr>data_retry_count := 3\<rparr>]
   \<and> peer_cumulative_stats (snd (nak_rdata_state (transport0, peer_wait)))
         PGM_PC_RECEIVER_NAKS_FAILED_DATA_RETRIES_EXCEEDED = 1"
proof -
  let ?s = "(transport0, peer_wait)"
  have h: "is_valid_nla (snd ?s)"
      "list_all (\<lambda>rp. state rp = PGM_PKT_WAIT_NCF_STATE) (wait_ncf_queue (rxw (snd ?s)))"
      "list_all (\<lambda>rp. state rp = PGM_PKT_WAIT_DATA_STATE) (wait_data_queue (rxw (snd ?s)))"
    by (simp_all add: is_valid_nla_def peer_wait_def peer0_def rxw0_def addr_peer_def
        INADDR_ANY_def entry_def)
  have n: "pgm_time_now transport0 = 1000000" "nak_ncf_retries transport0 = 2"
      "nak_data_retries transport0 = 2" "peers_waiting transport0 = []"
    by (simp_all add: transport0_def)
  have q: "wait_ncf_queue (rxw peer_wait)
             = [entry 5 PGM_PKT_WAIT_NCF_STATE 900000 2,
                entry 6 PGM_PKT_WAIT_NCF_STATE 950000 0,
                entry 7 PGM_PKT_WAIT_NCF_STATE 2000000 0]"
      "wait_data_queue (rxw peer_wait)
             = [entry 8 PGM_PKT_WAIT_DATA_STATE 900000 2,
                entry 9 PGM_PKT_WAIT_DATA_STATE 2000000 0]"
      "backoff_queue (rxw peer_wait) = []" "off_queue (rxw peer_wait) = []"
      "waiting_link_data (rxw peer_wait) = False" "tsi peer_wait = 1"
      "peer_cumulative_stats peer_wait c = 0" for c
    by (simp_all add: peer_wait_def peer0_def rxw0_def)
  have l: "ncf_lost transport0 (wait_ncf_queue (rxw peer_wait))
             = [(entry 5 PGM_PKT_WAIT_NCF_STATE 900000 2)\<lparr>ncf_retry_count := 3\<rparr>]"
      "ncf_retried transport0 (wait_ncf_queue (rxw peer_wait))
             = [(entry 6 PGM_PKT_WAIT_NCF_STATE 950000 0)\<lparr>ncf_retry_count := 1\<rparr>]"
      "data_lost transport0 (wait_data_queue (rxw peer_wait))
             = [(entry 8 PGM_PKT_WAIT_DATA_STATE 900000 2)\<lparr>data_retry_count := 3\<rparr>]"
      "data_retried transport0 (wait_data_queue (rxw peer_wait)) = []"
    unfolding q ncf_lost_def ncf_retried_def ncf_swept_def ncf_exceeded_def
      data_lost_def data_retried_def data_swept_def data_exceeded_def n
    by (simp_all add: entry_def pgm_time_after_eq_def)
  have d: "dropWhile (\<lambda>rp. pgm_time_after_eq (pgm_time_now transport0) (nak_rpt_expiry rp))
             (wait_ncf_queue (rxw peer_wait)) = [entry 7 PGM_PKT_WAIT_NCF_STATE 2000000 0]"
      "dropWhile (\<lambda>rp. pgm_time_after_eq (pgm_time_now transport0) (nak_rdata_expiry rp))
             (wait_data_queue (rxw peer_wait)) = [entry 9 PGM_PKT_WAIT_DATA_STATE 2000000 0]"
    unfolding q n by (simp_all add: entry_def pgm_time_after_eq_def)
  have r: "rb_expiry_nth transport0 0 = 1000008"
    by (simp add: rb_expiry_nth_def nak_rb_expiry_at_def nak_rb_ivl_def g_rand_int_range_def
        transport0_def)
  have e: "back_off_again transport0
             (0, (entry 6 PGM_PKT_WAIT_NCF_STATE 950000 0)\<lparr>ncf_retry_count := 1\<rparr>)
           = (entry 6 PGM_PKT_BACK_OFF_STATE 950000 0)
               \<lparr>ncf_retry_count := 1, nak_rb_expiry := 1000008\<rparr>"
      "lost_entry ((entry 5 PGM_PKT_WAIT_NCF_STATE 900000 2)\<lparr>ncf_retry_count := 3\<rparr>)
           = (entry 5 PGM_PKT_LOST_DATA_STATE 900000 2)\<lparr>ncf_retry_count := 3\<rparr>"
      "lost_entry ((entry 8 PGM_PKT_WAIT_DATA_STATE 900000 2)\<lparr>data_retry_count := 3\<rparr>)
           = (entry 8 PGM_PKT_LOST_DATA_STATE 900000 2)\<lparr>data_retry_count := 3\<rparr>"
    by (simp_all add: back_off_again_def lost_entry_def r entry_def)
  note T = nak_retry_sweeps [OF h, unfolded fst_conv snd_conv l d]
  have f: "flushed ?s True = transport0\<lparr>peers_waiting := [1]\<rparr>"
    by (simp add: flushed_def q n)
  from T have t1: "fst (nak_rpt_state ?s)
      = (flushed ?s True)\<lparr>grand := sdrop (Suc 0) (grand transport0)\<rparr>"
    by simp
  from T have t2: "rxw (snd (nak_rpt_state ?s))
      = (rxw peer_wait)
            \<lparr>wait_ncf_queue := [entry 7 PGM_PKT_WAIT_NCF_STATE 2000000 0],
             backoff_queue := [(entry 6 PGM_PKT_BACK_OFF_STATE 950000 0)
               \<lparr>ncf_retry_count := 1, nak_rb_expiry := 1000008\<rparr>],
             off_queue := [(entry 5 PGM_PKT_LOST_DATA_STATE 900000 2)\<lparr>ncf_retry_count := 3\<rparr>],
             lost_count := lost_count (rxw peer_wait) + 1,
             waiting_link_data := True\<rparr>"
    by (simp add: q e)
  from T have t3: "peer_cumulative_stats (snd (nak_rpt_state ?s))
          PGM_PC_RECEIVER_NAKS_FAILED_NCF_RETRIES_EXCEEDED = 1"
    by (simp add: q)
  from T have t4: "rxw (snd (nak_rdata_state ?s))
      = (rxw peer_wait)
            \<lparr>wait_data_queue := [entry 9 PGM_PKT_WAIT_DATA_STATE 2000000 0],
             backoff_queue := [],
             off_queue := [(entry 8 PGM_PKT_LOST_DATA_STATE 900000 2)\<lparr>data_retry_count := 3\<rparr>],
             lost_count := lost_count (rxw peer_wait) + 1,
             waiting_link_data := True\<rparr>"
    by (simp add: q e)
  from T have t5: "peer_cumulative_stats (snd (nak_rdata_state ?s))
          PGM_PC_RECEIVER_NAKS_FAILED_DATA_RETRIES_EXCEEDED = 1"
    by (simp add: q)
  show ?thesis
    using h unfolding t1 t2 t3 t4 t5 f by simp
qed

section \<open>Theorems: on_spm\<close>

lemma pgm_uint32_gte_refl: "pgm_uint32_gte s s"
  by (simp add: pgm_uint32_gte_def)

lemma on_spm_options_stats:
  assumes "on_spm_options spm retval sender = Some r"
  shows "peer_cumulative_stats (snd (snd r)) PGM_PC_RECEIVER_DUP_SPMS
           = peer_cumulative_stats sender PGM_PC_RECEIVER_DUP_SPMS"
    and "peer_spm_sqn (snd (snd r)) = peer_spm_sqn sender"
    and "nla (snd (snd r)) = nla sender"
    and "rxw (snd (snd r)) = rxw sender"
    and "fst r \<or> fst (snd r) = retval"
  using assms
  by (auto simp add: on_spm_options_def malformed_spm_def stat_inc_def
      split: if_splits option.splits)

lemma on_spm_accept_fields:
  "peer_cumulative_stats (snd (snd (on_spm_accept os wu now s spm))) = peer_cumulative_stats (snd s)"
  "peer_spm_sqn (snd (snd (on_spm_accept os wu now s spm))) = spm_sqn_rx spm"
  "nla (snd (snd (on_spm_accept os wu now s spm))) = spm_nla spm"
  "rxw (snd (snd (on_spm_accept os wu now s spm)))
     = snd (wu (rxw (snd s)) (spm_trail spm) (spm_lead spm) (rs_k (fst s)) (tg_sqn_shift (fst s))
              (fst (nak_rb_expiry_at now (fst s))))"
  by (simp_all add: on_spm_accept_def Let_def nak_rb_expiry_at_def nak_rb_ivl_def)

lemma on_spm_dup_fields:
  "peer_cumulative_stats (snd (snd (on_spm_dup s))) PGM_PC_RECEIVER_DUP_SPMS
     = peer_cumulative_stats (snd s) PGM_PC_RECEIVER_DUP_SPMS + 1"
  "peer_spm_sqn (snd (snd (on_spm_dup s))) = peer_spm_sqn (snd s)"
  "nla (snd (snd (on_spm_dup s))) = nla (snd s)"
  "rxw (snd (snd (on_spm_dup s))) = rxw (snd s)"
  "fst (on_spm_dup s) = - EINVAL"
  by (simp_all add: on_spm_dup_def stat_inc_def)

lemma on_spm_options_retval:
  assumes "on_spm_options spm retval sender = Some r"
  shows "fst (snd r) = retval \<or> fst (snd r) = - EINVAL"
  using assms
  by (auto simp add: on_spm_options_def split: if_splits option.splits)

lemma on_spm_options_Some:
  assumes "spm_pgm_options spm AND PGM_OPT_PRESENT = 0
           \<or> opt_loop PGM_OPT_PARITY_PRM (spm_opts spm) \<noteq> None"
  shows "\<exists>r. on_spm_options spm retval sender = Some r"
  using assms
  by (auto simp add: on_spm_options_def split: option.splits)


lemma on_spm_options_out:
  "map_option fst (on_spm_options spm retval sender)
     = map_option fst (on_spm_options spm retval' sender')"
  by (simp add: on_spm_options_def split: option.splits)

lemma on_spm_once:
  assumes v: "spm_verify spm = 0"
    and m: "m = mutexes_free"
    and o: "map_option fst (on_spm_options spm 0 (snd s)) = Some out"
  shows "case on_spm os wu m s spm of
           None \<Rightarrow> False
         | Some r \<Rightarrow>
             fst (snd r) = \<lparr>transport_mutex = out, sender_mutex = out\<rparr>
             \<and> (if pgm_uint32_gte (spm_sqn_rx spm) (peer_spm_sqn (snd s))
                 \<or> sa_family (nla (snd s)) = 0
              then peer_spm_sqn (snd (snd (snd r))) = spm_sqn_rx spm
                   \<and> nla (snd (snd (snd r))) = spm_nla spm
                   \<and> rxw (snd (snd (snd r)))
                       = snd (wu (rxw (snd s)) (spm_trail spm) (spm_lead spm) (rs_k (fst s))
                                (tg_sqn_shift (fst s))
                                (fst (nak_rb_expiry_at (shd (clock (fst s))) (fst s))))
                   \<and> peer_cumulative_stats (snd (snd (snd r))) PGM_PC_RECEIVER_DUP_SPMS
                       = peer_cumulative_stats (snd s) PGM_PC_RECEIVER_DUP_SPMS
              else fst r = - EINVAL
                   \<and> peer_spm_sqn (snd (snd (snd r))) = peer_spm_sqn (snd s)
                   \<and> nla (snd (snd (snd r))) = nla (snd s)
                   \<and> rxw (snd (snd (snd r))) = rxw (snd s)
                   \<and> peer_cumulative_stats (snd (snd (snd r))) PGM_PC_RECEIVER_DUP_SPMS
                       = peer_cumulative_stats (snd s) PGM_PC_RECEIVER_DUP_SPMS + 1)"
proof -
  let ?now = "fst (pgm_time_update_now (fst s))"
  let ?s0 = "(snd (pgm_time_update_now (fst s)), snd s)"
  let ?acc = "pgm_uint32_gte (spm_sqn_rx spm) (peer_spm_sqn (snd s)) \<or> sa_family (nla (snd s)) = 0"
  let ?r1 = "if ?acc then on_spm_accept os wu ?now ?s0 spm else on_spm_dup ?s0"
  from o on_spm_options_out [of spm "fst ?r1" "snd (snd ?r1)" 0 "snd s"]
  have "map_option fst (on_spm_options spm (fst ?r1) (snd (snd ?r1))) = Some out" by simp
  then obtain r2 where r2: "on_spm_options spm (fst ?r1) (snd (snd ?r1)) = Some r2"
    and out: "fst r2 = out" by (cases "on_spm_options spm (fst ?r1) (snd (snd ?r1))") auto
  note st = on_spm_options_stats [OF r2] on_spm_options_retval [OF r2]
  have e: "on_spm os wu m s spm
      = (if out
         then Some (fst (snd r2), \<lparr>transport_mutex = True, sender_mutex = True\<rparr>,
                    fst (snd ?r1), snd (snd r2))
         else Some (fst (snd r2), \<lparr>transport_mutex = False, sender_mutex = False\<rparr>,
                fst (snd ?r1),
                (snd (snd r2))\<lparr>expiry := ?now + unat (peer_expiry (fst (snd ?r1))),
                                peer_spmr_expiry := 0\<rparr>))"
    using v r2 out unfolding m by (simp add: on_spm_def Let_def mutexes_free_def)
  have k: "fst (nak_rb_expiry_at ?now (fst ?s0))
             = fst (nak_rb_expiry_at (shd (clock (fst s))) (fst s))"
      "rs_k (fst ?s0) = rs_k (fst s)" "tg_sqn_shift (fst ?s0) = tg_sqn_shift (fst s)"
    by (simp_all add: pgm_time_update_now_def nak_rb_expiry_at_def nak_rb_ivl_def)
  show ?thesis
  proof (cases ?acc)
    case True
    then have r1: "?r1 = on_spm_accept os wu ?now ?s0 spm" by simp
    show ?thesis
      unfolding e using True st out on_spm_accept_fields [of os wu ?now ?s0 spm]
      unfolding r1 k by (cases out) simp_all
  next
    case False
    then have r1: "?r1 = on_spm_dup ?s0" by simp
    show ?thesis
      unfolding e using False st out on_spm_dup_fields [of ?s0]
      unfolding r1 by (cases out) auto
  qed
qed

lemma on_spm_blocks:
  assumes "spm_verify spm = 0" and "transport_mutex m \<or> sender_mutex m"
  shows "on_spm os wu m s spm = None"
  using assms by (simp add: on_spm_def)

lemma on_spm_accept_retval:
  "fst (wu (rxw (snd s)) (spm_trail spm) (spm_lead spm) (rs_k (fst s)) (tg_sqn_shift (fst s))
          (fst (nak_rb_expiry_at now (fst s)))) = 0
   \<Longrightarrow> fst (on_spm_accept os wu now s spm) = 0"
  by (simp add: on_spm_accept_def Let_def nak_rb_expiry_at_def nak_rb_ivl_def)

lemma on_spm_retval:
  assumes v: "spm_verify spm = 0"
    and o: "map_option fst (on_spm_options spm 0 (snd s)) = Some False"
    and a: "pgm_uint32_gte (spm_sqn_rx spm) (peer_spm_sqn (snd s))
            \<or> sa_family (nla (snd s)) = 0"
    and n: "fst (wu (rxw (snd s)) (spm_trail spm) (spm_lead spm) (rs_k (fst s))
              (tg_sqn_shift (fst s))
              (fst (nak_rb_expiry_at (shd (clock (fst s))) (fst s)))) = 0"
  shows "case on_spm os wu mutexes_free s spm of None \<Rightarrow> False | Some r \<Rightarrow> fst r = 0"
proof -
  let ?now = "fst (pgm_time_update_now (fst s))"
  let ?s0 = "(snd (pgm_time_update_now (fst s)), snd s)"
  let ?r1 = "on_spm_accept os wu ?now ?s0 spm"
  from o on_spm_options_out [of spm "fst ?r1" "snd (snd ?r1)" 0 "snd s"]
  have "map_option fst (on_spm_options spm (fst ?r1) (snd (snd ?r1))) = Some False" by simp
  then obtain r2 where r2: "on_spm_options spm (fst ?r1) (snd (snd ?r1)) = Some r2"
    and out: "\<not> fst r2" by (cases "on_spm_options spm (fst ?r1) (snd (snd ?r1))") auto
  have k: "fst (nak_rb_expiry_at ?now (fst ?s0))
             = fst (nak_rb_expiry_at (shd (clock (fst s))) (fst s))"
      "rs_k (fst ?s0) = rs_k (fst s)" "tg_sqn_shift (fst ?s0) = tg_sqn_shift (fst s)"
    by (simp_all add: pgm_time_update_now_def nak_rb_expiry_at_def nak_rb_ivl_def)
  have k': "fst (wu (rxw (snd ?s0)) (spm_trail spm) (spm_lead spm) (rs_k (fst ?s0))
                  (tg_sqn_shift (fst ?s0)) (fst (nak_rb_expiry_at ?now (fst ?s0)))) = 0"
    unfolding k using n by simp
  have z: "fst ?r1 = 0"
    by (rule on_spm_accept_retval [where wu = wu and s = ?s0 and now = ?now and spm = spm,
          OF k'])
  from on_spm_options_stats(5) [OF r2] out z have "fst (snd r2) = 0" by simp
  then show ?thesis
    using v a r2 out by (simp add: on_spm_def Let_def mutexes_free_def)
qed

text \<open>C5. An SPM that passes \<open>pgm_verify_spm\<close> and reaches \<open>on_spm\<close> with the two mutexes
  free is accepted exactly when its sequence number is greater-equal the last seen, modulo
  \<open>2^32\<close>, or the peer's NLA has no family yet (its first SPM). When the option block is
  passed without \<^verbatim>\<open>goto out\<close>: an SPM that is not accepted leaves the peer's sequence
  number, NLA and window as they were, increments \<open>DUP_SPMS\<close> and makes \<open>on_spm\<close> return
  \<open>-EINVAL\<close>; an accepted SPM stores its sequence number and NLA and updates the window,
  and the same SPM applied a second time is accepted again, its sequence number being equal
  to the last seen: the window is updated again, \<open>DUP_SPMS\<close> stays as it was, and the
  value returned is 0 when the window asks for no NAK. When the option block is left by
  \<^verbatim>\<open>goto out\<close>, \<open>on_spm\<close> returns with both mutexes held, and a second application does
  not return.\<close>

theorem on_spm_accepts_same_spm_again:
  assumes v: "spm_verify spm = 0"
  shows
   "(map_option fst (on_spm_options spm 0 (snd s)) = Some False \<longrightarrow>
      (case on_spm os wu mutexes_free s spm of
         None \<Rightarrow> False
       | Some r \<Rightarrow>
           fst (snd r) = mutexes_free
           \<and> (if pgm_uint32_gte (spm_sqn_rx spm) (peer_spm_sqn (snd s))
                  \<or> sa_family (nla (snd s)) = 0
               then peer_spm_sqn (snd (snd (snd r))) = spm_sqn_rx spm
                    \<and> nla (snd (snd (snd r))) = spm_nla spm
                    \<and> rxw (snd (snd (snd r)))
                        = snd (wu (rxw (snd s)) (spm_trail spm) (spm_lead spm) (rs_k (fst s))
                                 (tg_sqn_shift (fst s))
                                 (fst (nak_rb_expiry_at (shd (clock (fst s))) (fst s))))
                    \<and> peer_cumulative_stats (snd (snd (snd r))) PGM_PC_RECEIVER_DUP_SPMS
                        = peer_cumulative_stats (snd s) PGM_PC_RECEIVER_DUP_SPMS
                    \<and> (case on_spm os wu (fst (snd r)) (snd (snd r)) spm of
                          None \<Rightarrow> False
                        | Some r' \<Rightarrow>
                            fst (snd r') = mutexes_free
                            \<and> peer_spm_sqn (snd (snd (snd r'))) = spm_sqn_rx spm
                            \<and> nla (snd (snd (snd r'))) = spm_nla spm
                            \<and> rxw (snd (snd (snd r')))
                                = snd (wu (rxw (snd (snd (snd r)))) (spm_trail spm)
                                         (spm_lead spm) (rs_k (fst (snd (snd r))))
                                         (tg_sqn_shift (fst (snd (snd r))))
                                         (fst (nak_rb_expiry_at
                                                 (shd (clock (fst (snd (snd r)))))
                                                 (fst (snd (snd r))))))
                            \<and> peer_cumulative_stats (snd (snd (snd r')))
                                  PGM_PC_RECEIVER_DUP_SPMS
                                = peer_cumulative_stats (snd s) PGM_PC_RECEIVER_DUP_SPMS
                            \<and> (fst (wu (rxw (snd (snd (snd r)))) (spm_trail spm)
                                         (spm_lead spm) (rs_k (fst (snd (snd r))))
                                         (tg_sqn_shift (fst (snd (snd r))))
                                         (fst (nak_rb_expiry_at
                                                 (shd (clock (fst (snd (snd r)))))
                                                 (fst (snd (snd r)))))) = 0
                                \<longrightarrow> fst r' = 0))
               else fst r = - EINVAL
                    \<and> peer_spm_sqn (snd (snd (snd r))) = peer_spm_sqn (snd s)
                    \<and> nla (snd (snd (snd r))) = nla (snd s)
                    \<and> rxw (snd (snd (snd r))) = rxw (snd s)
                    \<and> peer_cumulative_stats (snd (snd (snd r))) PGM_PC_RECEIVER_DUP_SPMS
                        = peer_cumulative_stats (snd s) PGM_PC_RECEIVER_DUP_SPMS + 1)))
    \<and> (map_option fst (on_spm_options spm 0 (snd s)) = Some True \<longrightarrow>
      (case on_spm os wu mutexes_free s spm of
         None \<Rightarrow> False
       | Some r \<Rightarrow>
           fst (snd r) = \<lparr>transport_mutex = True, sender_mutex = True\<rparr>
           \<and> on_spm os wu (fst (snd r)) (snd (snd r)) spm = None))"
proof (intro conjI impI)
  assume o: "map_option fst (on_spm_options spm 0 (snd s)) = Some False"
  let ?acc = "pgm_uint32_gte (spm_sqn_rx spm) (peer_spm_sqn (snd s))
                 \<or> sa_family (nla (snd s)) = 0"
  let ?P = "\<lambda>r. if ?acc
              then peer_spm_sqn (snd (snd (snd r))) = spm_sqn_rx spm
                   \<and> nla (snd (snd (snd r))) = spm_nla spm
                   \<and> rxw (snd (snd (snd r)))
                       = snd (wu (rxw (snd s)) (spm_trail spm) (spm_lead spm) (rs_k (fst s))
                                (tg_sqn_shift (fst s))
                                (fst (nak_rb_expiry_at (shd (clock (fst s))) (fst s))))
                   \<and> peer_cumulative_stats (snd (snd (snd r))) PGM_PC_RECEIVER_DUP_SPMS
                       = peer_cumulative_stats (snd s) PGM_PC_RECEIVER_DUP_SPMS
              else fst r = - EINVAL
                   \<and> peer_spm_sqn (snd (snd (snd r))) = peer_spm_sqn (snd s)
                   \<and> nla (snd (snd (snd r))) = nla (snd s)
                   \<and> rxw (snd (snd (snd r))) = rxw (snd s)
                   \<and> peer_cumulative_stats (snd (snd (snd r))) PGM_PC_RECEIVER_DUP_SPMS
                       = peer_cumulative_stats (snd s) PGM_PC_RECEIVER_DUP_SPMS + 1"
  from on_spm_once [OF v refl o, where os = os and wu = wu]
  obtain r where r: "on_spm os wu mutexes_free s spm = Some r"
    and mf: "fst (snd r) = mutexes_free" and p: "?P r"
    by (cases "on_spm os wu mutexes_free s spm") (auto simp add: mutexes_free_def)
  let ?s1 = "snd (snd r)"
  let ?n = "fst (wu (rxw (snd ?s1)) (spm_trail spm) (spm_lead spm) (rs_k (fst ?s1))
                   (tg_sqn_shift (fst ?s1))
                   (fst (nak_rb_expiry_at (shd (clock (fst ?s1))) (fst ?s1))))"
  let ?Q = "\<lambda>r'. fst (snd r') = mutexes_free
              \<and> peer_spm_sqn (snd (snd (snd r'))) = spm_sqn_rx spm
              \<and> nla (snd (snd (snd r'))) = spm_nla spm
              \<and> rxw (snd (snd (snd r')))
                  = snd (wu (rxw (snd ?s1)) (spm_trail spm) (spm_lead spm) (rs_k (fst ?s1))
                           (tg_sqn_shift (fst ?s1))
                           (fst (nak_rb_expiry_at (shd (clock (fst ?s1))) (fst ?s1))))
              \<and> peer_cumulative_stats (snd (snd (snd r'))) PGM_PC_RECEIVER_DUP_SPMS
                  = peer_cumulative_stats (snd s) PGM_PC_RECEIVER_DUP_SPMS
              \<and> (?n = 0 \<longrightarrow> fst r' = 0)"
  have second: "case on_spm os wu (fst (snd r)) ?s1 spm of None \<Rightarrow> False | Some r' \<Rightarrow> ?Q r'"
    if acc: ?acc
  proof -
    from p acc have q: "peer_spm_sqn (snd ?s1) = spm_sqn_rx spm"
      and d: "peer_cumulative_stats (snd ?s1) PGM_PC_RECEIVER_DUP_SPMS
                = peer_cumulative_stats (snd s) PGM_PC_RECEIVER_DUP_SPMS"
      by simp_all
    have g: "pgm_uint32_gte (spm_sqn_rx spm) (peer_spm_sqn (snd ?s1))"
      unfolding q by (rule pgm_uint32_gte_refl)
    from o on_spm_options_out [of spm 0 "snd ?s1" 0 "snd s"]
    have o1: "map_option fst (on_spm_options spm 0 (snd ?s1)) = Some False" by simp
    from on_spm_once [OF v refl o1, where os = os and wu = wu]
    obtain r' where r': "on_spm os wu mutexes_free ?s1 spm = Some r'"
      and a1: "fst (snd r') = mutexes_free"
      and a2: "peer_spm_sqn (snd (snd (snd r'))) = spm_sqn_rx spm"
        "nla (snd (snd (snd r'))) = spm_nla spm"
        "rxw (snd (snd (snd r')))
           = snd (wu (rxw (snd ?s1)) (spm_trail spm) (spm_lead spm) (rs_k (fst ?s1))
                    (tg_sqn_shift (fst ?s1))
                    (fst (nak_rb_expiry_at (shd (clock (fst ?s1))) (fst ?s1))))"
        "peer_cumulative_stats (snd (snd (snd r'))) PGM_PC_RECEIVER_DUP_SPMS
           = peer_cumulative_stats (snd ?s1) PGM_PC_RECEIVER_DUP_SPMS"
      using g by (cases "on_spm os wu mutexes_free ?s1 spm") (auto simp add: mutexes_free_def)
    have a3: "fst r' = 0" if "?n = 0"
      using on_spm_retval [where os = os and wu = wu and s = ?s1, OF v o1 disjI1, OF g that]
      unfolding r' by simp
    show ?thesis
      unfolding mf r' using a1 a2 a3 d by simp
  qed
  show "case on_spm os wu mutexes_free s spm of
         None \<Rightarrow> False
       | Some r \<Rightarrow>
           fst (snd r) = mutexes_free
           \<and> (if ?acc
               then peer_spm_sqn (snd (snd (snd r))) = spm_sqn_rx spm
                    \<and> nla (snd (snd (snd r))) = spm_nla spm
                    \<and> rxw (snd (snd (snd r)))
                        = snd (wu (rxw (snd s)) (spm_trail spm) (spm_lead spm) (rs_k (fst s))
                                 (tg_sqn_shift (fst s))
                                 (fst (nak_rb_expiry_at (shd (clock (fst s))) (fst s))))
                    \<and> peer_cumulative_stats (snd (snd (snd r))) PGM_PC_RECEIVER_DUP_SPMS
                        = peer_cumulative_stats (snd s) PGM_PC_RECEIVER_DUP_SPMS
                    \<and> (case on_spm os wu (fst (snd r)) (snd (snd r)) spm of
                          None \<Rightarrow> False
                        | Some r' \<Rightarrow>
                            fst (snd r') = mutexes_free
                            \<and> peer_spm_sqn (snd (snd (snd r'))) = spm_sqn_rx spm
                            \<and> nla (snd (snd (snd r'))) = spm_nla spm
                            \<and> rxw (snd (snd (snd r')))
                                = snd (wu (rxw (snd (snd (snd r)))) (spm_trail spm)
                                         (spm_lead spm) (rs_k (fst (snd (snd r))))
                                         (tg_sqn_shift (fst (snd (snd r))))
                                         (fst (nak_rb_expiry_at
                                                 (shd (clock (fst (snd (snd r)))))
                                                 (fst (snd (snd r))))))
                            \<and> peer_cumulative_stats (snd (snd (snd r')))
                                  PGM_PC_RECEIVER_DUP_SPMS
                                = peer_cumulative_stats (snd s) PGM_PC_RECEIVER_DUP_SPMS
                            \<and> (fst (wu (rxw (snd (snd (snd r)))) (spm_trail spm)
                                         (spm_lead spm) (rs_k (fst (snd (snd r))))
                                         (tg_sqn_shift (fst (snd (snd r))))
                                         (fst (nak_rb_expiry_at
                                                 (shd (clock (fst (snd (snd r)))))
                                                 (fst (snd (snd r)))))) = 0
                                \<longrightarrow> fst r' = 0))
               else fst r = - EINVAL
                    \<and> peer_spm_sqn (snd (snd (snd r))) = peer_spm_sqn (snd s)
                    \<and> nla (snd (snd (snd r))) = nla (snd s)
                    \<and> rxw (snd (snd (snd r))) = rxw (snd s)
                    \<and> peer_cumulative_stats (snd (snd (snd r))) PGM_PC_RECEIVER_DUP_SPMS
                        = peer_cumulative_stats (snd s) PGM_PC_RECEIVER_DUP_SPMS + 1)"
  proof (cases ?acc)
    case True
    from second [OF True] p True mf show ?thesis unfolding r by simp
  next
    case False
    with p mf show ?thesis unfolding r by simp
  qed
next
  assume o: "map_option fst (on_spm_options spm 0 (snd s)) = Some True"
  from on_spm_once [OF v refl o, where os = os and wu = wu]
  obtain r where r: "on_spm os wu mutexes_free s spm = Some r"
    and mf: "fst (snd r) = \<lparr>transport_mutex = True, sender_mutex = True\<rparr>"
    by (cases "on_spm os wu mutexes_free s spm") auto
  have "on_spm os wu (fst (snd r)) (snd (snd r)) spm = None"
    by (rule on_spm_blocks [OF v]) (simp add: mf)
  with mf show "case on_spm os wu mutexes_free s spm of
         None \<Rightarrow> False
       | Some r \<Rightarrow>
           fst (snd r) = \<lparr>transport_mutex = True, sender_mutex = True\<rparr>
           \<and> on_spm os wu (fst (snd r)) (snd (snd r)) spm = None"
    unfolding r by simp
qed

theorem on_spm_accepts_same_spm_again_witness:
  "spm_verify spm11 = 0
   \<and> map_option fst (on_spm_options spm11 0 (snd (transport0, peer0))) = Some False
   \<and> pgm_uint32_gte (spm_sqn_rx spm11) (peer_spm_sqn (snd (transport0, peer0)))
   \<and> (case on_spm (\<lambda>w. All_written) window_update_idle mutexes_free (transport0, peer0)
              spm11 of
         None \<Rightarrow> False
       | Some r \<Rightarrow>
           peer_spm_sqn (snd (snd (snd r))) = 11
           \<and> peer_cumulative_stats (snd (snd (snd r))) PGM_PC_RECEIVER_DUP_SPMS = 0
           \<and> (case on_spm (\<lambda>w. All_written) window_update_idle (fst (snd r))
                      (snd (snd r)) spm11 of
                 None \<Rightarrow> False
               | Some r' \<Rightarrow>
                   fst r' = 0
                   \<and> peer_spm_sqn (snd (snd (snd r'))) = 11
                   \<and> peer_cumulative_stats (snd (snd (snd r'))) PGM_PC_RECEIVER_DUP_SPMS = 0))
   \<and> spm_verify spm11_bad_options = 0
   \<and> map_option fst (on_spm_options spm11_bad_options 0 (snd (transport0, peer0))) = Some True
   \<and> (case on_spm (\<lambda>w. All_written) window_update_idle mutexes_free (transport0, peer0)
              spm11_bad_options of
         None \<Rightarrow> False
       | Some r \<Rightarrow>
           fst (snd r) = \<lparr>transport_mutex = True, sender_mutex = True\<rparr>
           \<and> on_spm (\<lambda>w. All_written) window_update_idle (fst (snd r)) (snd (snd r))
                spm11_bad_options = None)"
proof -
  let ?s = "(transport0, peer0)"
  let ?os = "\<lambda>w :: io_event list. All_written"
  have v: "spm_verify spm11 = 0" by (simp add: spm11_def)
  have o: "map_option fst (on_spm_options spm11 0 (snd ?s)) = Some False"
    by (simp add: on_spm_options_def spm11_def PGM_OPT_PRESENT_def)
  have g: "pgm_uint32_gte (spm_sqn_rx spm11) (peer_spm_sqn (snd ?s))"
    by (simp add: pgm_uint32_gte_def spm11_def peer0_def)
  have q: "spm_sqn_rx spm11 = 11"
      "peer_cumulative_stats (snd ?s) PGM_PC_RECEIVER_DUP_SPMS = 0"
    by (simp_all add: spm11_def peer0_def)
  have z: "fst (window_update_idle a b c d e f) = 0" for a b c d e f
    by (simp add: window_update_idle_def)
  note T = on_spm_accepts_same_spm_again [OF v, where os = ?os and wu = window_update_idle
      and s = ?s, THEN conjunct1, THEN mp, OF o]
  have a: "case on_spm ?os window_update_idle mutexes_free ?s spm11 of
         None \<Rightarrow> False
       | Some r \<Rightarrow>
           peer_spm_sqn (snd (snd (snd r))) = 11
           \<and> peer_cumulative_stats (snd (snd (snd r))) PGM_PC_RECEIVER_DUP_SPMS = 0
           \<and> (case on_spm ?os window_update_idle (fst (snd r)) (snd (snd r)) spm11 of
                 None \<Rightarrow> False
               | Some r' \<Rightarrow>
                   fst r' = 0
                   \<and> peer_spm_sqn (snd (snd (snd r'))) = 11
                   \<and> peer_cumulative_stats (snd (snd (snd r'))) PGM_PC_RECEIVER_DUP_SPMS = 0)"
  proof (cases "on_spm ?os window_update_idle mutexes_free ?s spm11")
    case None
    with T show ?thesis by simp
  next
    case (Some r)
    from T g show ?thesis
      unfolding Some option.case q z
      by (cases "on_spm ?os window_update_idle (fst (snd r)) (snd (snd r)) spm11") auto
  qed
  have v': "spm_verify spm11_bad_options = 0"
    by (simp add: spm11_bad_options_def spm11_def)
  have o': "map_option fst (on_spm_options spm11_bad_options 0 (snd ?s)) = Some True"
    by (simp add: on_spm_options_def spm11_bad_options_def spm11_def PGM_OPT_PRESENT_def
        PGM_OPT_LENGTH_def)
  note b = on_spm_accepts_same_spm_again [OF v', where os = ?os and wu = window_update_idle
      and s = ?s, THEN conjunct2, THEN mp, OF o']
  show ?thesis using v o g a v' o' b by blast
qed

section \<open>Theorems: the expiry of the back-off\<close>

lemma mod_window_inj:
  fixes n m :: nat
  assumes "0 < n"
  shows "inj_on (\<lambda>r. r mod n) {m..<m + n}"
proof (rule inj_onI)
  fix x y assume x: "x \<in> {m..<m + n}" and y: "y \<in> {m..<m + n}" and e: "x mod n = y mod n"
  have a: "u = w" if "u \<le> w" and "w - u < n" and "u mod n = w mod n" for u w :: nat
  proof -
    from that(3) have "w mod n = u mod n" by simp
    then have "n dvd w - u" by (simp only: mod_eq_dvd_iff_nat [OF that(1)])
    with that(2) have "w - u = 0" by (meson dvd_imp_le not_less zero_less_iff_neq_zero)
    with that(1) show ?thesis by simp
  qed
  show "x = y"
  proof (cases "x \<le> y")
    case True
    with x y have "y - x < n" by auto
    from a [OF True this e] show ?thesis .
  next
    case False
    then have l: "y \<le> x" by simp
    with x y have "x - y < n" by auto
    from a [OF l this e [symmetric]] show ?thesis by simp
  qed
qed

lemma mod_window_image:
  fixes n m :: nat
  assumes "0 < n"
  shows "(\<lambda>r. r mod n) ` {m..<m + n} = {0..<n}"
proof (rule card_subset_eq)
  show "finite {0..<n}" by simp
  show "(\<lambda>r. r mod n) ` {m..<m + n} \<subseteq> {0..<n}" using assms by auto
  have "card ((\<lambda>r. r mod n) ` {m..<m + n}) = card {m..<m + n}"
    by (rule card_image [OF mod_window_inj [OF assms]])
  then show "card ((\<lambda>r. r mod n) ` {m..<m + n}) = card {0..<n}" by simp
qed

lemma nak_rb_ivl_small:
  assumes lo: "2 \<le> unat (nak_bo_ivl t)" and hi: "unat (nak_bo_ivl t) < 2 ^ 31"
  shows "unat (fst (nak_rb_ivl t)) = 1 + shd (grand t) mod (unat (nak_bo_ivl t) - 1)"
proof -
  let ?n = "nak_bo_ivl t"
  have n: "uint ?n = int (unat ?n)" by simp
  have "int (unat ?n) < int (2 ^ 31)" using hi by (simp only: of_nat_less_iff)
  then have u: "uint ?n < 2 ^ 31" unfolding n by simp
  have "signed_take_bit 31 (uint ?n) = uint ?n"
  proof (rule signed_take_bit_int_eq_self)
    have "(- (2 ^ 31) :: int) \<le> 0" by simp
    also have "0 \<le> uint ?n" by (rule uint_ge_0)
    finally show "- (2 ^ 31) \<le> uint ?n" .
    show "uint ?n < 2 ^ 31" by (rule u)
  qed
  then have s: "sint ?n = uint ?n"
    by (simp add: sint_uint)
  have "int 2 \<le> int (unat ?n)" using lo by (simp only: of_nat_le_iff)
  then have p: "1 < sint ?n" unfolding s n by simp
  let ?r = "g_rand_int_range (shd (grand t)) 1 (sint ?n)"
  have e: "?r = 1 + int (shd (grand t)) mod (int (unat ?n) - 1)"
    using p unfolding s n by (simp add: g_rand_int_range_def)
  have m: "int (shd (grand t)) mod (int (unat ?n) - 1) = int (shd (grand t) mod (unat ?n - 1))"
    using lo by (simp add: zmod_int of_nat_diff)
  have r: "?r = int (1 + shd (grand t) mod (unat ?n - 1))"
    unfolding e m by simp
  have b: "1 + shd (grand t) mod (unat ?n - 1) < 2 ^ 32"
  proof -
    have "shd (grand t) mod (unat ?n - 1) < unat ?n - 1"
      using lo by (intro mod_less_divisor) simp
    with hi show ?thesis by simp
  qed
  have "unat (word_of_int ?r :: 32 word) = 1 + shd (grand t) mod (unat ?n - 1)"
    unfolding r of_int_of_nat_eq unat_of_nat using b by simp
  then show ?thesis by (simp add: nak_rb_ivl_def)
qed

lemma nak_rb_ivl_large:
  assumes "2 ^ 31 \<le> unat (nak_bo_ivl t)"
  shows "fst (nak_rb_ivl t) = 1"
proof -
  let ?n = "nak_bo_ivl t"
  have n: "uint ?n = int (unat ?n)" by simp
  have "int (2 ^ 31) \<le> int (unat ?n)" using assms by (simp only: of_nat_le_iff)
  then have g: "2 ^ 31 \<le> uint ?n" unfolding n by simp
  have l: "uint ?n < 2 ^ 32" using uint_lt2p [of ?n] by simp
  have "sint ?n \<le> uint ?n - 2 ^ Suc 31"
    unfolding sint_uint using signed_take_bit_int_less_eq [OF g] by simp
  with l have "sint ?n < 0" by simp
  then have "g_rand_int_range (shd (grand t)) 1 (sint ?n) = 1"
    by (simp add: g_rand_int_range_def)
  then show ?thesis by (simp add: nak_rb_ivl_def)
qed

lemma nak_rb_ivl_window:
  assumes lo: "2 \<le> unat (nak_bo_ivl t)" and hi: "unat (nak_bo_ivl t) < 2 ^ 31"
  shows "distinct (map (\<lambda>raw. unat (fst (nak_rb_ivl (t\<lparr>grand := raw ## g\<rparr>))))
                     [m ..< m + (unat (nak_bo_ivl t) - 1)])"
    and "set (map (\<lambda>raw. unat (fst (nak_rb_ivl (t\<lparr>grand := raw ## g\<rparr>))))
                [m ..< m + (unat (nak_bo_ivl t) - 1)])
         = {1 ..< unat (nak_bo_ivl t)}"
proof -
  let ?n = "unat (nak_bo_ivl t) - 1"
  have n: "0 < ?n" using lo by simp
  have f: "unat (fst (nak_rb_ivl (t\<lparr>grand := raw ## g\<rparr>))) = 1 + raw mod ?n" for raw
    using nak_rb_ivl_small [of "t\<lparr>grand := raw ## g\<rparr>"] lo hi by simp
  have i: "inj_on (\<lambda>raw. 1 + raw mod ?n) {m..<m + ?n}"
    using mod_window_inj [OF n, of m] by (auto simp add: inj_on_def)
  show "distinct (map (\<lambda>raw. unat (fst (nak_rb_ivl (t\<lparr>grand := raw ## g\<rparr>)))) [m ..< m + ?n])"
    unfolding f using i by (simp add: distinct_map)
  have "(\<lambda>raw. 1 + raw mod ?n) ` {m..<m + ?n} = Suc ` ((\<lambda>r. r mod ?n) ` {m..<m + ?n})"
    by (simp add: image_image)
  also have "\<dots> = Suc ` {0..<?n}" by (simp only: mod_window_image [OF n])
  also have "\<dots> = {1 ..< unat (nak_bo_ivl t)}"
    using lo by (simp add: image_Suc_atLeastLessThan)
  finally show "set (map (\<lambda>raw. unat (fst (nak_rb_ivl (t\<lparr>grand := raw ## g\<rparr>)))) [m ..< m + ?n])
         = {1 ..< unat (nak_bo_ivl t)}"
    unfolding f by simp
qed

lemma nak_rb_expiry_at_window:
  assumes lo: "2 \<le> unat (nak_bo_ivl t)" and hi: "unat (nak_bo_ivl t) < 2 ^ 31"
  shows "distinct (map (\<lambda>raw. fst (nak_rb_expiry_at now (t\<lparr>grand := raw ## g\<rparr>)))
                     [m ..< m + (unat (nak_bo_ivl t) - 1)])"
    and "set (map (\<lambda>raw. fst (nak_rb_expiry_at now (t\<lparr>grand := raw ## g\<rparr>)))
                [m ..< m + (unat (nak_bo_ivl t) - 1)])
         = {now + 1 ..< now + unat (nak_bo_ivl t)}"
proof -
  let ?f = "\<lambda>raw. unat (fst (nak_rb_ivl (t\<lparr>grand := raw ## g\<rparr>)))"
  let ?l = "[m ..< m + (unat (nak_bo_ivl t) - 1)]"
  have e: "(\<lambda>raw. fst (nak_rb_expiry_at now (t\<lparr>grand := raw ## g\<rparr>))) = (\<lambda>raw. now + ?f raw)"
    by (simp add: nak_rb_expiry_at_def)
  have d: "distinct (map ?f ?l)" by (rule nak_rb_ivl_window(1) [OF lo hi])
  have s: "set (map ?f ?l) = {1 ..< unat (nak_bo_ivl t)}" by (rule nak_rb_ivl_window(2) [OF lo hi])
  have m: "map (\<lambda>raw. now + ?f raw) ?l = map ((+) now) (map ?f ?l)" by simp
  show "distinct (map (\<lambda>raw. fst (nak_rb_expiry_at now (t\<lparr>grand := raw ## g\<rparr>))) ?l)"
    unfolding e m using d by (simp only: distinct_map) (simp add: inj_on_def)
  have "set (map ((+) now) (map ?f ?l)) = (+) now ` {1 ..< unat (nak_bo_ivl t)}"
    unfolding set_map [of "(+) now"] s ..
  also have "\<dots> = {now + 1 ..< now + unat (nak_bo_ivl t)}"
    by (simp add: image_add_atLeastLessThan add.commute)
  finally show "set (map (\<lambda>raw. fst (nak_rb_expiry_at now (t\<lparr>grand := raw ## g\<rparr>))) ?l)
         = {now + 1 ..< now + unat (nak_bo_ivl t)}"
    unfolding e m .
qed

lemma retry_nak_rb_expiry:
  assumes "wait_ncf_queue (rxw (snd s)) = rp # prev"
    and "state rp = PGM_PKT_WAIT_NCF_STATE"
    and "\<not> unat (nak_ncf_retries (fst s)) < unat (ncf_retry_count rp + 1)"
  shows "backoff_queue (rxw (snd (nak_rpt_step rp s)))
           = backoff_queue (rxw (snd s))
             @ [rp\<lparr>ncf_retry_count := ncf_retry_count rp + 1,
                   state := PGM_PKT_BACK_OFF_STATE,
                   nak_rb_expiry := fst (nak_rb_expiry_at (pgm_time_now (fst s)) (fst s))\<rparr>]"
  unfolding nak_rpt_step_retry(2) [OF assms]
  by (simp add: back_off_again_def rb_expiry_nth_0)

lemma retry_data_nak_rb_expiry:
  assumes "wait_data_queue (rxw (snd s)) = rp # prev"
    and "state rp = PGM_PKT_WAIT_DATA_STATE"
    and "\<not> unat (nak_data_retries (fst s)) < unat (data_retry_count rp + 1)"
  shows "backoff_queue (rxw (snd (nak_rdata_step rp s)))
           = backoff_queue (rxw (snd s))
             @ [rp\<lparr>data_retry_count := data_retry_count rp + 1,
                   state := PGM_PKT_BACK_OFF_STATE,
                   nak_rb_expiry := fst (nak_rb_expiry_at (pgm_time_now (fst s)) (fst s))\<rparr>]"
  unfolding nak_rdata_step_retry(2) [OF assms]
  by (simp add: back_off_again_def rb_expiry_nth_0)

text \<open>C8. The \<open>nak_rb_expiry\<close> of an entry that enters the back-off state at \<open>now\<close> is
  \<open>now\<close> plus \<^verbatim>\<open>nak_rb_ivl(transport)\<close>: the retry branches of \<open>nak_rpt_state\<close> and
  \<open>nak_rdata_state\<close> store this value in the entry they put back on the back-off queue,
  and \<open>on_spm\<close> hands it to \<^verbatim>\<open>pgm_rxw_window_update\<close> (as \<open>on_odata\<close> and \<open>on_rdata\<close>
  hand it to the receive window, which is not among the sources). With
  \<open>2 \<le> nak_bo_ivl < 2^31\<close> the value is \<open>now + 1 + raw mod (nak_bo_ivl - 1)\<close> for the
  number \<open>raw\<close> the generator gives: it lies strictly between \<open>now\<close> and
  \<open>now + nak_bo_ivl\<close>, and over any \<open>nak_bo_ivl - 1\<close> consecutive numbers of the generator
  it takes each value of that range exactly once. With \<open>nak_bo_ivl \<ge> 2^31\<close>, which the
  setter accepts, the \<^verbatim>\<open>gint32\<close> end of the range is negative and the value is \<open>now + 1\<close>
  whatever the generator gives.\<close>

theorem nak_rb_expiry_drawn_only_below_2_31:
  "(2 \<le> unat (nak_bo_ivl (fst s)) \<and> unat (nak_bo_ivl (fst s)) < 2 ^ 31 \<longrightarrow>
      fst (nak_rb_expiry_at now (fst s))
        = now + 1 + shd (grand (fst s)) mod (unat (nak_bo_ivl (fst s)) - 1)
      \<and> now < fst (nak_rb_expiry_at now (fst s))
      \<and> fst (nak_rb_expiry_at now (fst s)) < now + unat (nak_bo_ivl (fst s))
      \<and> distinct (map (\<lambda>raw. fst (nak_rb_expiry_at now ((fst s)\<lparr>grand := raw ## g\<rparr>)))
                     [m ..< m + (unat (nak_bo_ivl (fst s)) - 1)])
      \<and> set (map (\<lambda>raw. fst (nak_rb_expiry_at now ((fst s)\<lparr>grand := raw ## g\<rparr>)))
                [m ..< m + (unat (nak_bo_ivl (fst s)) - 1)])
          = {now + 1 ..< now + unat (nak_bo_ivl (fst s))})
   \<and> (2 ^ 31 \<le> unat (nak_bo_ivl (fst s)) \<longrightarrow>
        fst (nak_rb_expiry_at now (fst s)) = now + 1)
   \<and> (wait_ncf_queue (rxw (snd s)) = rp # prev \<and> state rp = PGM_PKT_WAIT_NCF_STATE
        \<and> \<not> unat (nak_ncf_retries (fst s)) < unat (ncf_retry_count rp + 1) \<longrightarrow>
        backoff_queue (rxw (snd (nak_rpt_step rp s)))
          = backoff_queue (rxw (snd s))
            @ [rp\<lparr>ncf_retry_count := ncf_retry_count rp + 1,
                  state := PGM_PKT_BACK_OFF_STATE,
                  nak_rb_expiry := fst (nak_rb_expiry_at (pgm_time_now (fst s)) (fst s))\<rparr>])
   \<and> (wait_data_queue (rxw (snd s)) = rp # prev \<and> state rp = PGM_PKT_WAIT_DATA_STATE
        \<and> \<not> unat (nak_data_retries (fst s)) < unat (data_retry_count rp + 1) \<longrightarrow>
        backoff_queue (rxw (snd (nak_rdata_step rp s)))
          = backoff_queue (rxw (snd s))
            @ [rp\<lparr>data_retry_count := data_retry_count rp + 1,
                  state := PGM_PKT_BACK_OFF_STATE,
                  nak_rb_expiry := fst (nak_rb_expiry_at (pgm_time_now (fst s)) (fst s))\<rparr>])
   \<and> rxw (snd (snd (on_spm_accept os wu now s spm)))
       = snd (wu (rxw (snd s)) (spm_trail spm) (spm_lead spm) (rs_k (fst s))
                (tg_sqn_shift (fst s)) (fst (nak_rb_expiry_at now (fst s))))"
proof (intro conjI impI)
  assume h: "2 \<le> unat (nak_bo_ivl (fst s)) \<and> unat (nak_bo_ivl (fst s)) < 2 ^ 31"
  then have lo: "2 \<le> unat (nak_bo_ivl (fst s))" and hi: "unat (nak_bo_ivl (fst s)) < 2 ^ 31"
    by simp_all
  show "fst (nak_rb_expiry_at now (fst s))
        = now + 1 + shd (grand (fst s)) mod (unat (nak_bo_ivl (fst s)) - 1)"
    by (simp add: nak_rb_expiry_at_def nak_rb_ivl_small [OF lo hi])
  show "now < fst (nak_rb_expiry_at now (fst s))"
    by (rule nak_rb_expiry_at_range(1) [OF lo])
  show "fst (nak_rb_expiry_at now (fst s)) < now + unat (nak_bo_ivl (fst s))"
    by (rule nak_rb_expiry_at_range(2) [OF lo])
  show "distinct (map (\<lambda>raw. fst (nak_rb_expiry_at now ((fst s)\<lparr>grand := raw ## g\<rparr>)))
                     [m ..< m + (unat (nak_bo_ivl (fst s)) - 1)])"
    by (rule nak_rb_expiry_at_window(1) [OF lo hi])
  show "set (map (\<lambda>raw. fst (nak_rb_expiry_at now ((fst s)\<lparr>grand := raw ## g\<rparr>)))
                [m ..< m + (unat (nak_bo_ivl (fst s)) - 1)])
          = {now + 1 ..< now + unat (nak_bo_ivl (fst s))}"
    by (rule nak_rb_expiry_at_window(2) [OF lo hi])
next
  assume "2 ^ 31 \<le> unat (nak_bo_ivl (fst s))"
  then show "fst (nak_rb_expiry_at now (fst s)) = now + 1"
    by (simp add: nak_rb_expiry_at_def nak_rb_ivl_large)
next
  assume "wait_ncf_queue (rxw (snd s)) = rp # prev \<and> state rp = PGM_PKT_WAIT_NCF_STATE
        \<and> \<not> unat (nak_ncf_retries (fst s)) < unat (ncf_retry_count rp + 1)"
  then show "backoff_queue (rxw (snd (nak_rpt_step rp s)))
          = backoff_queue (rxw (snd s))
            @ [rp\<lparr>ncf_retry_count := ncf_retry_count rp + 1,
                  state := PGM_PKT_BACK_OFF_STATE,
                  nak_rb_expiry := fst (nak_rb_expiry_at (pgm_time_now (fst s)) (fst s))\<rparr>]"
    using retry_nak_rb_expiry by blast
next
  assume "wait_data_queue (rxw (snd s)) = rp # prev \<and> state rp = PGM_PKT_WAIT_DATA_STATE
        \<and> \<not> unat (nak_data_retries (fst s)) < unat (data_retry_count rp + 1)"
  then show "backoff_queue (rxw (snd (nak_rdata_step rp s)))
          = backoff_queue (rxw (snd s))
            @ [rp\<lparr>data_retry_count := data_retry_count rp + 1,
                  state := PGM_PKT_BACK_OFF_STATE,
                  nak_rb_expiry := fst (nak_rb_expiry_at (pgm_time_now (fst s)) (fst s))\<rparr>]"
    using retry_data_nak_rb_expiry by blast
next
  show "rxw (snd (snd (on_spm_accept os wu now s spm)))
       = snd (wu (rxw (snd s)) (spm_trail spm) (spm_lead spm) (rs_k (fst s))
                (tg_sqn_shift (fst s)) (fst (nak_rb_expiry_at now (fst s))))"
    by (rule on_spm_accept_fields(4))
qed

theorem nak_rb_expiry_drawn_only_below_2_31_witness:
  "2 \<le> unat (nak_bo_ivl (fst (transport0, peer_retry)))
   \<and> unat (nak_bo_ivl (fst (transport0, peer_retry))) < 2 ^ 31
   \<and> fst (nak_rb_expiry_at 1000000 transport0) = 1000008
   \<and> set (map (\<lambda>raw. fst (nak_rb_expiry_at 1000000 (transport0\<lparr>grand := raw ## sconst 0\<rparr>)))
             [0 ..< 49999])
       = {1000001 ..< 1050000}
   \<and> 2 ^ 31 \<le> unat (nak_bo_ivl (fst (transport_bo31, peer_retry)))
   \<and> fst (nak_rb_expiry_at 1000000 transport_bo31) = 1000001
   \<and> fst (nak_rb_expiry_at 1000000 (transport_bo31\<lparr>grand := sconst 12345\<rparr>)) = 1000001
   \<and> wait_ncf_queue (rxw (snd (transport_bo31, peer_retry)))
       = [entry 6 PGM_PKT_WAIT_NCF_STATE 950000 0]
   \<and> backoff_queue (rxw (snd (nak_rpt_step (entry 6 PGM_PKT_WAIT_NCF_STATE 950000 0)
                                  (transport_bo31, peer_retry))))
       = [(entry 6 PGM_PKT_BACK_OFF_STATE 950000 0)
            \<lparr>ncf_retry_count := 1, nak_rb_expiry := 1000001\<rparr>]
   \<and> wait_data_queue (rxw (snd (transport_bo31, peer_retry)))
       = [entry 8 PGM_PKT_WAIT_DATA_STATE 900000 0]
   \<and> backoff_queue (rxw (snd (nak_rdata_step (entry 8 PGM_PKT_WAIT_DATA_STATE 900000 0)
                                  (transport_bo31, peer_retry))))
       = [(entry 8 PGM_PKT_BACK_OFF_STATE 900000 0)
            \<lparr>data_retry_count := 1, nak_rb_expiry := 1000001\<rparr>]"
proof -
  let ?s0 = "(transport0, peer_retry)"
  let ?s1 = "(transport_bo31, peer_retry)"
  let ?s2 = "(transport_bo31\<lparr>grand := sconst 12345\<rparr>, peer_retry)"
  let ?n = "entry 6 PGM_PKT_WAIT_NCF_STATE 950000 0"
  let ?d = "entry 8 PGM_PKT_WAIT_DATA_STATE 900000 0"
  have f0: "unat (nak_bo_ivl transport0) = 50000" "shd (grand transport0) = 7"
    by (simp_all add: transport0_def)
  have lo: "2 \<le> unat (nak_bo_ivl (fst ?s0))" and hi: "unat (nak_bo_ivl (fst ?s0)) < 2 ^ 31"
    by (simp_all add: transport0_def)
  have f1: "2 ^ 31 \<le> unat (nak_bo_ivl (fst ?s1))" "2 ^ 31 \<le> unat (nak_bo_ivl (fst ?s2))"
      "pgm_time_now transport_bo31 = 1000000"
    by (simp_all add: transport_bo31_def transport0_def)
  have q: "wait_ncf_queue (rxw (snd ?s1)) = [?n]" "wait_data_queue (rxw (snd ?s1)) = [?d]"
      "backoff_queue (rxw (snd ?s1)) = []"
      "state ?n = PGM_PKT_WAIT_NCF_STATE" "state ?d = PGM_PKT_WAIT_DATA_STATE"
      "\<not> unat (nak_ncf_retries (fst ?s1)) < unat (ncf_retry_count ?n + 1)"
      "\<not> unat (nak_data_retries (fst ?s1)) < unat (data_retry_count ?d + 1)"
    by (simp_all add: peer_retry_def peer0_def rxw0_def entry_def transport_bo31_def
        transport0_def)
  note T0 = nak_rb_expiry_drawn_only_below_2_31 [where s = ?s0 and now = 1000000
      and g = "sconst 0" and m = 0, THEN conjunct1, THEN mp, OF conjI, OF lo hi]
  note T1 = nak_rb_expiry_drawn_only_below_2_31 [where s = ?s1 and now = 1000000
      and rp = ?n and prev = "[]"]
  note T2 = nak_rb_expiry_drawn_only_below_2_31 [where s = ?s2 and now = 1000000,
      THEN conjunct2, THEN conjunct1, THEN mp, OF f1(2)]
  note T1d = nak_rb_expiry_drawn_only_below_2_31 [where s = ?s1 and now = 1000000
      and rp = ?d and prev = "[]"]
  have a: "fst (nak_rb_expiry_at 1000000 transport0) = 1000008"
    using T0 [THEN conjunct1] unfolding fst_conv f0 by simp
  have b: "set (map (\<lambda>raw. fst (nak_rb_expiry_at 1000000 (transport0\<lparr>grand := raw ## sconst 0\<rparr>)))
             [0 ..< 49999]) = {1000001 ..< 1050000}"
    using T0 [THEN conjunct2, THEN conjunct2, THEN conjunct2, THEN conjunct2]
    unfolding fst_conv f0 by simp
  have c: "fst (nak_rb_expiry_at 1000000 transport_bo31) = 1000001"
    using T1 [THEN conjunct2, THEN conjunct1, THEN mp, OF f1(1)] unfolding fst_conv by simp
  have c': "fst (nak_rb_expiry_at 1000000 (transport_bo31\<lparr>grand := sconst 12345\<rparr>)) = 1000001"
    using T2 unfolding fst_conv by simp
  have d: "backoff_queue (rxw (snd (nak_rpt_step ?n ?s1)))
       = [(entry 6 PGM_PKT_BACK_OFF_STATE 950000 0)
            \<lparr>ncf_retry_count := 1, nak_rb_expiry := 1000001\<rparr>]"
    using T1 [THEN conjunct2, THEN conjunct2, THEN conjunct1, THEN mp, OF conjI, OF q(1),
        OF conjI, OF q(4) q(6)]
    unfolding q(3) fst_conv f1(3) c by (simp add: entry_def)
  have e: "backoff_queue (rxw (snd (nak_rdata_step ?d ?s1)))
       = [(entry 8 PGM_PKT_BACK_OFF_STATE 900000 0)
            \<lparr>data_retry_count := 1, nak_rb_expiry := 1000001\<rparr>]"
    using T1d [THEN conjunct2, THEN conjunct2, THEN conjunct2, THEN conjunct1, THEN mp,
        OF conjI, OF q(2), OF conjI, OF q(5) q(7)]
    unfolding q(3) fst_conv f1(3) c by (simp add: entry_def)
  show ?thesis using lo hi a b f1(1) c c' q(1) d q(2) e by blast
qed

section \<open>Theorems: on_nak\<close>

lemma queue_retransmit_wire:
  "wire (snd (queue_retransmit os txw False sqns rt))
     = wire (snd rt) @ rdata_requests txw (wire (snd rt)) sqns"
proof (induction sqns arbitrary: rt)
  case Nil
  show ?case by simp
next
  case (Cons sqn rest)
  show ?case
    by (simp add: Cons.IH pgm_txw_retransmit_push_def write_pipe_def Let_def)
qed

lemma queue_retransmit_stats:
  "cumulative_stats (snd (queue_retransmit os txw par sqns rt)) = cumulative_stats (snd rt)"
proof (induction sqns arbitrary: rt)
  case Nil
  show ?case by simp
next
  case (Cons sqn rest)
  show ?case
    by (simp add: Cons.IH pgm_txw_retransmit_push_def write_pipe_def Let_def)
qed

lemma queue_retransmit_retval:
  "fst (queue_retransmit os txw par sqns rt) = fst rt
   \<or> fst (queue_retransmit os txw par sqns rt) = - EINVAL"
proof (induction sqns arbitrary: rt)
  case Nil
  show ?case by simp
next
  case (Cons sqn rest)
  let ?p = "pgm_txw_retransmit_push txw (snd rt) sqn par"
  let ?wr = "write_pipe os (snd ?p) RDATA_PIPE"
  show ?case
    using Cons.IH [of "((if fst ?wr = All_written then fst rt else - EINVAL), snd ?wr)"]
      Cons.IH [of "(fst rt, snd ?p)"]
    by (auto simp: Let_def)
qed

lemma rdata_requests_pushes:
  "filter (\<lambda>e. e \<noteq> Write_pipe RDATA_PIPE) (rdata_requests txw w sqns)
     = map (\<lambda>sqn. Txw_retransmit_push sqn False) sqns"
  by (induction sqns arbitrary: w) simp_all

lemma on_nak_options_length:
  "on_nak_options nak = Some (Inr nak_list) \<Longrightarrow> length nak_list \<le> 62"
  by (auto simp: on_nak_options_def split: if_splits option.splits)

lemma on_nak_reject:
  assumes sel: "nak_pgm_options nak AND PGM_OPT_PARITY = 0"
    and v: "nak_verify nak = 0"
    and fam: "sa_family (send_smr_interface t) = AF_INET
              \<or> sa_family (send_smr_interface t) = AF_INET6"
    and mis: "nak_src_nla nak \<noteq> send_smr_interface t
              \<or> (if sa_family (send_smr_interface t) = AF_INET then nak_grp_nla nak
                  else nak6_grp_nla nak) \<noteq> send_smr_multiaddr t"
  shows "on_nak os txw t nak
     = Some (- EINVAL,
         malformed_nak (t\<lparr>cumulative_stats :=
           stat_inc (cumulative_stats t) PGM_PC_SOURCE_SELECTIVE_NAKS_RECEIVED\<rparr>))"
  using assms
  by (auto simp: on_nak_def Let_def pgm_sockaddr_cmp_def malformed_nak_def AF_INET_def
      AF_INET6_def)

lemma on_nak_match:
  assumes sel: "nak_pgm_options nak AND PGM_OPT_PARITY = 0"
    and v: "nak_verify nak = 0"
    and fam: "sa_family (send_smr_interface t) = AF_INET
              \<or> sa_family (send_smr_interface t) = AF_INET6"
    and src: "nak_src_nla nak = send_smr_interface t"
    and grp: "(if sa_family (send_smr_interface t) = AF_INET then nak_grp_nla nak
               else nak6_grp_nla nak) = send_smr_multiaddr t"
  shows "on_nak os txw t nak
     = (case on_nak_options nak of
          None \<Rightarrow> None
        | Some (Inl u) \<Rightarrow>
            Some (- EINVAL,
              malformed_nak (t\<lparr>cumulative_stats :=
                stat_inc (cumulative_stats t) PGM_PC_SOURCE_SELECTIVE_NAKS_RECEIVED\<rparr>))
        | Some (Inr nak_list) \<Rightarrow>
            (case (if nak_list \<noteq> []
                   then map_option snd
                          (send_ncf_list os
                             (t\<lparr>cumulative_stats :=
                                stat_inc (cumulative_stats t)
                                  PGM_PC_SOURCE_SELECTIVE_NAKS_RECEIVED\<rparr>)
                             (send_smr_interface t) (send_smr_multiaddr t)
                             (nak_sqn nak # nak_list) False)
                   else Some (snd (send_ncf os
                                (t\<lparr>cumulative_stats :=
                                   stat_inc (cumulative_stats t)
                                     PGM_PC_SOURCE_SELECTIVE_NAKS_RECEIVED\<rparr>)
                                (send_smr_interface t) (send_smr_multiaddr t)
                                (nak_sqn nak) False))) of
               None \<Rightarrow> None
             | Some t2 \<Rightarrow>
                 Some (queue_retransmit os txw False (nak_sqn nak # nak_list) (0, t2))))"
proof -
  have g: "(if sa_family (nak_src_nla nak) = AF_INET then nak_grp_nla nak
            else if sa_family (nak_src_nla nak) = AF_INET6 then nak6_grp_nla nak
            else nak_grp_nla_uninit nak) = send_smr_multiaddr t"
    using fam src grp by (auto simp: AF_INET_def AF_INET6_def)
  show ?thesis
    unfolding on_nak_def Let_def g
    using sel v src by (simp add: pgm_sockaddr_cmp_def split: option.split sum.split)
qed

lemma ncf_sent:
  assumes "length nak_list \<le> 62"
  shows "(if nak_list \<noteq> []
          then map_option snd (send_ncf_list os t1 src grp (sqn # nak_list) False)
          else Some (snd (send_ncf os t1 src grp sqn False)))
     = Some (t1\<lparr>wire := wire t1 @ [Sendto SEND_WITH_ROUTER_ALERT_SOCK False
          \<lparr>pgm_sport = tsi_sport t1, pgm_dport = dport t1, pgm_type = PGM_NCF,
           pgm_options = (if nak_list = [] then 0 else PGM_OPT_PRESENT OR PGM_OPT_NETWORK),
           pgm_body = Nak_body sqn src grp nak_list\<rparr> (send_smr_multiaddr t1)]\<rparr>)"
  using assms
  by (simp add: send_ncf_list_def send_ncf_def pgm_sendto_def Let_def split: prod.split)





end
